(* ===== verification/Prelude.thy ===== *)
theory Prelude
  imports Main "HOL-Library.State_Monad" "HOL-Library.Char_ord" "HOL-Library.List_Lexorder"
begin

text \<open>
  Shared vocabulary of the development: Go strings as byte lists, Go maps as association lists in
  key order, Go errors as values, and the effect type in which every operation that talks to the
  Kubernetes API is written, with its weakest-precondition calculus and the bounded retry loop
  that all compare-and-swap writers of the program use.
\<close>

named_theorems wp_simps \<open>rewrite rules that push a postcondition through an operation\<close>

section \<open>Strings\<close>

text \<open>A Go string is a sequence of bytes; \<open>char\<close> is the type of bytes.\<close>

abbreviation code :: "char \<Rightarrow> nat" where
  "code c \<equiv> of_char c"

definition between :: "char \<Rightarrow> char \<Rightarrow> char \<Rightarrow> bool" where
  "between lo hi c \<longleftrightarrow> code lo \<le> code c \<and> code c \<le> code hi"

definition is_digit :: "char \<Rightarrow> bool" where
  "is_digit c = between CHR ''0'' CHR ''9'' c"

definition is_lower :: "char \<Rightarrow> bool" where
  "is_lower c = between CHR ''a'' CHR ''z'' c"

definition is_upper :: "char \<Rightarrow> bool" where
  "is_upper c = between CHR ''A'' CHR ''Z'' c"

definition is_lower_hex :: "char \<Rightarrow> bool" where
  "is_lower_hex c \<longleftrightarrow> is_digit c \<or> between CHR ''a'' CHR ''f'' c"

lemmas byte_class_defs =
  between_def is_digit_def is_lower_def is_upper_def is_lower_hex_def

text \<open>\<open>strings.HasPrefix\<close>, \<open>strings.TrimPrefix\<close> and \<open>strings.HasSuffix\<close>.\<close>

definition HasPrefix :: "string \<Rightarrow> string \<Rightarrow> bool" where
  "HasPrefix s p \<longleftrightarrow> take (length p) s = p"

definition TrimPrefix :: "string \<Rightarrow> string \<Rightarrow> string" where
  "TrimPrefix s p = (if HasPrefix s p then drop (length p) s else s)"

definition HasSuffix :: "string \<Rightarrow> string \<Rightarrow> bool" where
  "HasSuffix s p \<longleftrightarrow> length p \<le> length s \<and> drop (length s - length p) s = p"

lemma HasPrefix_append [simp]: "HasPrefix (p @ s) p"
  by (simp add: HasPrefix_def)

lemma HasPrefixE:
  assumes "HasPrefix s p"
  obtains t where "s = p @ t"
  using assms by (metis HasPrefix_def append_take_drop_id)

lemma TrimPrefix_append [simp]: "TrimPrefix (p @ s) p = s"
  by (simp add: TrimPrefix_def)

lemma length_TrimPrefix: "HasPrefix s p \<Longrightarrow> length s = length p + length (TrimPrefix s p)"
  by (elim HasPrefixE) simp

section \<open>Go maps\<close>

text \<open>
  A Go \<open>map\<close> with ordered keys is its list of entries in increasing key order, which is also the
  order in which \<open>encoding/json\<close> writes it. \<open>mput\<close> is the assignment \<open>m[k] = v\<close>, \<open>mdel\<close> is
  \<open>delete(m, k)\<close>, \<open>map_of m k\<close> the two-result read and \<open>mget m k\<close> the one-result read of a map of
  strings, which gives the empty string for an absent key.
\<close>

type_synonym ('k, 'v) gomap = "('k \<times> 'v) list"

fun mput :: "'k::linorder \<Rightarrow> 'v \<Rightarrow> ('k, 'v) gomap \<Rightarrow> ('k, 'v) gomap" where
  "mput k v [] = [(k, v)]"
| "mput k v ((k', v') # m) =
     (if k < k' then (k, v) # (k', v') # m
      else if k = k' then (k, v) # m
      else (k', v') # mput k v m)"

fun mdel :: "'k \<Rightarrow> ('k, 'v) gomap \<Rightarrow> ('k, 'v) gomap" where
  "mdel k [] = []"
| "mdel k ((k', v') # m) = (if k = k' then m else (k', v') # mdel k m)"

definition mget :: "('k, string) gomap \<Rightarrow> 'k \<Rightarrow> string" where
  "mget m k = (case map_of m k of None \<Rightarrow> [] | Some v \<Rightarrow> v)"

definition go_map :: "('k::linorder, 'v) gomap \<Rightarrow> bool" where
  "go_map m \<longleftrightarrow> sorted_wrt (<) (map fst m)"

lemma go_map_Nil [simp]: "go_map []"
  by (simp add: go_map_def)

lemma go_map_Cons:
  "go_map ((k, v) # m) \<longleftrightarrow> (\<forall>k' \<in> fst ` set m. k < k') \<and> go_map m"
  by (auto simp: go_map_def)

lemma go_map_distinct: "go_map m \<Longrightarrow> distinct (map fst m)"
  by (simp add: go_map_def strict_sorted_iff)

lemma set_keys_mput: "fst ` set (mput k v m) = insert k (fst ` set m)"
  by (induction k v m rule: mput.induct) auto

lemma set_keys_mdel_subset: "fst ` set (mdel k m) \<subseteq> fst ` set m"
  by (induction k m rule: mdel.induct) auto

lemma set_mdel_subset: "set (mdel k m) \<subseteq> set m"
  by (induction k m rule: mdel.induct) auto

lemma go_map_mput: "go_map m \<Longrightarrow> go_map (mput k v m)"
  by (induction k v m rule: mput.induct) (auto simp: go_map_Cons set_keys_mput)

lemma go_map_mdel: "go_map m \<Longrightarrow> go_map (mdel k m)"
proof (induction k m rule: mdel.induct)
  case (2 k k' v' m)
  then show ?case using set_mdel_subset [of k m] by (fastforce simp: go_map_Cons)
qed simp

lemma go_map_less_None: "go_map ((k', v') # m) \<Longrightarrow> k \<le> k' \<Longrightarrow> map_of m k = None"
  by (auto simp: go_map_Cons map_of_eq_None_iff)

lemma map_of_mput: "go_map m \<Longrightarrow> map_of (mput k v m) = (map_of m)(k \<mapsto> v)"
proof (induction k v m rule: mput.induct)
  case (2 k v k' v' m)
  then show ?case by (auto simp: go_map_Cons fun_eq_iff)
qed simp

lemma map_of_mdel: "go_map m \<Longrightarrow> map_of (mdel k m) = (map_of m)(k := None)"
proof (induction k m rule: mdel.induct)
  case (2 k k' v' m)
  then show ?case
    by (auto simp: go_map_Cons fun_eq_iff map_of_eq_None_iff)
qed simp

lemma length_mput:
  "go_map m \<Longrightarrow> length (mput k v m) = (if map_of m k = None then Suc (length m) else length m)"
proof (induction k v m rule: mput.induct)
  case (2 k v k' v' m)
  then show ?case
    using go_map_less_None [of k' v' m k] by (auto simp: go_map_Cons)
qed simp

lemma length_mdel: "length (mdel k m) = (if map_of m k = None then length m else length m - 1)"
proof (induction k m rule: mdel.induct)
  case (2 k k' v' m)
  then show ?case by (cases m) (auto simp: map_of_eq_None_iff split: if_splits)
qed simp

lemma set_mput: "go_map m \<Longrightarrow> set (mput k v m) = insert (k, v) {e \<in> set m. fst e \<noteq> k}"
proof (induction k v m rule: mput.induct)
  case (2 k v k' v' m)
  from "2.prems" have less: "\<forall>e \<in> set m. k' < fst e" and "go_map m"
    by (auto simp: go_map_Cons)
  show ?case
  proof (cases "k < k'")
    case True
    with less show ?thesis by auto
  next
    case False
    with less "2.IH" \<open>go_map m\<close> show ?thesis by auto
  qed
qed simp

lemma set_mdel: "go_map m \<Longrightarrow> set (mdel k m) = {e \<in> set m. fst e \<noteq> k}"
proof (induction k m rule: mdel.induct)
  case (2 k k' v' m)
  from "2.prems" have less: "\<forall>e \<in> set m. k' < fst e" and "go_map m"
    by (auto simp: go_map_Cons)
  with "2.IH" show ?case by auto
qed simp

lemma mdel_id: "map_of m k = None \<Longrightarrow> mdel k m = m"
  by (induction k m rule: mdel.induct) (auto split: if_splits)

lemma filter_mput_length:
  assumes "go_map m" and "map_of m k = None"
  shows "length (filter P (mput k v m)) = length (filter P m) + (if P (k, v) then 1 else 0)"
  using assms by (induction k v m rule: mput.induct) (auto simp: go_map_Cons split: if_splits)

lemma filter_mdel_length_le: "length (filter P (mdel k m)) \<le> length (filter P m)"
  by (induction k m rule: mdel.induct) auto

lemmas gomap_simps = go_map_mput go_map_mdel map_of_mput map_of_mdel

section \<open>Errors\<close>

text \<open>
  The reasons the Kubernetes API gives for a failed request, as far as the program tells them
  apart, and the program's own error values. \<open>Wrap\<close> is an error formatted with \<open>%w\<close> around
  another one, which \<open>errors.Is\<close> and \<open>errors.As\<close> look through; \<open>Join\<close> is \<open>errors.Join\<close>.
\<close>

datatype api_reason =
    Conflict | NotFound | AlreadyExists | TooManyRequests | Forbidden | Unprocessable
  | BadRequest | Unauthorized | OtherReason

datatype goerr =
    ErrApi api_reason
  | ErrMsg string
  | ErrCtx
  | ErrFull | ErrBusy | ErrConflict | ErrDrift
  | ErrUncommitted | ErrChanged | ErrUnknownCreate | ErrUnknownPin | ErrUnknownCommit
  | ErrPeerCommitted | ErrNonemptyLedger
  | ErrReceiptInvalid | ErrReceiptChanged | ErrReceiptUnconfirmed
  | ErrAdmissionClosed | ErrGrantUnpinned | ErrPodReceiptUnpinned
  | ErrAdmissionRecovery nat
  | Wrap string goerr
  | Join goerr goerr

text \<open>\<open>errors.Is\<close> for the sentinel values, and the reason that \<open>errors.As\<close> finds first.\<close>

fun errors_Is :: "goerr \<Rightarrow> goerr \<Rightarrow> bool" where
  "errors_Is (Wrap t e) target \<longleftrightarrow> Wrap t e = target \<or> errors_Is e target"
| "errors_Is (Join a b) target \<longleftrightarrow> Join a b = target \<or> errors_Is a target \<or> errors_Is b target"
| "errors_Is e target \<longleftrightarrow> e = target"

fun reason_for :: "goerr \<Rightarrow> api_reason option" where
  "reason_for (ErrApi r) = Some r"
| "reason_for (Wrap t e) = reason_for e"
| "reason_for (Join a b) = (case reason_for a of None \<Rightarrow> reason_for b | Some r \<Rightarrow> Some r)"
| "reason_for e = None"

abbreviation IsConflict :: "goerr \<Rightarrow> bool" where "IsConflict e \<equiv> reason_for e = Some Conflict"
abbreviation IsNotFound :: "goerr \<Rightarrow> bool" where "IsNotFound e \<equiv> reason_for e = Some NotFound"
abbreviation IsAlreadyExists :: "goerr \<Rightarrow> bool" where
  "IsAlreadyExists e \<equiv> reason_for e = Some AlreadyExists"
abbreviation IsTooManyRequests :: "goerr \<Rightarrow> bool" where
  "IsTooManyRequests e \<equiv> reason_for e = Some TooManyRequests"

section \<open>Operations with effects\<close>

text \<open>
  An operation reads and changes a world \<open>'w\<close>. A Go function with results \<open>(T, error)\<close> is an
  operation with result \<open>goerr + T\<close>; one with the single result \<open>error\<close> gives \<open>goerr option\<close>,
  where \<open>None\<close> is \<open>nil\<close>.
\<close>

type_synonym ('w, 'a) op = "('w, 'a) state"

abbreviation ret :: "'a \<Rightarrow> ('w, 'a) op" where
  "ret \<equiv> State_Monad.return"

text \<open>\<open>x, err := m; if err != nil { return err }\<close>, for the two result shapes.\<close>

definition attempt :: "('w, goerr + 'a) op \<Rightarrow> ('a \<Rightarrow> ('w, goerr + 'b) op) \<Rightarrow> ('w, goerr + 'b) op" where
  "attempt m k = do { r \<leftarrow> m; case r of Inl e \<Rightarrow> ret (Inl e) | Inr x \<Rightarrow> k x }"

definition attemptE :: "('w, goerr + 'a) op \<Rightarrow> ('a \<Rightarrow> ('w, goerr option) op) \<Rightarrow> ('w, goerr option) op"
  where "attemptE m k = do { r \<leftarrow> m; case r of Inl e \<Rightarrow> ret (Some e) | Inr x \<Rightarrow> k x }"

definition guard :: "('w, goerr option) op \<Rightarrow> ('w, goerr + 'b) op \<Rightarrow> ('w, goerr + 'b) op" where
  "guard m k = do { r \<leftarrow> m; case r of Some e \<Rightarrow> ret (Inl e) | None \<Rightarrow> k }"

definition guardE :: "('w, goerr option) op \<Rightarrow> ('w, goerr option) op \<Rightarrow> ('w, goerr option) op" where
  "guardE m k = do { r \<leftarrow> m; case r of Some e \<Rightarrow> ret (Some e) | None \<Rightarrow> k }"

subsection \<open>Weakest preconditions\<close>

definition wp :: "('w, 'a) op \<Rightarrow> ('a \<Rightarrow> 'w \<Rightarrow> bool) \<Rightarrow> 'w \<Rightarrow> bool" where
  "wp m Q w \<longleftrightarrow> (case run_state m w of (r, w') \<Rightarrow> Q r w')"

lemma wp_ret [wp_simps]: "wp (ret x) Q w \<longleftrightarrow> Q x w"
  by (simp add: wp_def)

lemma wp_bind [wp_simps]: "wp (State_Monad.bind m f) Q w \<longleftrightarrow> wp m (\<lambda>x. wp (f x) Q) w"
  by (simp add: wp_def split: prod.splits)

lemma wp_attempt [wp_simps]:
  "wp (attempt m k) Q w \<longleftrightarrow> wp m (\<lambda>r w'. case r of Inl e \<Rightarrow> Q (Inl e) w' | Inr x \<Rightarrow> wp (k x) Q w') w"
  by (simp add: attempt_def wp_bind wp_def split: prod.splits sum.splits)

lemma wp_attemptE [wp_simps]:
  "wp (attemptE m k) Q w \<longleftrightarrow> wp m (\<lambda>r w'. case r of Inl e \<Rightarrow> Q (Some e) w' | Inr x \<Rightarrow> wp (k x) Q w') w"
  by (simp add: attemptE_def wp_bind wp_def split: prod.splits sum.splits)

lemma wp_guard [wp_simps]:
  "wp (guard m k) Q w \<longleftrightarrow>
     wp m (\<lambda>r w'. case r of Some e \<Rightarrow> Q (Inl e) w' | None \<Rightarrow> wp k Q w') w"
  by (simp add: guard_def wp_bind wp_def split: prod.splits option.splits)

lemma wp_guardE [wp_simps]:
  "wp (guardE m k) Q w \<longleftrightarrow>
     wp m (\<lambda>r w'. case r of Some e \<Rightarrow> Q (Some e) w' | None \<Rightarrow> wp k Q w') w"
  by (simp add: guardE_def wp_bind wp_def split: prod.splits option.splits)

lemma wp_if [wp_simps]:
  "wp (if b then m else n) Q w \<longleftrightarrow> (b \<longrightarrow> wp m Q w) \<and> (\<not> b \<longrightarrow> wp n Q w)"
  by simp

lemma wp_mono: "wp m P w \<Longrightarrow> (\<And>r w'. P r w' \<Longrightarrow> Q r w') \<Longrightarrow> wp m Q w"
  by (auto simp: wp_def)

lemma wp_conj: "wp m P w \<Longrightarrow> wp m Q w \<Longrightarrow> wp m (\<lambda>r w'. P r w' \<and> Q r w') w"
  by (auto simp: wp_def)

lemma wp_run: "wp m Q w \<Longrightarrow> run_state m w = (r, w') \<Longrightarrow> Q r w'"
  by (simp add: wp_def)

lemma wpI: "(\<And>r w'. run_state m w = (r, w') \<Longrightarrow> Q r w') \<Longrightarrow> wp m Q w"
  by (simp add: wp_def split: prod.splits)

subsection \<open>Bounded retry loops\<close>

text \<open>
  \<open>for retry := 0; retry < n; retry++ { body }; rest\<close>. One round of the body either returns from
  the enclosing function or goes on to the next round.
\<close>

datatype 'a round = Continue | Return 'a

fun retry_from :: "nat \<Rightarrow> nat \<Rightarrow> (nat \<Rightarrow> ('w, 'a round) op) \<Rightarrow> ('w, 'a) op \<Rightarrow> ('w, 'a) op" where
  "retry_from i 0 body rest = rest"
| "retry_from i (Suc n) body rest =
     do { r \<leftarrow> body i; case r of Continue \<Rightarrow> retry_from (Suc i) n body rest | Return x \<Rightarrow> ret x }"

definition for_retry :: "nat \<Rightarrow> (nat \<Rightarrow> ('w, 'a round) op) \<Rightarrow> ('w, 'a) op \<Rightarrow> ('w, 'a) op" where
  "for_retry n body rest = retry_from 0 n body rest"

text \<open>The loop rule: an invariant that every round keeps when it continues.\<close>

lemma wp_retry_from:
  assumes "I w"
    and "\<And>i w. I w \<Longrightarrow> wp (body i) (\<lambda>r w'. case r of Continue \<Rightarrow> I w' | Return x \<Rightarrow> Q x w') w"
    and "\<And>w. I w \<Longrightarrow> wp rest Q w"
  shows "wp (retry_from i n body rest) Q w"
  using assms(1)
proof (induction n arbitrary: i w)
  case 0
  then show ?case by (simp add: assms(3))
next
  case (Suc n)
  show ?case
    unfolding retry_from.simps wp_bind
    by (rule wp_mono [OF assms(2) [OF Suc.prems]])
      (auto simp: wp_ret Suc.IH split: round.splits)
qed

lemma wp_for_retry:
  assumes "I w"
    and "\<And>i w. I w \<Longrightarrow> wp (body i) (\<lambda>r w'. case r of Continue \<Rightarrow> I w' | Return x \<Rightarrow> Q x w') w"
    and "\<And>w. I w \<Longrightarrow> wp rest Q w"
  shows "wp (for_retry n body rest) Q w"
  unfolding for_retry_def by (rule wp_retry_from [where I = I]) (use assms in auto)

text \<open>The same early returns inside a loop body, where \<open>return\<close> leaves the whole function.\<close>

definition rtry :: "('w, goerr + 'a) op \<Rightarrow> ('a \<Rightarrow> ('w, (goerr + 'b) round) op)
    \<Rightarrow> ('w, (goerr + 'b) round) op" where
  "rtry m k = do { r \<leftarrow> m; case r of Inl e \<Rightarrow> ret (Return (Inl e)) | Inr x \<Rightarrow> k x }"

definition rtryE :: "('w, goerr + 'a) op \<Rightarrow> ('a \<Rightarrow> ('w, goerr option round) op)
    \<Rightarrow> ('w, goerr option round) op" where
  "rtryE m k = do { r \<leftarrow> m; case r of Inl e \<Rightarrow> ret (Return (Some e)) | Inr x \<Rightarrow> k x }"

definition rguard :: "('w, goerr option) op \<Rightarrow> ('w, (goerr + 'b) round) op
    \<Rightarrow> ('w, (goerr + 'b) round) op" where
  "rguard m k = do { r \<leftarrow> m; case r of Some e \<Rightarrow> ret (Return (Inl e)) | None \<Rightarrow> k }"

definition rguardE :: "('w, goerr option) op \<Rightarrow> ('w, goerr option round) op
    \<Rightarrow> ('w, goerr option round) op" where
  "rguardE m k = do { r \<leftarrow> m; case r of Some e \<Rightarrow> ret (Return (Some e)) | None \<Rightarrow> k }"

lemma wp_rtry [wp_simps]:
  "wp (rtry m k) Q w \<longleftrightarrow>
     wp m (\<lambda>r w'. case r of Inl e \<Rightarrow> Q (Return (Inl e)) w' | Inr x \<Rightarrow> wp (k x) Q w') w"
  by (simp add: rtry_def wp_bind wp_def split: prod.splits sum.splits)

lemma wp_rtryE [wp_simps]:
  "wp (rtryE m k) Q w \<longleftrightarrow>
     wp m (\<lambda>r w'. case r of Inl e \<Rightarrow> Q (Return (Some e)) w' | Inr x \<Rightarrow> wp (k x) Q w') w"
  by (simp add: rtryE_def wp_bind wp_def split: prod.splits sum.splits)

lemma wp_rguard [wp_simps]:
  "wp (rguard m k) Q w \<longleftrightarrow>
     wp m (\<lambda>r w'. case r of Some e \<Rightarrow> Q (Return (Inl e)) w' | None \<Rightarrow> wp k Q w') w"
  by (simp add: rguard_def wp_bind wp_def split: prod.splits option.splits)

lemma wp_rguardE [wp_simps]:
  "wp (rguardE m k) Q w \<longleftrightarrow>
     wp m (\<lambda>r w'. case r of Some e \<Rightarrow> Q (Return (Some e)) w' | None \<Rightarrow> wp k Q w') w"
  by (simp add: rguardE_def wp_bind wp_def split: prod.splits option.splits)

text \<open>
  A retry loop with a local variable that the rounds pass on. A round goes on with a new value or
  leaves the enclosing function; \<open>fail\<close> turns an error into the result of that function.
\<close>

datatype ('s, 'a) turn = Again 's | Leave 'a

fun loop_from ::
  "nat \<Rightarrow> nat \<Rightarrow> 's \<Rightarrow> (nat \<Rightarrow> 's \<Rightarrow> ('w, ('s, 'a) turn) op) \<Rightarrow> ('s \<Rightarrow> ('w, 'a) op) \<Rightarrow> ('w, 'a) op" where
  "loop_from i 0 s body rest = rest s"
| "loop_from i (Suc n) s body rest =
     do { r \<leftarrow> body i s; case r of Again s' \<Rightarrow> loop_from (Suc i) n s' body rest | Leave x \<Rightarrow> ret x }"

definition for_loop ::
  "nat \<Rightarrow> 's \<Rightarrow> (nat \<Rightarrow> 's \<Rightarrow> ('w, ('s, 'a) turn) op) \<Rightarrow> ('s \<Rightarrow> ('w, 'a) op) \<Rightarrow> ('w, 'a) op" where
  "for_loop n s body rest = loop_from 0 n s body rest"

definition ttry ::
  "(goerr \<Rightarrow> 'b) \<Rightarrow> ('w, goerr + 'a) op \<Rightarrow> ('a \<Rightarrow> ('w, ('s, 'b) turn) op) \<Rightarrow> ('w, ('s, 'b) turn) op" where
  "ttry fail m k = do { r \<leftarrow> m; case r of Inl e \<Rightarrow> ret (Leave (fail e)) | Inr x \<Rightarrow> k x }"

definition tguard ::
  "(goerr \<Rightarrow> 'b) \<Rightarrow> ('w, goerr option) op \<Rightarrow> ('w, ('s, 'b) turn) op \<Rightarrow> ('w, ('s, 'b) turn) op" where
  "tguard fail m k = do { r \<leftarrow> m; case r of Some e \<Rightarrow> ret (Leave (fail e)) | None \<Rightarrow> k }"

lemma wp_ttry [wp_simps]:
  "wp (ttry fail m k) Q w \<longleftrightarrow>
     wp m (\<lambda>r w'. case r of Inl e \<Rightarrow> Q (Leave (fail e)) w' | Inr x \<Rightarrow> wp (k x) Q w') w"
  by (simp add: ttry_def wp_bind wp_def split: prod.splits sum.splits)

lemma wp_tguard [wp_simps]:
  "wp (tguard fail m k) Q w \<longleftrightarrow>
     wp m (\<lambda>r w'. case r of Some e \<Rightarrow> Q (Leave (fail e)) w' | None \<Rightarrow> wp k Q w') w"
  by (simp add: tguard_def wp_bind wp_def split: prod.splits option.splits)

lemma wp_loop_from:
  assumes "I s w"
    and "\<And>i s w. I s w \<Longrightarrow> wp (body i s) (\<lambda>r w'. case r of Again s' \<Rightarrow> I s' w' | Leave x \<Rightarrow> Q x w') w"
    and "\<And>s w. I s w \<Longrightarrow> wp (rest s) Q w"
  shows "wp (loop_from i n s body rest) Q w"
  using assms(1)
proof (induction n arbitrary: i s w)
  case 0
  then show ?case by (simp add: assms(3))
next
  case (Suc n)
  show ?case
    unfolding loop_from.simps wp_bind
    by (rule wp_mono [OF assms(2) [OF Suc.prems]])
      (auto simp: wp_ret Suc.IH split: turn.splits)
qed

lemma wp_for_loop:
  assumes "I s w"
    and "\<And>i s w. I s w \<Longrightarrow> wp (body i s) (\<lambda>r w'. case r of Again s' \<Rightarrow> I s' w' | Leave x \<Rightarrow> Q x w') w"
    and "\<And>s w. I s w \<Longrightarrow> wp (rest s) Q w"
  shows "wp (for_loop n s body rest) Q w"
  unfolding for_loop_def by (rule wp_loop_from [where I = I]) (use assms in auto)

text \<open>A call through an interface value that may be nil, for the two result shapes.\<close>

abbreviation nil_deref :: goerr where
  "nil_deref \<equiv> ErrMsg ''nil pointer dereference''"

definition via :: "'r option \<Rightarrow> ('r \<Rightarrow> ('w, goerr + 'a) op) \<Rightarrow> ('w, goerr + 'a) op" where
  "via r f = (case r of None \<Rightarrow> ret (Inl nil_deref) | Some x \<Rightarrow> f x)"

definition viaE :: "'r option \<Rightarrow> ('r \<Rightarrow> ('w, goerr option) op) \<Rightarrow> ('w, goerr option) op" where
  "viaE r f = (case r of None \<Rightarrow> ret (Some nil_deref) | Some x \<Rightarrow> f x)"

end
