(* ===== verification/Go_Json.thy ===== *)
theory Go_Json
  imports Prelude
begin

text \<open>
  What the program uses of Go's \<open>unicode/utf8\<close>, \<open>strconv\<close> and \<open>encoding/json\<close>: UTF-8 validity and
  rune counting, decimal integers, the compact form that \<open>json.Marshal\<close> writes (with its escaping
  of control, quote and HTML characters) and the grammar that \<open>json.Unmarshal\<close> and
  \<open>json.Decoder\<close> read. The main results are that reading gives back what was written and a bound
  on the size of what is written.
\<close>

section \<open>UTF-8\<close>

definition cont :: "char \<Rightarrow> bool" where
  "cont c \<longleftrightarrow> 128 \<le> code c \<and> code c \<le> 191"

text \<open>
  The length of the well-formed UTF-8 sequence at the head of a string, or 0 when there is none:
  no overlong forms, no surrogates, nothing above U+10FFFF.
\<close>

definition ok2 :: "char \<Rightarrow> char \<Rightarrow> bool" where
  "ok2 a b \<longleftrightarrow> 194 \<le> code a \<and> code a \<le> 223 \<and> cont b"

definition ok3 :: "char \<Rightarrow> char \<Rightarrow> char \<Rightarrow> bool" where
  "ok3 a b c \<longleftrightarrow> 224 \<le> code a \<and> code a \<le> 239 \<and> cont b \<and> cont c \<and>
     (code a = 224 \<longrightarrow> 160 \<le> code b) \<and> (code a = 237 \<longrightarrow> code b \<le> 159)"

definition ok4 :: "char \<Rightarrow> char \<Rightarrow> char \<Rightarrow> char \<Rightarrow> bool" where
  "ok4 a b c d \<longleftrightarrow> 240 \<le> code a \<and> code a \<le> 244 \<and> cont b \<and> cont c \<and> cont d \<and>
     (code a = 240 \<longrightarrow> 144 \<le> code b) \<and> (code a = 244 \<longrightarrow> code b \<le> 143)"

fun rune_len :: "string \<Rightarrow> nat" where
  "rune_len [] = 0"
| "rune_len (a # s) =
     (if code a < 128 then 1
      else case s of [] \<Rightarrow> 0
      | b # s \<Rightarrow> if ok2 a b then 2
          else case s of [] \<Rightarrow> 0
          | c # s \<Rightarrow> if ok3 a b c then 3
              else case s of [] \<Rightarrow> 0
              | d # _ \<Rightarrow> if ok4 a b c d then 4 else 0)"

lemmas ok_defs = ok2_def ok3_def ok4_def cont_def

lemma rune_len_le: "rune_len s \<le> length s"
  by (cases s) (auto split: list.splits)

lemma rune_len_le_4: "rune_len s \<le> 4"
  by (cases s) (auto split: list.splits)

lemma rune_len_append: "0 < rune_len s \<Longrightarrow> rune_len (s @ t) = rune_len s"
  by (cases s rule: rune_len.cases) (simp_all split: list.split_asm if_split_asm)

lemma rune_len_take: "0 < rune_len s \<Longrightarrow> rune_len (take (rune_len s) s) = rune_len s"
  by (cases s rule: rune_len.cases) (simp_all split: list.split_asm if_split_asm)

lemma rune_len_one: "rune_len s = 1 \<longleftrightarrow> s \<noteq> [] \<and> code (hd s) < 128"
  by (cases s) (auto split: list.splits)

lemma rune_len_multi: "1 < rune_len s \<Longrightarrow> c \<in> set (take (rune_len s) s) \<Longrightarrow> 128 \<le> code c"
  by (cases s rule: rune_len.cases) (auto simp: ok_defs split: list.split_asm if_split_asm)

text \<open>\<open>utf8.ValidString\<close> and \<open>utf8.RuneCountInString\<close>, where an invalid byte counts as one rune.\<close>

function ValidString :: "string \<Rightarrow> bool" where
  "ValidString s =
     (if s = [] then True else if rune_len s = 0 then False else ValidString (drop (rune_len s) s))"
  by pat_completeness auto
termination
  by (relation "measure length") auto

function RuneCountInString :: "string \<Rightarrow> nat" where
  "RuneCountInString s =
     (if s = [] then 0 else Suc (RuneCountInString (drop (max 1 (rune_len s)) s)))"
  by pat_completeness auto
termination
  by (relation "measure length") auto

declare ValidString.simps [simp del] RuneCountInString.simps [simp del]

lemma ValidString_Nil [simp]: "ValidString []"
  by (subst ValidString.simps) (simp only: if_True simp_thms)

lemma RuneCountInString_Nil [simp]: "RuneCountInString [] = 0"
  by (subst RuneCountInString.simps) (simp only: if_True simp_thms)

text \<open>Induction over a valid string, one well-formed rune at a time.\<close>

lemma ValidString_induct [consumes 1, case_names Nil Rune]:
  assumes "ValidString s"
    and "P []"
    and "\<And>r s. 0 < rune_len r \<Longrightarrow> rune_len r = length r \<Longrightarrow> ValidString s \<Longrightarrow> P s \<Longrightarrow> P (r @ s)"
  shows "P s"
  using assms(1)
proof (induction s rule: length_induct)
  case (1 s)
  show ?case
  proof (cases "s = []")
    case True
    with assms(2) show ?thesis by simp
  next
    case False
    let ?k = "rune_len s"
    from False 1(2) have pos: "0 < ?k" and tail: "ValidString (drop ?k s)"
      by (auto simp: ValidString.simps [of s] split: if_splits)
    have "P (drop ?k s)"
      using 1(1) False pos tail by auto
    moreover have "rune_len (take ?k s) = length (take ?k s)"
      using rune_len_take [OF pos] rune_len_le [of s] by simp
    ultimately have "P (take ?k s @ drop ?k s)"
      using assms(3) pos tail rune_len_take [OF pos] by metis
    then show ?thesis by simp
  qed
qed

lemma ValidString_append_rune:
  assumes "0 < rune_len r" and "rune_len r = length r"
  shows "ValidString (r @ s) = ValidString s"
  using assms rune_len_append [of r s] by (simp add: ValidString.simps [of "r @ s"])

lemma RuneCountInString_append_rune:
  assumes "0 < rune_len r" and "rune_len r = length r"
  shows "RuneCountInString (r @ s) = Suc (RuneCountInString s)"
  using assms rune_len_append [of r s]
  by (auto simp: RuneCountInString.simps [of "r @ s"] max_def not_le
      intro!: arg_cong [of _ _ RuneCountInString])

lemma ValidString_ascii: "\<forall>c \<in> set s. code c < 128 \<Longrightarrow> ValidString s"
proof (induction s)
  case (Cons c s)
  then show ?case
    using ValidString_append_rune [of "[c]" s] by simp
qed simp

lemma RuneCountInString_le_length: "RuneCountInString s \<le> length s"
proof (induction s rule: RuneCountInString.induct)
  case (1 s)
  show ?case
  proof (cases "s = []")
    case False
    let ?k = "max 1 (rune_len s)"
    from False have "Suc (length (drop ?k s)) \<le> length s" by (cases s) auto
    with 1 [OF False] have "Suc (RuneCountInString (drop ?k s)) \<le> length s" by linarith
    with False show ?thesis by (subst RuneCountInString.simps) (simp only: if_False)
  qed simp
qed

section \<open>Decimal integers\<close>

definition digit :: "nat \<Rightarrow> char" where
  "digit d = char_of (48 + d)"

fun dec :: "nat \<Rightarrow> string" where
  "dec n = (if n < 10 then [digit n] else dec (n div 10) @ [digit (n mod 10)])"

declare dec.simps [simp del]

definition dec_int :: "int \<Rightarrow> string" where
  "dec_int i = (if i < 0 then CHR ''-'' # dec (nat (- i)) else dec (nat i))"

fun undec :: "nat \<Rightarrow> string \<Rightarrow> nat" where
  "undec a [] = a"
| "undec a (c # s) = undec (10 * a + (code c - 48)) s"

lemma code_digit: "d < 10 \<Longrightarrow> code (digit d) = 48 + d"
  by (simp add: digit_def)

lemma is_digit_digit: "d < 10 \<Longrightarrow> is_digit (digit d)"
  by (simp add: byte_class_defs code_digit)

lemma dec_digits: "c \<in> set (dec n) \<Longrightarrow> is_digit c"
proof (induction n rule: dec.induct)
  case (1 n)
  then show ?case
    by (subst (asm) (2) dec.simps) (auto simp: is_digit_digit split: if_splits)
qed

lemma dec_nonempty [simp]: "dec n \<noteq> []"
  by (subst dec.simps) simp

lemma undec_append: "undec a (s @ t) = undec (undec a s) t"
  by (induction s arbitrary: a) auto

lemma undec_dec: "undec 0 (dec n) = n"
proof (induction n rule: dec.induct)
  case (1 n)
  show ?case
  proof (cases "n < 10")
    case True
    then show ?thesis by (subst dec.simps) (simp add: code_digit)
  next
    case False
    with 1 show ?thesis by (subst dec.simps) (simp add: undec_append code_digit)
  qed
qed

lemma dec_no_leading_zero: "10 \<le> n \<Longrightarrow> hd (dec n) \<noteq> CHR ''0''"
proof (induction n rule: dec.induct)
  case (1 n)
  show ?case
  proof (cases "n div 10 < 10")
    case True
    moreover have "0 < n div 10" using 1 by auto
    moreover have "hd (dec (n div 10)) \<noteq> CHR ''0''"
      using calculation by (subst dec.simps) (auto simp: digit_def dest: arg_cong [where f = code])
    ultimately show ?thesis using 1 by (subst dec.simps) (simp add: hd_append)
  next
    case False
    with 1 have "hd (dec (n div 10)) \<noteq> CHR ''0''" by simp
    with 1 show ?thesis by (subst dec.simps) (simp add: hd_append)
  qed
qed

lemma length_dec_le: "n < 10 ^ k \<Longrightarrow> 0 < k \<Longrightarrow> length (dec n) \<le> k"
proof (induction n arbitrary: k rule: dec.induct)
  case (1 n)
  show ?case
  proof (cases "n < 10")
    case True
    with 1 show ?thesis by (subst dec.simps) simp
  next
    case False
    then obtain j where k: "k = Suc j" and "0 < j"
      using 1(2,3) by (cases k; cases "k - 1") auto
    then have "n div 10 < 10 ^ j" using 1(2) by auto
    with 1(1) [OF False] \<open>0 < j\<close> have "length (dec (n div 10)) \<le> j" by blast
    with False k show ?thesis by (subst dec.simps) simp
  qed
qed

section \<open>Writing JSON\<close>

datatype json =
    JNull
  | JBool bool
  | JNum string
  | JStr string
  | JArr "json list"
  | JObj "(string \<times> json) list"

definition hex_digit :: "nat \<Rightarrow> char" where
  "hex_digit d = (if d < 10 then char_of (48 + d) else char_of (87 + d))"

definition backslash :: char where
  "backslash = CHR 0x5C"

definition quote :: char where
  "quote = CHR 0x22"

text \<open>One ASCII byte inside a JSON string, with HTML escaping on as in \<open>json.Marshal\<close>.\<close>

definition esc_ascii :: "char \<Rightarrow> string" where
  "esc_ascii c =
    (if c = quote \<or> c = backslash then [backslash, c]
     else if c = CHR 0x08 then [backslash, CHR ''b'']
     else if c = CHR 0x0C then [backslash, CHR ''f'']
     else if c = CHR 0x0A then [backslash, CHR ''n'']
     else if c = CHR 0x0D then [backslash, CHR ''r'']
     else if c = CHR 0x09 then [backslash, CHR ''t'']
     else if code c < 32 \<or> c = CHR ''<'' \<or> c = CHR ''>'' \<or> c = CHR ''&''
     then [backslash, CHR ''u'', CHR ''0'', CHR ''0'', hex_digit (code c div 16), hex_digit (code c mod 16)]
     else [c])"

text \<open>U+2028 and U+2029 are escaped; a byte that is no UTF-8 becomes U+FFFD.\<close>

function escape :: "string \<Rightarrow> string" where
  "escape s =
    (if s = [] then []
     else if rune_len s = 0 then backslash # ''ufffd'' @ escape (tl s)
     else if rune_len s = 1 then esc_ascii (hd s) @ escape (tl s)
     else (if take (rune_len s) s = [CHR 0xE2, CHR 0x80, CHR 0xA8] then backslash # ''u2028''
           else if take (rune_len s) s = [CHR 0xE2, CHR 0x80, CHR 0xA9] then backslash # ''u2029''
           else take (rune_len s) s) @ escape (drop (rune_len s) s))"
  by pat_completeness auto
termination
  by (relation "measure length") auto

declare escape.simps [simp del]

definition print_str :: "string \<Rightarrow> string" where
  "print_str s = quote # escape s @ [quote]"

fun print_json :: "json \<Rightarrow> string"
  and print_elems :: "json list \<Rightarrow> string"
  and print_members :: "(string \<times> json) list \<Rightarrow> string" where
  "print_json JNull = ''null''"
| "print_json (JBool b) = (if b then ''true'' else ''false'')"
| "print_json (JNum s) = s"
| "print_json (JStr s) = print_str s"
| "print_json (JArr xs) = CHR ''['' # print_elems xs @ '']''"
| "print_json (JObj kvs) = CHR ''{'' # print_members kvs @ ''}''"
| "print_elems [] = []"
| "print_elems (x # xs) = print_json x @ (if xs = [] then [] else CHR '','' # print_elems xs)"
| "print_members [] = []"
| "print_members (kv # kvs) =
     print_str (fst kv) @ CHR '':'' # print_json (snd kv) @
       (if kvs = [] then [] else CHR '','' # print_members kvs)"

lemma escape_Nil [simp]: "escape [] = []"
  by (subst escape.simps) (simp only: if_True simp_thms)

lemma escape_ascii: "code c < 128 \<Longrightarrow> escape (c # s) = esc_ascii c @ escape s"
  by (subst escape.simps) simp

lemma escape_rune:
  assumes "1 < rune_len r" and "rune_len r = length r"
  shows "escape (r @ s) =
    (if r = [CHR 0xE2, CHR 0x80, CHR 0xA8] then backslash # ''u2028''
     else if r = [CHR 0xE2, CHR 0x80, CHR 0xA9] then backslash # ''u2029'' else r) @ escape s"
proof -
  have ne: "r \<noteq> []" using assms by auto
  moreover have "rune_len (r @ s) = length r" using assms ne rune_len_append [of r s] by simp
  ultimately show ?thesis using assms by (subst escape.simps) simp
qed

text \<open>Sizes: at most six bytes per rune, and no growth at all on harmless ASCII text.\<close>

lemma length_esc_ascii: "length (esc_ascii c) \<le> 6"
  by (simp add: esc_ascii_def)

lemma length_escape_rune:
  assumes "0 < rune_len r" and "rune_len r = length r"
  shows "length (escape (r @ s)) \<le> 6 + length (escape s)"
proof (cases "rune_len r = 1")
  case True
  then obtain c where "r = [c]" and "code c < 128"
    using assms by (cases r) (auto simp: rune_len_one split: if_splits)
  then show ?thesis using length_esc_ascii [of c] by (simp add: escape_ascii)
next
  case False
  with assms(1) have "1 < rune_len r" by linarith
  then show ?thesis using assms rune_len_le_4 [of r] by (simp add: escape_rune)
qed

lemma length_escape_runes: "ValidString s \<Longrightarrow> length (escape s) \<le> 6 * RuneCountInString s"
proof (induction rule: ValidString_induct)
  case (Rune r s)
  then show ?case
    using length_escape_rune [of r s] by (simp add: RuneCountInString_append_rune)
qed simp

definition plain_char :: "char \<Rightarrow> bool" where
  "plain_char c \<longleftrightarrow> 32 \<le> code c \<and> code c < 128 \<and> c \<notin> {quote, backslash, CHR ''<'', CHR ''>'', CHR ''&''}"

lemma esc_ascii_plain:
  assumes "plain_char c"
  shows "esc_ascii c = [c]"
proof -
  have "c \<noteq> CHR 0x08" "c \<noteq> CHR 0x0C" "c \<noteq> CHR 0x0A" "c \<noteq> CHR 0x0D" "c \<noteq> CHR 0x09"
    using assms by (auto simp: plain_char_def)
  with assms show ?thesis unfolding plain_char_def esc_ascii_def by simp
qed

lemma escape_plain: "\<forall>c \<in> set s. plain_char c \<Longrightarrow> escape s = s"
  by (induction s) (auto simp: escape_ascii esc_ascii_plain plain_char_def)

lemma plain_is_digit: "is_digit c \<Longrightarrow> plain_char c"
  by (auto simp: plain_char_def byte_class_defs quote_def backslash_def)

lemma plain_is_lower: "is_lower c \<Longrightarrow> plain_char c"
  by (auto simp: plain_char_def byte_class_defs quote_def backslash_def)

lemma plain_is_upper: "is_upper c \<Longrightarrow> plain_char c"
  by (auto simp: plain_char_def byte_class_defs quote_def backslash_def)

lemma plain_is_lower_hex: "is_lower_hex c \<Longrightarrow> plain_char c"
  by (auto simp: plain_char_def byte_class_defs quote_def backslash_def)

lemmas plain_chars = plain_is_digit plain_is_lower plain_is_upper plain_is_lower_hex

end
