(* ===== verification/Go_Json_Read.thy ===== *)
theory Go_Json_Read
  imports Go_Json
begin

text \<open>
  Reading JSON: the grammar of \<open>encoding/json\<close>'s scanner, string unquoting included, and the
  theorem that reading the compact form of a value gives the value back.
\<close>

section \<open>Strings\<close>

text \<open>The four hexadecimal digits after \<open>\u\<close>, and the UTF-8 form of a code point.\<close>

definition hex_val :: "char \<Rightarrow> nat option" where
  "hex_val c =
    (if is_digit c then Some (code c - 48)
     else if between CHR ''a'' CHR ''f'' c then Some (code c - 87)
     else if between CHR ''A'' CHR ''F'' c then Some (code c - 55)
     else None)"

fun hex4_val :: "string \<Rightarrow> nat option" where
  "hex4_val (a # b # c # d # _) =
     (case (hex_val a, hex_val b, hex_val c, hex_val d) of
        (Some w, Some x, Some y, Some z) \<Rightarrow> Some (((w * 16 + x) * 16 + y) * 16 + z)
      | _ \<Rightarrow> None)"
| "hex4_val _ = None"

definition utf8 :: "nat \<Rightarrow> string" where
  "utf8 n =
    (if n < 128 then [char_of n]
     else if n < 2048 then [char_of (192 + n div 64), char_of (128 + n mod 64)]
     else if n < 65536 then
       [char_of (224 + n div 4096), char_of (128 + (n div 64) mod 64), char_of (128 + n mod 64)]
     else [char_of (240 + n div 262144), char_of (128 + (n div 4096) mod 64),
           char_of (128 + (n div 64) mod 64), char_of (128 + n mod 64)])"

definition is_surrogate :: "nat \<Rightarrow> bool" where
  "is_surrogate n \<longleftrightarrow> 55296 \<le> n \<and> n < 57344"

text \<open>
  The escape after a backslash: its meaning and the rest of the input. A surrogate pair is one
  code point; a lone surrogate is U+FFFD.
\<close>

definition unescape :: "string \<Rightarrow> (string \<times> string) option" where
  "unescape s =
    (case s of
       [] \<Rightarrow> None
     | c # t \<Rightarrow>
         if c = quote \<or> c = backslash \<or> c = CHR ''/'' then Some ([c], t)
         else if c = CHR ''b'' then Some ([CHR 0x08], t)
         else if c = CHR ''f'' then Some ([CHR 0x0C], t)
         else if c = CHR ''n'' then Some ([CHR 0x0A], t)
         else if c = CHR ''r'' then Some ([CHR 0x0D], t)
         else if c = CHR ''t'' then Some ([CHR 0x09], t)
         else if c = CHR ''u'' then
           (case hex4_val t of
              None \<Rightarrow> None
            | Some n \<Rightarrow>
                let t4 = drop 4 t in
                if is_surrogate n then
                  (if take 2 t4 = [backslash, CHR ''u''] then
                     (case hex4_val (drop 2 t4) of
                        Some m \<Rightarrow>
                          if n < 56320 \<and> 56320 \<le> m \<and> m < 57344
                          then Some (utf8 (65536 + (n - 55296) * 1024 + (m - 56320)), drop 6 t4)
                          else Some (utf8 65533, t4)
                      | None \<Rightarrow> Some (utf8 65533, t4))
                   else Some (utf8 65533, t4))
                else Some (utf8 n, t4))
         else None)"

fun read_str :: "nat \<Rightarrow> string \<Rightarrow> (string \<times> string) option" where
  "read_str 0 s = None"
| "read_str (Suc n) s =
    (case s of
       [] \<Rightarrow> None
     | c # t \<Rightarrow>
         if c = quote then Some ([], t)
         else if code c < 32 then None
         else if c = backslash then
           (case unescape t of
              None \<Rightarrow> None
            | Some (r, t') \<Rightarrow> map_option (\<lambda>(x, rest). (r @ x, rest)) (read_str n t'))
         else if rune_len s = 0 then
           map_option (\<lambda>(x, rest). (utf8 65533 @ x, rest)) (read_str n t)
         else map_option (\<lambda>(x, rest). (take (rune_len s) s @ x, rest))
                (read_str n (drop (rune_len s) s)))"

text \<open>Reading an escaped string up to its closing quote.\<close>

lemma hex_val_hex_digit: "d < 16 \<Longrightarrow> hex_val (hex_digit d) = Some d"
  by (auto simp: hex_val_def hex_digit_def byte_class_defs)

lemma unescape_u00:
  assumes "n < 128"
  shows "unescape (CHR ''u'' # CHR ''0'' # CHR ''0'' # hex_digit (n div 16) # hex_digit (n mod 16) # t)
    = Some ([char_of n], t)"
proof -
  have "hex_val CHR ''0'' = Some 0" by (simp add: hex_val_def byte_class_defs)
  moreover have "n div 16 < 16" "n mod 16 < 16" using assms by auto
  ultimately have "hex4_val (CHR ''0'' # CHR ''0'' # hex_digit (n div 16) # hex_digit (n mod 16) # t)
      = Some n"
    by (simp add: hex_val_hex_digit)
  with assms show ?thesis
    by (simp add: unescape_def quote_def backslash_def is_surrogate_def utf8_def)
qed

lemma read_str_escaped:
  assumes "unescape u = Some (r, t)" and "read_str n t = Some (x, rest)"
  shows "read_str (Suc n) (backslash # u) = Some (r @ x, rest)"
  using assms by (simp add: backslash_def quote_def)

lemma read_str_plain:
  assumes "32 \<le> code c" and "code c < 128" and "c \<noteq> quote" and "c \<noteq> backslash"
    and "read_str n t = Some (x, rest)"
  shows "read_str (Suc n) (c # t) = Some (c # x, rest)"
  using assms by simp

lemma unescape_short:
  "unescape (quote # t) = Some ([quote], t)"
  "unescape (backslash # t) = Some ([backslash], t)"
  "unescape (CHR ''b'' # t) = Some ([CHR 0x08], t)"
  "unescape (CHR ''f'' # t) = Some ([CHR 0x0C], t)"
  "unescape (CHR ''n'' # t) = Some ([CHR 0x0A], t)"
  "unescape (CHR ''r'' # t) = Some ([CHR 0x0D], t)"
  "unescape (CHR ''t'' # t) = Some ([CHR 0x09], t)"
  by (simp_all add: unescape_def quote_def backslash_def)

lemma read_str_ascii:
  assumes "code c < 128" and "read_str n t = Some (x, rest)"
  shows "read_str (Suc n) (esc_ascii c @ t) = Some (c # x, rest)"
proof -
  have esc: "\<And>u. unescape u = Some ([c], t) \<Longrightarrow> read_str (Suc n) (backslash # u) = Some (c # x, rest)"
    using read_str_escaped [of _ "[c]" t n x rest] assms(2) by simp
  show ?thesis
  proof (cases "c \<in> {quote, backslash, CHR 0x08, CHR 0x0C, CHR 0x0A, CHR 0x0D, CHR 0x09}")
    case True
    then show ?thesis
      using esc unescape_short [of t]
      by (auto simp: esc_ascii_def quote_def backslash_def simp del: read_str.simps)
  next
    case False
    then have eq: "esc_ascii c =
       (if code c < 32 \<or> c = CHR ''<'' \<or> c = CHR ''>'' \<or> c = CHR ''&''
        then [backslash, CHR ''u'', CHR ''0'', CHR ''0'', hex_digit (code c div 16), hex_digit (code c mod 16)]
        else [c])"
      by (simp add: esc_ascii_def)
    show ?thesis
    proof (cases "code c < 32 \<or> c = CHR ''<'' \<or> c = CHR ''>'' \<or> c = CHR ''&''")
      case True
      then show ?thesis
        using esc unescape_u00 [OF assms(1), of t] by (simp add: eq del: read_str.simps)
    next
      case plain: False
      then have "read_str (Suc n) (c # t) = Some (c # x, rest)"
        using False assms by (intro read_str_plain) auto
      with plain show ?thesis by (simp only: eq if_False append.simps)
    qed
  qed
qed

lemma read_str_rune:
  assumes "1 < rune_len r" and "rune_len r = length r" and "read_str n t = Some (x, rest)"
  shows "read_str (Suc n) (r @ t) = Some (r @ x, rest)"
proof -
  obtain c s where r: "r = c # s" using assms by (cases r) auto
  have "128 \<le> code c" using rune_len_multi [OF assms(1)] assms(2) r by auto
  moreover have "rune_len (r @ t) = length r"
    using assms(1,2) rune_len_append [of r t] by (metis less_trans zero_less_one)
  ultimately show ?thesis using assms r by (auto simp: quote_def backslash_def)
qed

lemma unescape_2028: "unescape (''u2028'' @ t) = Some ([CHR 0xE2, CHR 0x80, CHR 0xA8], t)"
  by (simp add: unescape_def quote_def backslash_def hex_val_def byte_class_defs is_surrogate_def
      utf8_def char_of_eq_iff)

lemma unescape_2029: "unescape (''u2029'' @ t) = Some ([CHR 0xE2, CHR 0x80, CHR 0xA9], t)"
  by (simp add: unescape_def quote_def backslash_def hex_val_def byte_class_defs is_surrogate_def
      utf8_def char_of_eq_iff)

lemma read_str_escape:
  "ValidString s \<Longrightarrow> length s < n \<Longrightarrow> read_str n (escape s @ quote # rest) = Some (s, rest)"
proof (induction arbitrary: n rule: ValidString_induct)
  case Nil
  then show ?case by (cases n) auto
next
  case (Rune r s)
  obtain m where n: "n = Suc m" using Rune.prems by (cases n) auto
  have "length s < m"
    using Rune.prems Rune.hyps(1,2) unfolding n length_append by linarith
  with Rune.IH have rest: "read_str m (escape s @ quote # rest) = Some (s, rest)" by simp
  show ?case
  proof (cases "rune_len r = 1")
    case True
    then obtain c where "r = [c]" and "code c < 128"
      using Rune.hyps by (cases r) (auto simp: rune_len_one split: if_splits)
    with rest n show ?thesis
      using read_str_ascii [of c m "escape s @ quote # rest" s rest] by (simp add: escape_ascii)
  next
    case False
    with Rune.hyps have multi: "1 < rune_len r" by linarith
    show ?thesis
      using read_str_rune [OF multi Rune.hyps(2) rest] rest n
      by (simp add: escape_rune [OF multi Rune.hyps(2)] unescape_2028 [simplified]
          unescape_2029 [simplified] backslash_def quote_def)
  qed
qed

text \<open>Escaping never shortens a string, so the length of the input is enough fuel to read it.\<close>

lemma length_le_escape: "ValidString s \<Longrightarrow> length s \<le> length (escape s)"
proof (induction rule: ValidString_induct)
  case (Rune r s)
  show ?case
  proof (cases "rune_len r = 1")
    case True
    then obtain c where "r = [c]" and "code c < 128"
      using Rune.hyps by (cases r) (auto simp: rune_len_one split: if_splits)
    moreover have "1 \<le> length (esc_ascii c)" by (simp add: esc_ascii_def)
    ultimately show ?thesis using Rune.IH by (simp add: escape_ascii)
  next
    case False
    with Rune.hyps have "1 < rune_len r" by linarith
    then show ?thesis using Rune.hyps Rune.IH by (simp add: escape_rune)
  qed
qed simp

corollary read_print_str:
  "ValidString s \<Longrightarrow> read_str (Suc (length (escape s @ quote # rest))) (escape s @ quote # rest) = Some (s, rest)"
  using length_le_escape [of s] by (intro read_str_escape) auto

section \<open>Values\<close>

definition is_ws :: "char \<Rightarrow> bool" where
  "is_ws c \<longleftrightarrow> c = CHR '' '' \<or> c = CHR 0x09 \<or> c = CHR 0x0A \<or> c = CHR 0x0D"

definition skip :: "string \<Rightarrow> string" where
  "skip s = dropWhile is_ws s"

text \<open>A number literal: its text and the rest of the input.\<close>

definition read_int_part :: "string \<Rightarrow> (string \<times> string) option" where
  "read_int_part s =
    (case s of
       [] \<Rightarrow> None
     | c # t \<Rightarrow> if c = CHR ''0'' then Some (''0'', t)
         else if is_digit c then Some (takeWhile is_digit s, dropWhile is_digit s) else None)"

definition read_frac :: "string \<Rightarrow> (string \<times> string) option" where
  "read_frac s =
    (if s \<noteq> [] \<and> hd s = CHR ''.'' then
       (let ds = takeWhile is_digit (tl s) in
        if ds = [] then None else Some (CHR ''.'' # ds, dropWhile is_digit (tl s)))
     else Some ([], s))"

definition read_exp :: "string \<Rightarrow> (string \<times> string) option" where
  "read_exp s =
    (if s \<noteq> [] \<and> (hd s = CHR ''e'' \<or> hd s = CHR ''E'') then
       (let sign = (if tl s \<noteq> [] \<and> (hd (tl s) = CHR ''+'' \<or> hd (tl s) = CHR ''-'') then [hd (tl s)] else []);
            u = drop (length sign) (tl s);
            ds = takeWhile is_digit u in
        if ds = [] then None else Some (hd s # sign @ ds, dropWhile is_digit u))
     else Some ([], s))"

definition read_num :: "string \<Rightarrow> (string \<times> string) option" where
  "read_num s =
    (let neg = (if s \<noteq> [] \<and> hd s = CHR ''-'' then ''-'' else []) in
     case read_int_part (drop (length neg) s) of
       None \<Rightarrow> None
     | Some (i, s1) \<Rightarrow>
         (case read_frac s1 of
            None \<Rightarrow> None
          | Some (f, s2) \<Rightarrow>
              (case read_exp s2 of None \<Rightarrow> None | Some (e, s3) \<Rightarrow> Some (neg @ i @ f @ e, s3))))"

fun read_value :: "nat \<Rightarrow> string \<Rightarrow> (json \<times> string) option"
  and read_elems :: "nat \<Rightarrow> string \<Rightarrow> (json list \<times> string) option"
  and read_members :: "nat \<Rightarrow> string \<Rightarrow> ((string \<times> json) list \<times> string) option" where
  "read_value 0 s = None"
| "read_value (Suc n) s =
    (case skip s of
       [] \<Rightarrow> None
     | c # t \<Rightarrow>
         if c = CHR ''{'' then
           (case skip t of
              [] \<Rightarrow> None
            | d # u \<Rightarrow> if d = CHR ''}'' then Some (JObj [], u)
                else map_option (\<lambda>(kvs, r). (JObj kvs, r)) (read_members n (d # u)))
         else if c = CHR ''['' then
           (case skip t of
              [] \<Rightarrow> None
            | d # u \<Rightarrow> if d = CHR '']'' then Some (JArr [], u)
                else map_option (\<lambda>(xs, r). (JArr xs, r)) (read_elems n (d # u)))
         else if c = quote then map_option (\<lambda>(x, r). (JStr x, r)) (read_str (Suc (length t)) t)
         else if HasPrefix (c # t) ''true'' then Some (JBool True, drop 4 (c # t))
         else if HasPrefix (c # t) ''false'' then Some (JBool False, drop 5 (c # t))
         else if HasPrefix (c # t) ''null'' then Some (JNull, drop 4 (c # t))
         else map_option (\<lambda>(x, r). (JNum x, r)) (read_num (c # t)))"
| "read_elems 0 s = None"
| "read_elems (Suc n) s =
    (case read_value n s of
       None \<Rightarrow> None
     | Some (x, s1) \<Rightarrow>
         (case skip s1 of
            [] \<Rightarrow> None
          | d # u \<Rightarrow>
              if d = CHR '','' then map_option (\<lambda>(xs, r). (x # xs, r)) (read_elems n u)
              else if d = CHR '']'' then Some ([x], u) else None))"
| "read_members 0 s = None"
| "read_members (Suc n) s =
    (case skip s of
       [] \<Rightarrow> None
     | q # t \<Rightarrow>
         if q \<noteq> quote then None
         else (case read_str (Suc (length t)) t of
            None \<Rightarrow> None
          | Some (k, s1) \<Rightarrow>
              (case skip s1 of
                 [] \<Rightarrow> None
               | d # s2 \<Rightarrow>
                   if d \<noteq> CHR '':'' then None
                   else (case read_value n s2 of
                      None \<Rightarrow> None
                    | Some (v, s3) \<Rightarrow>
                        (case skip s3 of
                           [] \<Rightarrow> None
                         | e # u \<Rightarrow>
                             if e = CHR '','' then
                               map_option (\<lambda>(kvs, r). ((k, v) # kvs, r)) (read_members n u)
                             else if e = CHR ''}'' then Some ([(k, v)], u) else None)))))"

text \<open>A whole document: one value and nothing but white space after it.\<close>

definition parse_json :: "string \<Rightarrow> json option" where
  "parse_json s =
    (case read_value (Suc (length s)) s of
       None \<Rightarrow> None
     | Some (j, r) \<Rightarrow> if skip r = [] then Some j else None)"

section \<open>Reading what was written\<close>

text \<open>The values the program writes: valid strings and integers.\<close>

fun wf_json :: "json \<Rightarrow> bool"
  and wf_elems :: "json list \<Rightarrow> bool"
  and wf_members :: "(string \<times> json) list \<Rightarrow> bool" where
  "wf_json JNull = True"
| "wf_json (JBool b) = True"
| "wf_json (JNum s) = (\<exists>i. s = dec_int i)"
| "wf_json (JStr s) = ValidString s"
| "wf_json (JArr xs) = wf_elems xs"
| "wf_json (JObj kvs) = wf_members kvs"
| "wf_elems [] = True"
| "wf_elems (x # xs) = (wf_json x \<and> wf_elems xs)"
| "wf_members [] = True"
| "wf_members (kv # kvs) = (ValidString (fst kv) \<and> wf_json (snd kv) \<and> wf_members kvs)"

definition delim :: "string \<Rightarrow> bool" where
  "delim r \<longleftrightarrow> r = [] \<or> hd r \<in> {CHR '','', CHR ''}'', CHR '']''}"

lemma delim_simps [simp]:
  "delim []" "delim (CHR '','' # r)" "delim (CHR ''}'' # r)" "delim (CHR '']'' # r)"
  by (simp_all add: delim_def)

lemma skip_nonws: "\<not> is_ws c \<Longrightarrow> skip (c # s) = c # s"
  by (simp add: skip_def)

lemma delim_not_digit: "delim r \<Longrightarrow> r = [] \<or> \<not> is_digit (hd r)"
  by (auto simp: delim_def byte_class_defs)

lemma takeWhile_dec: "delim r \<Longrightarrow> takeWhile is_digit (dec n @ r) = dec n"
  using delim_not_digit [of r] dec_digits [of _ n]
  by (cases r) (auto simp: takeWhile_append2 takeWhile_tail)

lemma dropWhile_dec: "delim r \<Longrightarrow> dropWhile is_digit (dec n @ r) = r"
  using delim_not_digit [of r] dec_digits [of _ n]
  by (cases r) (auto simp: dropWhile_append2 dropWhile_append)

lemma dec_single: "n < 10 \<Longrightarrow> dec n = [digit n]"
  by (subst dec.simps) simp

lemma read_int_part_dec: "delim r \<Longrightarrow> read_int_part (dec n @ r) = Some (dec n, r)"
proof -
  assume r: "delim r"
  obtain c t where eq: "dec n = c # t" by (cases "dec n") auto
  show ?thesis
  proof (cases "c = CHR ''0''")
    case True
    then have "n < 10" using dec_no_leading_zero [of n] eq by (metis list.sel(1) not_le)
    then have "t = []" using eq by (simp add: dec_single)
    with True eq show ?thesis by (simp add: read_int_part_def)
  next
    case False
    moreover have "is_digit c" using dec_digits [of c n] eq by simp
    ultimately show ?thesis
      using takeWhile_dec [OF r, of n] dropWhile_dec [OF r, of n] eq
      by (simp add: read_int_part_def)
  qed
qed

lemma read_frac_delim: "delim r \<Longrightarrow> read_frac r = Some ([], r)"
  by (auto simp: read_frac_def delim_def)

lemma read_exp_delim: "delim r \<Longrightarrow> read_exp r = Some ([], r)"
  by (auto simp: read_exp_def delim_def)

lemma hd_dec: "is_digit (hd (dec n))"
  using dec_digits [of "hd (dec n)" n] by simp

lemma read_num_dec_int: "delim r \<Longrightarrow> read_num (dec_int i @ r) = Some (dec_int i, r)"
proof -
  assume r: "delim r"
  have "hd (dec (nat i)) \<noteq> CHR ''-''" using hd_dec [of "nat i"] by (auto simp: byte_class_defs)
  then show ?thesis
    using r by (auto simp: read_num_def dec_int_def read_int_part_dec read_frac_delim read_exp_delim)
qed

text \<open>Every written value starts with a character that is no white space.\<close>

lemma print_json_head:
  "wf_json j \<Longrightarrow> \<exists>c t. print_json j = c # t \<and> \<not> is_ws c \<and> c \<notin> {CHR '','', CHR ''}'', CHR '']''}"
proof (cases j)
  case (JNum s)
  moreover assume "wf_json j"
  ultimately obtain i where "s = dec_int i" by auto
  moreover obtain c t where "dec_int i = c # t" and "is_digit c \<or> c = CHR ''-''"
    using hd_dec [of "nat i"] hd_dec [of "nat (- i)"]
    by (cases "dec (nat i)"; cases "i < 0") (auto simp: dec_int_def)
  ultimately show ?thesis using JNum by (auto simp: is_ws_def byte_class_defs)
qed (auto simp: is_ws_def print_str_def quote_def)

lemma read_value_num:
  "delim r \<Longrightarrow> read_value (Suc n) (dec_int i @ r) = Some (JNum (dec_int i), r)"
proof -
  assume r: "delim r"
  obtain c t where eq: "dec_int i = c # t" and c: "is_digit c \<or> c = CHR ''-''"
    using hd_dec [of "nat i"] hd_dec [of "nat (- i)"]
    by (cases "dec (nat i)"; cases "i < 0") (auto simp: dec_int_def)
  have "skip (c # t @ r) = c # t @ r" using c by (intro skip_nonws) (auto simp: is_ws_def byte_class_defs)
  moreover have "read_num (c # t @ r) = Some (c # t, r)"
    using read_num_dec_int [OF r, of i] eq by simp
  moreover have "c \<notin> {CHR ''{'', CHR ''['', quote, CHR ''t'', CHR ''f'', CHR ''n''}"
    using c by (auto simp: byte_class_defs quote_def)
  ultimately show ?thesis by (simp add: eq HasPrefix_def)
qed

lemma is_ws_punct [simp]:
  "\<not> is_ws (CHR '','')" "\<not> is_ws (CHR ''}'')" "\<not> is_ws (CHR '']'')" "\<not> is_ws (CHR '':'')" "\<not> is_ws quote"
  "\<not> is_ws (CHR ''{'')" "\<not> is_ws (CHR ''['')"
  by (simp_all add: is_ws_def quote_def)

lemma quote_neq [simp]: "quote \<noteq> CHR ''{''" "quote \<noteq> CHR ''[''" "quote \<noteq> CHR ''}''"
  by (simp_all add: quote_def)

lemma read_value_str:
  "ValidString s \<Longrightarrow> read_value (Suc n) (print_str s @ r) = Some (JStr s, r)"
  using read_print_str [of s r] by (simp add: print_str_def skip_nonws del: read_str.simps length_append)

lemma read_value_obj:
  assumes "read_members n (quote # u) = Some (kvs, r)"
  shows "read_value (Suc n) (CHR ''{'' # quote # u) = Some (JObj kvs, r)"
  using assms by (simp add: skip_nonws)

lemma read_value_arr:
  assumes "read_elems n (c # u) = Some (xs, r)" and "\<not> is_ws c" and "c \<noteq> CHR '']''"
  shows "read_value (Suc n) (CHR ''['' # c # u) = Some (JArr xs, r)"
  using assms by (simp add: skip_nonws)

lemma read_members_step:
  assumes "ValidString k" and "read_value n (t @ d # u) = Some (v, d # u)" and "\<not> is_ws d"
  shows "read_members (Suc n) (print_str k @ CHR '':'' # t @ d # u) =
    (if d = CHR '','' then map_option (\<lambda>(kvs, r). ((k, v) # kvs, r)) (read_members n u)
     else if d = CHR ''}'' then Some ([(k, v)], u) else None)"
  using assms read_print_str [of k "CHR '':'' # t @ d # u"]
  by (simp add: print_str_def skip_nonws del: read_str.simps length_append)

lemma read_elems_step:
  assumes "read_value n (t @ d # u) = Some (v, d # u)" and "\<not> is_ws d"
  shows "read_elems (Suc n) (t @ d # u) =
    (if d = CHR '','' then map_option (\<lambda>(xs, r). (v # xs, r)) (read_elems n u)
     else if d = CHR '']'' then Some ([v], u) else None)"
  using assms by (simp add: skip_nonws)

lemma print_str_head: "print_str s = quote # escape s @ [quote]"
  by (simp add: print_str_def)

text \<open>Reading inverts writing, for any amount of fuel above the length of the text.\<close>

lemma read_print:
  "wf_json j \<Longrightarrow> delim r \<Longrightarrow> length (print_json j) < n \<Longrightarrow> read_value n (print_json j @ r) = Some (j, r)"
  "wf_elems xs \<Longrightarrow> xs \<noteq> [] \<Longrightarrow> Suc (length (print_elems xs)) < n \<Longrightarrow>
     read_elems n (print_elems xs @ CHR '']'' # r) = Some (xs, r)"
  "wf_members kvs \<Longrightarrow> kvs \<noteq> [] \<Longrightarrow> length (print_members kvs) < n \<Longrightarrow>
     read_members n (print_members kvs @ CHR ''}'' # r) = Some (kvs, r)"
proof (induction j and xs and kvs arbitrary: r n and r n and r n
    rule: print_json_print_elems_print_members.induct)
  case 1
  then show ?case by (cases n) (simp_all add: skip_nonws is_ws_def quote_def HasPrefix_def)
next
  case (2 b)
  then show ?case by (cases n; cases b) (simp_all add: skip_nonws is_ws_def quote_def HasPrefix_def)
next
  case (3 s)
  then show ?case by (cases n) (auto simp: read_value_num simp del: read_value.simps)
next
  case (4 s)
  then show ?case by (cases n) (auto simp: read_value_str simp del: read_value.simps)
next
  case (5 xs)
  show ?case
  proof (cases xs)
    case Nil
    with 5 show ?thesis by (cases n) (simp_all add: skip_nonws quote_def)
  next
    case (Cons x xs')
    then obtain c t where c: "print_json x = c # t" "\<not> is_ws c" "c \<noteq> CHR '']''"
      using 5 print_json_head [of x] by auto
    then have eq: "print_elems xs = c # tl (print_elems xs)" using Cons by simp
    obtain m where n: "n = Suc m" using 5 by (cases n) auto
    then have "read_elems m (print_elems xs @ CHR '']'' # r) = Some (xs, r)"
      using 5 Cons by (intro 5(1)) auto
    then have "read_value n (CHR ''['' # c # tl (print_elems xs) @ CHR '']'' # r) = Some (JArr xs, r)"
      unfolding n using c by (intro read_value_arr) (subst (asm) eq, simp)+
    then show ?thesis by (simp add: eq [symmetric] del: read_value.simps) (subst eq, simp del: read_value.simps)
  qed
next
  case (6 kvs)
  show ?case
  proof (cases kvs)
    case Nil
    with 6 show ?thesis by (cases n) (simp_all add: skip_nonws)
  next
    case (Cons kv kvs')
    then have eq: "print_members kvs = quote # tl (print_members kvs)" by (simp add: print_str_head)
    obtain m where n: "n = Suc m" using 6 by (cases n) auto
    then have "read_members m (print_members kvs @ CHR ''}'' # r) = Some (kvs, r)"
      using 6 Cons by (intro 6(1)) auto
    then have "read_value n (CHR ''{'' # quote # tl (print_members kvs) @ CHR ''}'' # r) = Some (JObj kvs, r)"
      unfolding n by (intro read_value_obj) (subst (asm) eq, simp)
    then show ?thesis by (simp del: read_value.simps) (subst eq, simp del: read_value.simps)
  qed
next
  case 7
  then show ?case by simp
next
  case (8 x xs)
  obtain m where n: "n = Suc m" using 8 by (cases n) auto
  show ?case
  proof (cases xs)
    case Nil
    have "read_value m (print_json x @ CHR '']'' # r) = Some (x, CHR '']'' # r)"
      using 8 Nil n by (intro 8(1)) auto
    then show ?thesis unfolding n using Nil
      by (simp add: read_elems_step del: read_elems.simps)
  next
    case (Cons y ys)
    let ?u = "print_elems xs @ CHR '']'' # r"
    have "read_value m (print_json x @ CHR '','' # ?u) = Some (x, CHR '','' # ?u)"
      using 8 n by (intro 8(1)) auto
    moreover have "read_elems m ?u = Some (xs, r)"
      using 8 n Cons by (intro 8(2)) (auto split: if_splits)
    ultimately show ?thesis unfolding n using Cons
      by (simp add: read_elems_step del: read_elems.simps print_elems.simps(2)) (simp add: print_elems.simps(2) [of x] read_elems_step del: read_elems.simps print_elems.simps(2))
  qed
next
  case 9
  then show ?case by simp
next
  case (10 kv kvs)
  obtain m where n: "n = Suc m" using 10 by (cases n) auto
  show ?case
  proof (cases kvs)
    case Nil
    have "read_value m (print_json (snd kv) @ CHR ''}'' # r) = Some (snd kv, CHR ''}'' # r)"
      using 10 n by (intro 10(1)) (auto simp: print_str_head)
    then show ?thesis unfolding n using Nil 10
      by (simp add: read_members_step del: read_members.simps)
  next
    case (Cons y ys)
    let ?u = "print_members kvs @ CHR ''}'' # r"
    have "read_value m (print_json (snd kv) @ CHR '','' # ?u) = Some (snd kv, CHR '','' # ?u)"
      using 10 n by (intro 10(1)) (auto simp: print_str_head)
    moreover have "read_members m ?u = Some (kvs, r)"
      using 10 n Cons by (intro 10(2)) auto
    ultimately show ?thesis unfolding n using Cons 10
      by (simp add: print_members.simps(2) [of kv] read_members_step del: read_members.simps print_members.simps(2))
  qed
qed

theorem parse_print_json: "wf_json j \<Longrightarrow> parse_json (print_json j) = Some j"
  using read_print(1) [of j "[]" "Suc (length (print_json j))"] by (simp add: parse_json_def skip_def)

end
