(* ===== verification/Admission_Json.thy ===== *)
theory Admission_Json
  imports Go_Json_Read
begin

text \<open>
  The strict reader of persisted admission documents (\<open>internal/admissionjson/strict.go\<close>): Unicode
  and surrogate checks on the raw bytes, then a schema walk that rejects \<open>null\<close>, unknown and
  duplicate fields and deep nesting, then the typed decode, which each ledger supplies for its own
  type. The source walks the token stream of a \<open>json.Decoder\<close>; here the document is parsed first
  and the walk is over its tree, in the same order. A document that is both malformed and outside
  the schema is rejected either way and only its message may differ.
\<close>

type_synonym allowed = "string list \<Rightarrow> string \<Rightarrow> bool"

section \<open>Surrogate escapes\<close>

definition hex4 :: "string \<Rightarrow> nat \<Rightarrow> nat option" where
  "hex4 raw start = (if length raw < start + 4 then None else hex4_val (drop start raw))"

text \<open>
  The scan of \<open>validSurrogates\<close> from some position on; the flag says whether the position is
  inside a string.
\<close>

function surrogates_from :: "bool \<Rightarrow> string \<Rightarrow> bool" where
  "surrogates_from False s =
    (case s of [] \<Rightarrow> True | c # t \<Rightarrow> surrogates_from (c = quote) t)"
| "surrogates_from True s =
    (case s of
       [] \<Rightarrow> False
     | c # t \<Rightarrow>
         if c = quote then surrogates_from False t
         else if c \<noteq> backslash then surrogates_from True t
         else (case t of
            [] \<Rightarrow> False
          | d # u \<Rightarrow>
              if d \<noteq> CHR ''u'' then surrogates_from True u
              else (case hex4 u 0 of
                 None \<Rightarrow> False
               | Some n \<Rightarrow>
                   if 56320 \<le> n \<and> n \<le> 57343 then False
                   else if 55296 \<le> n \<and> n \<le> 56319 then
                     (if length (drop 4 u) < 6 \<or> u ! 4 \<noteq> backslash \<or> u ! 5 \<noteq> CHR ''u'' then False
                      else (case hex4 u 6 of
                         None \<Rightarrow> False
                       | Some low \<Rightarrow>
                           if low < 56320 \<or> 57343 < low then False
                           else surrogates_from True (drop 10 u)))
                   else surrogates_from True (drop 4 u))))"
  by pat_completeness auto
termination
  by (relation "measure (\<lambda>(b, s). length s)") auto

declare surrogates_from.simps [simp del]

definition validSurrogates :: "string \<Rightarrow> bool" where
  "validSurrogates raw = surrogates_from False raw"

section \<open>The schema walk\<close>

fun checkValue :: "allowed \<Rightarrow> string list \<Rightarrow> nat \<Rightarrow> json \<Rightarrow> goerr option"
  and checkMembers :: "allowed \<Rightarrow> string list \<Rightarrow> nat \<Rightarrow> string list \<Rightarrow> (string \<times> json) list \<Rightarrow> goerr option"
  and checkElems :: "allowed \<Rightarrow> string list \<Rightarrow> nat \<Rightarrow> json list \<Rightarrow> goerr option" where
  "checkValue allowed path depth j =
    (if 5 < depth then Some (ErrMsg ''admission JSON exceeds nesting limit'')
     else (case j of
         JNull \<Rightarrow> Some (ErrMsg ''admission JSON has null field'')
       | JObj kvs \<Rightarrow> checkMembers allowed path depth [] kvs
       | JArr xs \<Rightarrow> checkElems allowed path depth xs
       | _ \<Rightarrow> None))"
| "checkMembers allowed path depth seen [] = None"
| "checkMembers allowed path depth seen (kv # kvs) =
    (if \<not> allowed path (fst kv) then Some (ErrMsg ''admission JSON has unknown field'')
     else if fst kv \<in> set seen then Some (ErrMsg ''admission JSON has duplicate field'')
     else (case checkValue allowed (path @ [fst kv]) (depth + 1) (snd kv) of
         Some e \<Rightarrow> Some e
       | None \<Rightarrow> checkMembers allowed path depth (fst kv # seen) kvs))"
| "checkElems allowed path depth [] = None"
| "checkElems allowed path depth (x # xs) =
    (case checkValue allowed path (depth + 1) x of
       Some e \<Rightarrow> Some e
     | None \<Rightarrow> checkElems allowed path depth xs)"

text \<open>
  \<open>Decode\<close>, with the typed decode of the target as its second argument: \<open>json.Unmarshal\<close> fails on
  a value of the wrong type.
\<close>

definition Decode :: "string \<Rightarrow> (json \<Rightarrow> 'a option) \<Rightarrow> allowed \<Rightarrow> goerr + 'a" where
  "Decode raw unmarshal allowed =
    (if \<not> ValidString raw \<or> \<not> validSurrogates raw
     then Inl (ErrMsg ''admission JSON has invalid Unicode'')
     else (case parse_json raw of
         None \<Rightarrow> Inl (ErrMsg ''invalid JSON'')
       | Some j \<Rightarrow>
           (case checkValue allowed [] 0 j of
              Some e \<Rightarrow> Inl e
            | None \<Rightarrow>
                (case unmarshal j of
                   None \<Rightarrow> Inl (ErrMsg ''json: cannot unmarshal'')
                 | Some v \<Rightarrow> Inr v))))"

text \<open>The typed decode of the scalar field types; an absent field keeps its zero value.\<close>

definition field :: "(string \<times> json) list \<Rightarrow> string \<Rightarrow> (json \<Rightarrow> 'a option) \<Rightarrow> 'a \<Rightarrow> 'a option" where
  "field kvs k unmarshal zero = (case map_of kvs k of None \<Rightarrow> Some zero | Some j \<Rightarrow> unmarshal j)"

fun to_str :: "json \<Rightarrow> string option" where
  "to_str (JStr s) = Some s"
| "to_str _ = None"

fun to_bool :: "json \<Rightarrow> bool option" where
  "to_bool (JBool b) = Some b"
| "to_bool _ = None"

text \<open>\<open>strconv.ParseInt\<close> and \<open>strconv.ParseUint\<close> at 64 bits, on the text of a number.\<close>

definition ParseUint :: "string \<Rightarrow> nat option" where
  "ParseUint s =
    (if s \<noteq> [] \<and> list_all is_digit s \<and> undec 0 s < 2 ^ 64 then Some (undec 0 s) else None)"

definition ParseInt :: "string \<Rightarrow> int option" where
  "ParseInt s =
    (let neg = HasPrefix s ''-'';
         ds = (if neg \<or> HasPrefix s ''+'' then tl s else s) in
     if ds = [] \<or> \<not> list_all is_digit ds then None
     else if neg then (if undec 0 ds \<le> 2 ^ 63 then Some (- int (undec 0 ds)) else None)
     else (if undec 0 ds < 2 ^ 63 then Some (int (undec 0 ds)) else None))"

fun to_int :: "json \<Rightarrow> int option" where
  "to_int (JNum s) = ParseInt s"
| "to_int _ = None"

fun to_uint :: "json \<Rightarrow> nat option" where
  "to_uint (JNum s) = ParseUint s"
| "to_uint _ = None"

text \<open>A JSON object read into a Go map.\<close>

fun unmarshal_entries :: "(json \<Rightarrow> 'a option) \<Rightarrow> (string \<times> json) list \<Rightarrow> (string, 'a) gomap option" where
  "unmarshal_entries f [] = Some []"
| "unmarshal_entries f (kv # kvs) = do {
     v \<leftarrow> f (snd kv);
     m \<leftarrow> unmarshal_entries f kvs;
     Some (mput (fst kv) v m) }"

fun unmarshal_map :: "(json \<Rightarrow> 'a option) \<Rightarrow> json \<Rightarrow> (string, 'a) gomap option option" where
  "unmarshal_map f (JObj kvs) = map_option Some (unmarshal_entries f kvs)"
| "unmarshal_map f _ = None"

text \<open>A string field with \<open>omitempty\<close>.\<close>

definition omitempty :: "string \<Rightarrow> string \<Rightarrow> (string \<times> json) list" where
  "omitempty k s = (if s = [] then [] else [(k, JStr s)])"

section \<open>What an accepted document looks like\<close>

text \<open>The nodes of a document with their path of field names and their depth.\<close>

fun nodes :: "string list \<Rightarrow> nat \<Rightarrow> json \<Rightarrow> (string list \<times> nat \<times> json) list"
  and member_nodes :: "string list \<Rightarrow> nat \<Rightarrow> (string \<times> json) list \<Rightarrow> (string list \<times> nat \<times> json) list"
  and elem_nodes :: "string list \<Rightarrow> nat \<Rightarrow> json list \<Rightarrow> (string list \<times> nat \<times> json) list" where
  "nodes p d j = (p, d, j) #
    (case j of JObj kvs \<Rightarrow> member_nodes p d kvs | JArr xs \<Rightarrow> elem_nodes p d xs | _ \<Rightarrow> [])"
| "member_nodes p d [] = []"
| "member_nodes p d (kv # kvs) = nodes (p @ [fst kv]) (d + 1) (snd kv) @ member_nodes p d kvs"
| "elem_nodes p d [] = []"
| "elem_nodes p d (x # xs) = nodes p (d + 1) x @ elem_nodes p d xs"

definition strict_node :: "allowed \<Rightarrow> string list \<times> nat \<times> json \<Rightarrow> bool" where
  "strict_node allowed = (\<lambda>(p, d, j).
     d \<le> 5 \<and> j \<noteq> JNull \<and>
     (\<forall>kvs. j = JObj kvs \<longrightarrow> distinct (map fst kvs) \<and> (\<forall>k \<in> fst ` set kvs. allowed p k)))"

lemma checkValue_strict:
  "checkValue allowed p d j = None \<longleftrightarrow> list_all (strict_node allowed) (nodes p d j)"
  "checkMembers allowed p d seen kvs = None \<longleftrightarrow>
     distinct (map fst kvs) \<and> set (map fst kvs) \<inter> set seen = {} \<and>
     (\<forall>k \<in> fst ` set kvs. allowed p k) \<and> list_all (strict_node allowed) (member_nodes p d kvs)"
  "checkElems allowed p d xs = None \<longleftrightarrow> list_all (strict_node allowed) (elem_nodes p d xs)"
proof (induction allowed p d j and allowed p d seen kvs and allowed p d xs
    rule: checkValue_checkMembers_checkElems.induct)
  case (1 allowed path depth j)
  then show ?case by (cases j) (auto simp: strict_node_def)
next
  case (3 allowed path depth seen kv kvs)
  then show ?case by (auto split: option.splits simp del: checkValue.simps nodes.simps)
next
  case (5 allowed path depth x xs)
  then show ?case by (auto split: option.splits simp del: checkValue.simps nodes.simps)
qed simp_all

section \<open>Documents the program writes are accepted\<close>

lemma ValidString_append: "ValidString s \<Longrightarrow> ValidString t \<Longrightarrow> ValidString (s @ t)"
  by (induction rule: ValidString_induct) (simp_all add: ValidString_append_rune)

lemma ValidString_Cons: "code c < 128 \<Longrightarrow> ValidString (c # s) = ValidString s"
  using ValidString_append_rune [of "[c]" s] by simp

lemma code_hex_digit: "d < 16 \<Longrightarrow> code (hex_digit d) < 128"
  by (auto simp: hex_digit_def)

text \<open>The three shapes of an escaped ASCII byte.\<close>

lemma esc_ascii_cases:
  obtains (short) d where "esc_ascii c = [backslash, d]" "d \<in> {quote, backslash, CHR ''b'', CHR ''f'', CHR ''n'', CHR ''r'', CHR ''t''}"
  | (hex) "esc_ascii c = [backslash, CHR ''u'', CHR ''0'', CHR ''0'', hex_digit (code c div 16), hex_digit (code c mod 16)]"
  | (plain) "esc_ascii c = [c]" "c \<noteq> quote" "c \<noteq> backslash"
proof -
  have "(\<exists>d \<in> {quote, backslash, CHR ''b'', CHR ''f'', CHR ''n'', CHR ''r'', CHR ''t''}. esc_ascii c = [backslash, d]) \<or>
      esc_ascii c = [backslash, CHR ''u'', CHR ''0'', CHR ''0'', hex_digit (code c div 16), hex_digit (code c mod 16)] \<or>
      esc_ascii c = [c] \<and> c \<noteq> quote \<and> c \<noteq> backslash"
    unfolding esc_ascii_def by simp
  with that show thesis by blast
qed

lemma code_backslash: "code backslash < 128"
  by (simp add: backslash_def)

lemma esc_ascii_ascii: "code c < 128 \<Longrightarrow> \<forall>b \<in> set (esc_ascii c). code b < 128"
  by (cases c rule: esc_ascii_cases) (auto simp: backslash_def quote_def code_hex_digit)

lemma ValidString_escape: "ValidString s \<Longrightarrow> ValidString (escape s)"
proof (induction rule: ValidString_induct)
  case (Rune r s)
  show ?case
  proof (cases "rune_len r = 1")
    case True
    then obtain c where "r = [c]" and c: "code c < 128"
      using Rune.hyps by (cases r) (auto simp: rune_len_one split: if_splits)
    then show ?thesis using Rune.IH ValidString_ascii [OF esc_ascii_ascii [OF c]]
      by (simp add: escape_ascii ValidString_append)
  next
    case False
    with Rune.hyps have "1 < rune_len r" by linarith
    then show ?thesis using Rune
      by (simp add: escape_rune ValidString_append_rune ValidString_Cons backslash_def)
  qed
qed simp

lemma code_quote: "code quote < 128"
  by (simp add: quote_def)

lemma ValidString_print_str: "ValidString s \<Longrightarrow> ValidString (print_str s)"
  by (simp add: print_str_def ValidString_Cons code_quote ValidString_append ValidString_escape)

lemma ValidString_dec_int: "ValidString (dec_int i)"
proof (rule ValidString_ascii)
  have "code c < 128" if "c \<in> set (dec n)" for c n
    using dec_digits [OF that] by (simp add: byte_class_defs)
  then show "\<forall>c \<in> set (dec_int i). code c < 128" by (auto simp: dec_int_def)
qed

lemma ValidString_print:
  "wf_json j \<Longrightarrow> ValidString (print_json j)"
  "wf_elems xs \<Longrightarrow> ValidString (print_elems xs)"
  "wf_members kvs \<Longrightarrow> ValidString (print_members kvs)"
  by (induction j and xs and kvs rule: print_json_print_elems_print_members.induct)
    (auto simp: ValidString_Cons ValidString_print_str ValidString_dec_int intro!: ValidString_append)

text \<open>Escaping emits no surrogate escapes, so the scan passes over a written string.\<close>

lemma surrogates_plain:
  "c \<noteq> quote \<Longrightarrow> c \<noteq> backslash \<Longrightarrow> surrogates_from True (c # s) = surrogates_from True s"
  by (simp add: surrogates_from.simps)

lemma surrogates_skip:
  "\<forall>c \<in> set r. c \<noteq> quote \<and> c \<noteq> backslash \<Longrightarrow> surrogates_from True (r @ s) = surrogates_from True s"
  by (induction r) (auto simp: surrogates_plain)

lemma surrogates_short_escape:
  "d \<noteq> CHR ''u'' \<Longrightarrow> surrogates_from True (backslash # d # s) = surrogates_from True s"
  by (simp add: surrogates_from.simps [of "_ # _"] backslash_def quote_def)

lemma surrogates_u_escape:
  assumes "hex4_val [a, b, c, d] = Some n" and "n < 55296"
  shows "surrogates_from True (backslash # CHR ''u'' # a # b # c # d # s) = surrogates_from True s"
  using assms by (simp add: surrogates_from.simps [of "_ # _"] backslash_def quote_def hex4_def)

lemma surrogates_esc_ascii:
  assumes "code c < 128"
  shows "surrogates_from True (esc_ascii c @ s) = surrogates_from True s"
proof -
  have "hex_val CHR ''0'' = Some 0" by (simp add: hex_val_def byte_class_defs)
  moreover have "code c div 16 < 16" "code c mod 16 < 16" using assms by auto
  ultimately have "hex4_val [CHR ''0'', CHR ''0'', hex_digit (code c div 16), hex_digit (code c mod 16)] = Some (code c)"
    by (simp add: hex_val_hex_digit)
  then have u: "surrogates_from True (backslash # CHR ''u'' # CHR ''0'' # CHR ''0'' #
      hex_digit (code c div 16) # hex_digit (code c mod 16) # s) = surrogates_from True s"
    by (rule surrogates_u_escape) (use assms in linarith)
  show ?thesis
  proof (cases c rule: esc_ascii_cases)
    case (short d)
    then have "d \<noteq> CHR ''u''" by (auto simp: quote_def backslash_def)
    with short show ?thesis by (simp add: surrogates_short_escape)
  qed (use u in \<open>simp_all add: surrogates_plain\<close>)
qed

lemma surrogates_2028:
  "surrogates_from True (backslash # ''u2028'' @ s) = surrogates_from True s"
  "surrogates_from True (backslash # ''u2029'' @ s) = surrogates_from True s"
  using surrogates_u_escape [of "CHR ''2''" "CHR ''0''" "CHR ''2''" "CHR ''8''" 8232 s]
    surrogates_u_escape [of "CHR ''2''" "CHR ''0''" "CHR ''2''" "CHR ''9''" 8233 s]
  by (simp_all add: hex_val_def byte_class_defs)

lemma surrogates_escape:
  "ValidString s \<Longrightarrow> surrogates_from True (escape s @ quote # r) = surrogates_from False r"
proof (induction rule: ValidString_induct)
  case Nil
  show ?case by (simp add: surrogates_from.simps(2))
next
  case (Rune t s)
  show ?case
  proof (cases "rune_len t = 1")
    case True
    then obtain c where "t = [c]" and "code c < 128"
      using Rune.hyps by (cases t) (auto simp: rune_len_one split: if_splits)
    then show ?thesis using Rune.IH by (simp add: escape_ascii surrogates_esc_ascii)
  next
    case False
    with Rune.hyps have multi: "1 < rune_len t" by linarith
    have "\<forall>c \<in> set t. c \<noteq> quote \<and> c \<noteq> backslash"
      using rune_len_multi [OF multi] Rune.hyps(2) code_quote code_backslash
      by (metis leD le_refl take_all)
    then show ?thesis
      using Rune.IH surrogates_skip [of t] surrogates_2028
      by (simp add: escape_rune [OF multi Rune.hyps(2)])
  qed
qed

lemma surrogates_outside:
  "\<forall>c \<in> set s. c \<noteq> quote \<Longrightarrow> surrogates_from False (s @ r) = surrogates_from False r"
  by (induction s) (auto simp: surrogates_from.simps(1) [of "_ # _"])

lemma surrogates_print_str:
  "ValidString s \<Longrightarrow> surrogates_from False (print_str s @ r) = surrogates_from False r"
  by (simp add: print_str_def surrogates_from.simps(1) [of "_ # _"] surrogates_escape)

lemma surrogates_dec_int: "surrogates_from False (dec_int i @ r) = surrogates_from False r"
proof (rule surrogates_outside)
  have "c \<noteq> quote" if "c \<in> set (dec n)" for c n
    using dec_digits [OF that] by (auto simp: byte_class_defs quote_def)
  then show "\<forall>c \<in> set (dec_int i). c \<noteq> quote" by (auto simp: dec_int_def quote_def)
qed

lemma surrogates_Cons:
  "c \<noteq> quote \<Longrightarrow> surrogates_from False (c # r) = surrogates_from False r"
  by (simp add: surrogates_from.simps(1) [of "_ # _"])

lemma quote_neq_syntax:
  "c \<in> set ''truefalsn[]{},:'' \<Longrightarrow> c \<noteq> quote"
  by (auto simp: quote_def)

lemma surrogates_print:
  "wf_json j \<Longrightarrow> surrogates_from False (print_json j @ r) = surrogates_from False r"
  "wf_elems xs \<Longrightarrow> surrogates_from False (print_elems xs @ r) = surrogates_from False r"
  "wf_members kvs \<Longrightarrow> surrogates_from False (print_members kvs @ r) = surrogates_from False r"
  by (induction j and xs and kvs arbitrary: r and r and r rule: print_json_print_elems_print_members.induct)
    (simp_all add: surrogates_Cons surrogates_print_str surrogates_dec_int quote_neq_syntax,
      auto simp: surrogates_dec_int)

lemma validSurrogates_print: "wf_json j \<Longrightarrow> validSurrogates (print_json j)"
  using surrogates_print(1) [of j "[]"] by (simp add: validSurrogates_def surrogates_from.simps(1))

text \<open>The typed decode decides the fate of a written document that the schema walk accepts.\<close>

lemma Decode_print:
  assumes "wf_json j" and "checkValue allowed [] 0 j = None" and "unmarshal j = Some v"
  shows "Decode (print_json j) unmarshal allowed = Inr v"
  using assms
  by (simp add: Decode_def ValidString_print validSurrogates_print parse_print_json del: checkValue.simps)

lemma Decode_Inr:
  "Decode raw unmarshal allowed = Inr v \<longleftrightarrow>
     ValidString raw \<and> validSurrogates raw \<and>
     (\<exists>j. parse_json raw = Some j \<and> list_all (strict_node allowed) (nodes [] 0 j) \<and> unmarshal j = Some v)"
  unfolding checkValue_strict(1) [symmetric]
  by (auto simp: Decode_def simp del: checkValue.simps split: option.splits)

text \<open>Integers survive the trip through their decimal form.\<close>

lemma list_all_dec: "list_all is_digit (dec n)"
  using dec_digits by (auto simp: list_all_iff)

lemma ParseUint_dec: "n < 2 ^ 64 \<Longrightarrow> ParseUint (dec n) = Some n"
  by (simp add: ParseUint_def list_all_dec undec_dec)

text \<open>The range of \<open>int\<close> and \<open>int64\<close>.\<close>

definition int64 :: "int \<Rightarrow> bool" where
  "int64 i \<longleftrightarrow> - (2 ^ 63) \<le> i \<and> i < 2 ^ 63"

lemma ParseInt_dec_int:
  assumes "- (2 ^ 63) \<le> i" and "i < 2 ^ 63"
  shows "ParseInt (dec_int i) = Some i"
proof (cases "i < 0")
  case True
  with assms show ?thesis
    by (simp add: ParseInt_def dec_int_def HasPrefix_def list_all_dec undec_dec)
next
  case False
  have "hd (dec (nat i)) \<noteq> CHR ''-''" "hd (dec (nat i)) \<noteq> CHR ''+''"
    using hd_dec [of "nat i"] by (auto simp: byte_class_defs)
  then have "\<not> HasPrefix (dec (nat i)) ''-''" "\<not> HasPrefix (dec (nat i)) ''+''"
    by (cases "dec (nat i)"; simp add: HasPrefix_def)+
  with False assms show ?thesis
    by (simp add: ParseInt_def dec_int_def list_all_dec undec_dec)
qed

text \<open>A written Go map is read back.\<close>

lemma mput_less: "\<forall>k' \<in> fst ` set m. k < k' \<Longrightarrow> mput k v m = (k, v) # m"
  by (cases m) auto

lemma unmarshal_entries_map:
  assumes "go_map m" and "\<forall>kv \<in> set m. f (g (snd kv)) = Some (snd kv)"
  shows "unmarshal_entries f (map (\<lambda>(k, e). (k, g e)) m) = Some m"
  using assms by (induction m) (auto simp: go_map_Cons mput_less)

lemma wf_members_iff: "wf_members kvs \<longleftrightarrow> (\<forall>kv \<in> set kvs. ValidString (fst kv) \<and> wf_json (snd kv))"
  by (induction kvs) auto

section \<open>Sizes\<close>

definition entry_size :: "string \<times> json \<Rightarrow> nat" where
  "entry_size kv = length (print_str (fst kv)) + length (print_json (snd kv)) + 2"

lemma length_print_members: "length (print_members kvs) \<le> sum_list (map entry_size kvs)"
  by (induction kvs) (auto simp: entry_size_def)

lemma length_print_obj: "length (print_json (JObj kvs)) \<le> 2 + sum_list (map entry_size kvs)"
  using length_print_members [of kvs] by simp

lemma sum_list_le: "\<forall>x \<in> set xs. f x \<le> (n :: nat) \<Longrightarrow> sum_list (map f xs) \<le> n * length xs"
  by (induction xs) auto

lemma length_print_str_plain: "\<forall>c \<in> set s. plain_char c \<Longrightarrow> length (print_str s) = length s + 2"
  by (simp add: print_str_def escape_plain)

lemma length_dec_int_le: "0 \<le> i \<Longrightarrow> i < 10 ^ k \<Longrightarrow> 0 < k \<Longrightarrow> length (dec_int i) \<le> k"
  by (simp add: dec_int_def length_dec_le nat_less_iff)

end
