(* ===== verification/Externals.thy ===== *)
theory Externals
  imports Prelude
begin

text \<open>
  Functions of third-party packages that the program calls, as a record that every definition
  using one of them takes as an argument, and the documented behaviour the theorems rely on.
\<close>

record ext =
  IsDNS1123Subdomain :: "string \<Rightarrow> bool"  \<comment> \<open>\<open>len(validation.IsDNS1123Subdomain(s)) == 0\<close>\<close>
  IsDNS1123Label :: "string \<Rightarrow> bool"  \<comment> \<open>\<open>len(validation.IsDNS1123Label(s)) == 0\<close>\<close>
  NewDigest :: "string \<Rightarrow> (string \<times> string) option"
    \<comment> \<open>\<open>name.NewDigest(s, name.StrictValidation)\<close>: the reference's \<open>Name()\<close> and \<open>DigestStr()\<close>\<close>

text \<open>
  RFC 1123 names: \<open>k8s.io/apimachinery/pkg/util/validation\<close> documents that a subdomain or label
  consists of lower case alphanumeric characters, \<open>-\<close> and (for a subdomain) \<open>.\<close> only.
\<close>

definition dns_char :: "char \<Rightarrow> bool" where
  "dns_char c \<longleftrightarrow> is_lower c \<or> is_digit c \<or> c = CHR ''-'' \<or> c = CHR ''.''"

definition dns_names :: "'x ext_scheme \<Rightarrow> bool" where
  "dns_names x \<longleftrightarrow> (\<forall>s. IsDNS1123Subdomain x s \<or> IsDNS1123Label x s \<longrightarrow> list_all dns_char s)"

text \<open>A concrete instance: the grammar of RFC 1123 as that package states it.\<close>

definition alnum :: "char \<Rightarrow> bool" where
  "alnum c \<longleftrightarrow> is_lower c \<or> is_digit c"

fun rfc1123_labels :: "bool \<Rightarrow> string \<Rightarrow> bool" where
  "rfc1123_labels start [] = False"
| "rfc1123_labels start [c] = alnum c"
| "rfc1123_labels start (c # d # s) =
     (if start then alnum c \<and> rfc1123_labels False (d # s)
      else if c = CHR ''.'' then rfc1123_labels True (d # s)
      else if alnum c then rfc1123_labels False (d # s)
      else c = CHR ''-'' \<and> d \<noteq> CHR ''.'' \<and> rfc1123_labels False (d # s))"

definition rfc1123_subdomain :: "string \<Rightarrow> bool" where
  "rfc1123_subdomain s \<longleftrightarrow> length s \<le> 253 \<and> rfc1123_labels True s"

definition rfc1123_label :: "string \<Rightarrow> bool" where
  "rfc1123_label s \<longleftrightarrow> length s \<le> 63 \<and> rfc1123_labels True s \<and> CHR ''.'' \<notin> set s"

lemma rfc1123_chars: "rfc1123_labels b s \<Longrightarrow> list_all dns_char s"
  by (induction b s rule: rfc1123_labels.induct) (auto simp: dns_char_def alnum_def split: if_splits)

text \<open>A reference \<open>repository@digest\<close>, split at its first \<open>@\<close>.\<close>

definition split_digest :: "string \<Rightarrow> (string \<times> string) option" where
  "split_digest s =
    (let d = dropWhile (\<lambda>c. c \<noteq> CHR ''@'') s in if d = [] then None else Some (s, tl d))"

definition rfc1123 :: ext where
  "rfc1123 = \<lparr>IsDNS1123Subdomain = rfc1123_subdomain, IsDNS1123Label = rfc1123_label,
     NewDigest = split_digest\<rparr>"

lemma dns_names_rfc1123: "dns_names rfc1123"
  by (auto simp: dns_names_def rfc1123_def rfc1123_subdomain_def rfc1123_label_def rfc1123_chars)

end
