(* ===== verification/Sha256.thy ===== *)
theory Sha256
  imports Go_Json "HOL-Library.Word"
begin

text \<open>
  \<open>crypto/sha256\<close> and \<open>encoding/hex\<close>: SHA-256 on byte strings as FIPS 180-4 defines it, on 32-bit
  words, and the lower-case hexadecimal form in which the program stores every digest.
\<close>

unbundle bit_operations_syntax

type_synonym w32 = "32 word"

text \<open>
  The constants: the first 32 bits of the fractional parts of the square roots of the first eight
  primes and of the cube roots of the first 64 primes. \<open>root_bits\<close> computes the integer \<open>k\<close>-th root
  of \<open>n\<close> bit by bit.
\<close>

fun root_bits :: "nat \<Rightarrow> nat \<Rightarrow> nat \<Rightarrow> nat \<Rightarrow> nat" where
  "root_bits k n 0 acc = acc"
| "root_bits k n (Suc b) acc = root_bits k n b (if (acc + 2 ^ b) ^ k \<le> n then acc + 2 ^ b else acc)"

definition first_primes :: "nat list" where
  "first_primes = filter (\<lambda>p. list_all (\<lambda>d. p mod d \<noteq> 0) [2..<p]) [2..<312]"

definition sha_H :: "w32 list" where
  "sha_H = map (\<lambda>p. of_nat (root_bits 2 (p * 2 ^ 64) 36 0)) [2, 3, 5, 7, 11, 13, 17, 19]"

definition sha_K :: "w32 list" where
  "sha_K = map (\<lambda>p. of_nat (root_bits 3 (p * 2 ^ 96) 36 0)) first_primes"

definition ror :: "nat \<Rightarrow> w32 \<Rightarrow> w32" where
  "ror n x = drop_bit n x OR push_bit (32 - n) x"

definition small_sigma0 :: "w32 \<Rightarrow> w32" where
  "small_sigma0 x = ror 7 x XOR ror 18 x XOR drop_bit 3 x"

definition small_sigma1 :: "w32 \<Rightarrow> w32" where
  "small_sigma1 x = ror 17 x XOR ror 19 x XOR drop_bit 10 x"

definition big_sigma0 :: "w32 \<Rightarrow> w32" where
  "big_sigma0 x = ror 2 x XOR ror 13 x XOR ror 22 x"

definition big_sigma1 :: "w32 \<Rightarrow> w32" where
  "big_sigma1 x = ror 6 x XOR ror 11 x XOR ror 25 x"

definition sha_ch :: "w32 \<Rightarrow> w32 \<Rightarrow> w32 \<Rightarrow> w32" where
  "sha_ch x y z = (x AND y) XOR (NOT x AND z)"

definition sha_maj :: "w32 \<Rightarrow> w32 \<Rightarrow> w32 \<Rightarrow> w32" where
  "sha_maj x y z = (x AND y) XOR (x AND z) XOR (y AND z)"

text \<open>The message schedule; the newest word is the head of the list.\<close>

fun sha_expand :: "nat \<Rightarrow> w32 list \<Rightarrow> w32 list" where
  "sha_expand 0 ws = ws"
| "sha_expand (Suc n) ws =
     sha_expand n ((small_sigma1 (ws ! 1) + ws ! 6 + small_sigma0 (ws ! 14) + ws ! 15) # ws)"

definition sha_round :: "w32 \<times> w32 \<Rightarrow> w32 list \<Rightarrow> w32 list" where
  "sha_round kw v =
    (case v of
       [a, b, c, d, e, f, g, h] \<Rightarrow>
         (let t1 = h + big_sigma1 e + sha_ch e f g + fst kw + snd kw;
              t2 = big_sigma0 a + sha_maj a b c
          in [t1 + t2, a, b, c, d + t1, e, f, g])
     | _ \<Rightarrow> v)"

definition sha_block :: "w32 list \<Rightarrow> w32 list \<Rightarrow> w32 list" where
  "sha_block block hs =
    map2 (+) hs (fold sha_round (zip sha_K (rev (sha_expand 48 (rev block)))) hs)"

text \<open>Padding, and the division into words and blocks.\<close>

definition sha_pad :: "nat list \<Rightarrow> nat list" where
  "sha_pad bs =
    (let n = length bs in
     bs @ [128] @ replicate ((119 - n mod 64) mod 64) 0
        @ map (\<lambda>i. (8 * n) div 256 ^ i mod 256) (rev [0..<8]))"

fun be_words :: "nat list \<Rightarrow> w32 list" where
  "be_words (a # b # c # d # r) = of_nat (((a * 256 + b) * 256 + c) * 256 + d) # be_words r"
| "be_words _ = []"

function sha_blocks :: "w32 list \<Rightarrow> w32 list \<Rightarrow> w32 list" where
  "sha_blocks ws hs = (if ws = [] then hs else sha_blocks (drop 16 ws) (sha_block (take 16 ws) hs))"
  by pat_completeness auto
termination
  by (relation "measure (\<lambda>(ws, hs). length ws)") auto

declare sha_blocks.simps [simp del]

definition hex_word :: "w32 \<Rightarrow> string" where
  "hex_word w = map (\<lambda>i. hex_digit (unat w div 16 ^ i mod 16)) (rev [0..<8])"

text \<open>\<open>hex.EncodeToString(sha256.Sum256(s))\<close>\<close>

definition sha256_hex :: "string \<Rightarrow> string" where
  "sha256_hex s = concat (map hex_word (sha_blocks (be_words (sha_pad (map code s))) sha_H))"

text \<open>A digest is 64 lower-case hexadecimal characters.\<close>

lemma length_sha_round: "length (sha_round kw v) = length v"
  by (simp add: sha_round_def Let_def split: list.split)

lemma length_fold_sha_round: "length (fold sha_round ks v) = length v"
  by (induction ks arbitrary: v) (simp_all add: length_sha_round)

lemma length_sha_blocks: "length (sha_blocks ws hs) = length hs"
proof (induction ws hs rule: sha_blocks.induct)
  case (1 ws hs)
  then show ?case
    by (subst sha_blocks.simps) (simp add: sha_block_def length_fold_sha_round)
qed

lemma is_lower_hex_hex_digit: "d < 16 \<Longrightarrow> is_lower_hex (hex_digit d)"
  by (auto simp: hex_digit_def byte_class_defs)

lemma hex_word_lower: "list_all is_lower_hex (hex_word w)" "length (hex_word w) = 8"
  by (simp_all add: hex_word_def list_all_iff is_lower_hex_hex_digit)

lemma sha256_hex_lower: "list_all is_lower_hex (sha256_hex s)"
  using hex_word_lower(1) by (auto simp: sha256_hex_def list_all_iff)

lemma length_sha_H: "length sha_H = 8"
  by (simp add: sha_H_def)

lemma length_sha256_hex [simp]: "length (sha256_hex s) = 64"
proof -
  let ?ws = "sha_blocks (be_words (sha_pad (map code s))) sha_H"
  have "map (length \<circ> hex_word) ?ws = replicate (length ?ws) 8"
    by (simp add: map_replicate_const [symmetric] hex_word_lower(2) comp_def)
  moreover have "length ?ws = 8" by (simp add: length_sha_blocks length_sha_H)
  ultimately show ?thesis by (simp add: sha256_hex_def length_concat sum_list_replicate)
qed

end
