(* ===== verification/Queue_State.thy ===== *)
theory Queue_State
  imports Admission_Json Externals Sha256 "HOL-Library.Multiset"
begin

text \<open>
  The persisted state of the queue ledger (\<open>internal/service/queueadmission/ledger.go\<close>): its data
  types, validation, encoding and decoding. The results: validation does not depend on the order in
  which Go iterates the map of intents, every valid state fits the 768 KiB data guard, and decoding
  inverts encoding.
\<close>

section \<open>Types\<close>

record Intent =
  RequesterHash :: string
  RequestDigest :: string
  Nonce :: string
  CreatedAtUnix :: int
  ReceiptUID :: string
  ReceiptDigest :: string
  CleanupKind :: string

record queue_state =
  Version :: int
  GlobalLimit :: int
  RequesterLimit :: int
  Intents :: "(string, Intent) gomap option"  \<comment> \<open>\<open>None\<close> is the nil map\<close>

abbreviation maxLedgerBytes :: int where "maxLedgerBytes \<equiv> 786432"
abbreviation maxHeaderBytes :: int where "maxHeaderBytes \<equiv> 4096"
abbreviation maxIntentBytes :: int where "maxIntentBytes \<equiv> 736"
abbreviation cleanupRejected :: string where "cleanupRejected \<equiv> ''rejected''"
abbreviation cleanupTerminal :: string where "cleanupTerminal \<equiv> ''terminal''"

definition HashRequester :: "string \<Rightarrow> string" where
  "HashRequester username = sha256_hex username"

section \<open>Validation\<close>

definition validateLimits :: "int \<Rightarrow> int \<Rightarrow> goerr option" where
  "validateLimits global requester =
    (if global < 1 \<or> 1000 < global \<or> requester < 1 \<or> global < requester \<or>
        maxLedgerBytes < maxHeaderBytes + global * maxIntentBytes
     then Some (ErrMsg ''unsupported queue admission capacity'') else None)"

definition validLowerHex :: "string \<Rightarrow> nat \<Rightarrow> bool" where
  "validLowerHex s n \<longleftrightarrow> length s = n \<and> list_all is_lower_hex s"

definition validReceiptUID :: "string \<Rightarrow> bool" where
  "validReceiptUID s \<longleftrightarrow> s \<noteq> [] \<and> length s \<le> 64 \<and>
     list_all (\<lambda>c. is_digit c \<or> is_lower c \<or> is_upper c \<or> c = CHR ''-'') s"

definition invalid_intent :: "'x ext_scheme \<Rightarrow> string \<Rightarrow> Intent \<Rightarrow> bool" where
  "invalid_intent x ident entry \<longleftrightarrow>
     length ident = 0 \<or> 253 < length ident \<or> \<not> IsDNS1123Subdomain x ident \<or>
     \<not> validLowerHex (RequesterHash entry) 64 \<or> \<not> validLowerHex (RequestDigest entry) 64 \<or>
     \<not> validLowerHex (Nonce entry) 32 \<or> CreatedAtUnix entry < 1"

definition invalid_receipt_link :: "int \<Rightarrow> Intent \<Rightarrow> bool" where
  "invalid_receipt_link version entry \<longleftrightarrow>
     (ReceiptUID entry = []) \<noteq> (ReceiptDigest entry = []) \<or>
     (version = 1 \<and> (ReceiptUID entry \<noteq> [] \<or> CleanupKind entry \<noteq> [])) \<or>
     (ReceiptUID entry \<noteq> [] \<and>
       (\<not> validReceiptUID (ReceiptUID entry) \<or> \<not> HasPrefix (ReceiptDigest entry) ''sha256:'' \<or>
        \<not> validLowerHex (TrimPrefix (ReceiptDigest entry) ''sha256:'') 64)) \<or>
     (CleanupKind entry \<noteq> [] \<and>
       (ReceiptUID entry = [] \<or>
        (CleanupKind entry \<noteq> cleanupRejected \<and> CleanupKind entry \<noteq> cleanupTerminal)))"

text \<open>The loop over the intents, with the number of intents seen so far of each requester.\<close>

fun validate_intents ::
  "'x ext_scheme \<Rightarrow> int \<Rightarrow> int \<Rightarrow> (string \<Rightarrow> int) \<Rightarrow> (string \<times> Intent) list \<Rightarrow> goerr option" where
  "validate_intents x version limit counts [] = None"
| "validate_intents x version limit counts ((ident, entry) # rest) =
    (if invalid_intent x ident entry
     then Some (ErrMsg ''queue admission state has an invalid intent'')
     else if invalid_receipt_link version entry
     then Some (ErrMsg ''queue admission state has an invalid receipt link'')
     else let counts' = counts(RequesterHash entry := counts (RequesterHash entry) + 1) in
       if limit < counts' (RequesterHash entry)
       then Some (ErrMsg ''queue admission state exceeds requester capacity'')
       else validate_intents x version limit counts' rest)"

definition validateState :: "'x ext_scheme \<Rightarrow> queue_state \<Rightarrow> goerr option" where
  "validateState x current =
    (case Intents current of
       None \<Rightarrow> Some (ErrMsg ''unsupported queue admission state'')
     | Some intents \<Rightarrow>
         if (Version current \<noteq> 1 \<and> Version current \<noteq> 2) \<or>
            validateLimits (GlobalLimit current) (RequesterLimit current) \<noteq> None \<or>
            GlobalLimit current < int (length intents)
         then Some (ErrMsg ''unsupported queue admission state'')
         else validate_intents x (Version current) (RequesterLimit current) (\<lambda>_. 0) intents)"

section \<open>Encoding and decoding\<close>

definition marshal_Intent :: "Intent \<Rightarrow> json" where
  "marshal_Intent e = JObj (
     [(''requesterHash'', JStr (RequesterHash e)),
      (''requestDigest'', JStr (RequestDigest e)),
      (''nonce'', JStr (Nonce e)),
      (''createdAtUnix'', JNum (dec_int (CreatedAtUnix e)))] @
     omitempty ''receiptUID'' (ReceiptUID e) @
     omitempty ''receiptDigest'' (ReceiptDigest e) @
     omitempty ''cleanupKind'' (CleanupKind e))"

definition marshal_state :: "queue_state \<Rightarrow> json" where
  "marshal_state s = JObj
     [(''version'', JNum (dec_int (Version s))),
      (''globalLimit'', JNum (dec_int (GlobalLimit s))),
      (''requesterLimit'', JNum (dec_int (RequesterLimit s))),
      (''intents'', case Intents s of None \<Rightarrow> JNull
         | Some m \<Rightarrow> JObj (map (\<lambda>(k, e). (k, marshal_Intent e)) m))]"

definition encodeState :: "'x ext_scheme \<Rightarrow> queue_state \<Rightarrow> goerr + string" where
  "encodeState x current =
    (case validateState x current of
       Some e \<Rightarrow> Inl e
     | None \<Rightarrow>
         let data = print_json (marshal_state current) in
         if maxLedgerBytes < int (length data) then Inl (ErrMsg ''queue ledger would exceed its size'')
         else Inr data)"

definition allowedQueueField :: allowed where
  "allowedQueueField path key =
    (case path of
       [] \<Rightarrow> key \<in> {''version'', ''globalLimit'', ''requesterLimit'', ''intents''}
     | [p] \<Rightarrow> p = ''intents''
     | [p, _] \<Rightarrow> p = ''intents'' \<and>
         key \<in> {''requesterHash'', ''requestDigest'', ''nonce'', ''createdAtUnix'', ''receiptUID'',
                ''receiptDigest'', ''cleanupKind''}
     | _ \<Rightarrow> False)"

fun unmarshal_Intent :: "json \<Rightarrow> Intent option" where
  "unmarshal_Intent (JObj kvs) = do {
     rh \<leftarrow> field kvs ''requesterHash'' to_str [];
     rd \<leftarrow> field kvs ''requestDigest'' to_str [];
     n \<leftarrow> field kvs ''nonce'' to_str [];
     c \<leftarrow> field kvs ''createdAtUnix'' to_int 0;
     u \<leftarrow> field kvs ''receiptUID'' to_str [];
     d \<leftarrow> field kvs ''receiptDigest'' to_str [];
     k \<leftarrow> field kvs ''cleanupKind'' to_str [];
     Some \<lparr>RequesterHash = rh, RequestDigest = rd, Nonce = n, CreatedAtUnix = c, ReceiptUID = u,
       ReceiptDigest = d, CleanupKind = k\<rparr> }"
| "unmarshal_Intent _ = None"

fun unmarshal_state :: "json \<Rightarrow> queue_state option" where
  "unmarshal_state (JObj kvs) = do {
     v \<leftarrow> field kvs ''version'' to_int 0;
     g \<leftarrow> field kvs ''globalLimit'' to_int 0;
     r \<leftarrow> field kvs ''requesterLimit'' to_int 0;
     m \<leftarrow> field kvs ''intents'' (unmarshal_map unmarshal_Intent) None;
     Some \<lparr>Version = v, GlobalLimit = g, RequesterLimit = r, Intents = m\<rparr> }"
| "unmarshal_state _ = None"

definition decode_state :: "string \<Rightarrow> goerr + queue_state" where
  "decode_state raw = Decode raw unmarshal_state allowedQueueField"

section \<open>Validation as a predicate\<close>

text \<open>The intents of one requester.\<close>

definition held_by :: "string \<Rightarrow> (string \<times> Intent) list \<Rightarrow> nat" where
  "held_by h es = length (filter (\<lambda>(k, e). RequesterHash e = h) es)"

definition valid_entry :: "'x ext_scheme \<Rightarrow> int \<Rightarrow> string \<times> Intent \<Rightarrow> bool" where
  "valid_entry x version = (\<lambda>(ident, e). \<not> invalid_intent x ident e \<and> \<not> invalid_receipt_link version e)"

definition valid_intents :: "'x ext_scheme \<Rightarrow> int \<Rightarrow> int \<Rightarrow> int \<Rightarrow> (string \<times> Intent) list \<Rightarrow> bool" where
  "valid_intents x version global requester es \<longleftrightarrow>
     int (length es) \<le> global \<and> (\<forall>e \<in> set es. valid_entry x version e) \<and>
     (\<forall>h. int (held_by h es) \<le> requester)"

lemma held_by_simps [simp]:
  "held_by h [] = 0"
  "held_by h ((k, e) # es) = (if RequesterHash e = h then Suc (held_by h es) else held_by h es)"
  by (simp_all add: held_by_def)

lemma validate_intents_iff:
  assumes "\<forall>h. counts h \<le> limit"
  shows "validate_intents x version limit counts es = None \<longleftrightarrow>
    (\<forall>e \<in> set es. valid_entry x version e) \<and> (\<forall>h. counts h + int (held_by h es) \<le> limit)"
  using assms
proof (induction es arbitrary: counts)
  case (Cons ke es)
  obtain k e where ke: "ke = (k, e)" by (cases ke)
  define c where "c = counts(RequesterHash e := counts (RequesterHash e) + 1)"
  have step: "validate_intents x version limit counts (ke # es) = None \<longleftrightarrow>
      valid_entry x version ke \<and> c (RequesterHash e) \<le> limit \<and> validate_intents x version limit c es = None"
    by (auto simp: ke valid_entry_def c_def Let_def)
  have shift: "(\<forall>h. counts h + int (held_by h (ke # es)) \<le> limit) \<longleftrightarrow> (\<forall>h. c h + int (held_by h es) \<le> limit)"
    by (auto simp: ke c_def)
  show ?case
  proof (cases "c (RequesterHash e) \<le> limit")
    case True
    then have "\<forall>h. c h \<le> limit" using Cons.prems by (auto simp: c_def)
    from Cons.IH [OF this] True show ?thesis unfolding step shift by simp
  next
    case False
    then have "\<not> c (RequesterHash e) + int (held_by (RequesterHash e) es) \<le> limit" by simp
    with False show ?thesis unfolding step shift by blast
  qed
qed simp

lemma validateState_iff:
  "validateState x s = None \<longleftrightarrow>
     (\<exists>es. Intents s = Some es \<and> (Version s = 1 \<or> Version s = 2) \<and>
       validateLimits (GlobalLimit s) (RequesterLimit s) = None \<and>
       valid_intents x (Version s) (GlobalLimit s) (RequesterLimit s) es)"
proof (cases "Intents s")
  case (Some es)
  show ?thesis
  proof (cases "validateLimits (GlobalLimit s) (RequesterLimit s) = None")
    case True
    then have "\<forall>h. (\<lambda>_. 0 :: int) h \<le> RequesterLimit s" by (auto simp: validateLimits_def split: if_splits)
    from validate_intents_iff [OF this] True Some show ?thesis
      by (auto simp: validateState_def valid_intents_def)
  qed (use Some in \<open>simp add: validateState_def\<close>)
qed (simp add: validateState_def)

lemma valid_intents_perm:
  assumes "mset es = mset fs"
  shows "valid_intents x v g r es \<longleftrightarrow> valid_intents x v g r fs"
proof -
  have "held_by h es = held_by h fs" for h
    using arg_cong [OF assms, of "\<lambda>m. size (filter_mset (\<lambda>(k, e). RequesterHash e = h) m)"]
    by (simp add: held_by_def flip: mset_filter)
  then show ?thesis
    using mset_eq_length [OF assms] mset_eq_setD [OF assms] by (simp add: valid_intents_def)
qed

section \<open>The size of the encoding\<close>

lemma validLowerHex_plain: "validLowerHex s n \<Longrightarrow> \<forall>c \<in> set s. plain_char c"
  by (auto simp: validLowerHex_def list_all_iff plain_chars)

lemma plain_chars_literal [simp]:
  "plain_char (CHR ''-'')" "plain_char (CHR ''.'')" "plain_char (CHR '':'')"
  by (simp_all add: plain_char_def quote_def backslash_def)

lemma validReceiptUID_plain: "validReceiptUID s \<Longrightarrow> \<forall>c \<in> set s. plain_char c"
  by (auto simp: validReceiptUID_def list_all_iff plain_chars)

lemma dns_plain: "dns_names x \<Longrightarrow> IsDNS1123Subdomain x s \<Longrightarrow> \<forall>c \<in> set s. plain_char c"
proof -
  assume "dns_names x" and "IsDNS1123Subdomain x s"
  then have "list_all dns_char s" by (simp add: dns_names_def)
  then show ?thesis by (auto simp: list_all_iff dns_char_def plain_chars)
qed

lemma plain_ascii: "\<forall>c \<in> set s. plain_char c \<Longrightarrow> ValidString s"
  by (rule ValidString_ascii) (auto simp: plain_char_def)

lemma digest_plain:
  assumes "HasPrefix s ''sha256:''" and "validLowerHex (TrimPrefix s ''sha256:'') n"
  shows "(\<forall>c \<in> set s. plain_char c) \<and> length s = n + 7"
proof -
  from assms(1) obtain t where s: "s = ''sha256:'' @ t" by (rule HasPrefixE)
  then have t: "validLowerHex t n" using assms(2) TrimPrefix_append [of "''sha256:''" t] by simp
  have "\<forall>c \<in> set ''sha256:''. plain_char c"
    by (simp add: plain_char_def quote_def backslash_def)
  with validLowerHex_plain [OF t] t s show ?thesis by (auto simp: validLowerHex_def)
qed

text \<open>What a valid entry says about each of its strings.\<close>

lemma valid_entry_strings:
  assumes "valid_entry x version (ident, e)" and "dns_names x"
  shows "\<forall>c \<in> set ident. plain_char c" "length ident \<le> 253"
    and "\<forall>c \<in> set (RequesterHash e). plain_char c" "length (RequesterHash e) = 64"
    and "\<forall>c \<in> set (RequestDigest e). plain_char c" "length (RequestDigest e) = 64"
    and "\<forall>c \<in> set (Nonce e). plain_char c" "length (Nonce e) = 32"
    and "\<forall>c \<in> set (ReceiptUID e). plain_char c" "length (ReceiptUID e) \<le> 64"
    and "\<forall>c \<in> set (ReceiptDigest e). plain_char c" "length (ReceiptDigest e) \<le> 71"
    and "\<forall>c \<in> set (CleanupKind e). plain_char c" "length (CleanupKind e) \<le> 8"
    and "1 \<le> CreatedAtUnix e"
proof -
  have i: "\<not> invalid_intent x ident e" and l: "\<not> invalid_receipt_link version e"
    using assms(1) by (simp_all add: valid_entry_def)
  from i assms(2) show "\<forall>c \<in> set ident. plain_char c" "length ident \<le> 253" "1 \<le> CreatedAtUnix e"
    by (auto simp: invalid_intent_def dest: dns_plain)
  have h: "validLowerHex (RequesterHash e) 64" "validLowerHex (RequestDigest e) 64" "validLowerHex (Nonce e) 32"
    using i by (simp_all add: invalid_intent_def)
  note p = h [THEN validLowerHex_plain]
  from p show "\<forall>c \<in> set (RequesterHash e). plain_char c" "\<forall>c \<in> set (RequestDigest e). plain_char c"
    "\<forall>c \<in> set (Nonce e). plain_char c" by auto
  from h show "length (RequesterHash e) = 64" "length (RequestDigest e) = 64" "length (Nonce e) = 32"
    by (simp_all add: validLowerHex_def)
  have u: "ReceiptUID e = [] \<or> validReceiptUID (ReceiptUID e)"
    using l by (auto simp: invalid_receipt_link_def)
  then show "\<forall>c \<in> set (ReceiptUID e). plain_char c" "length (ReceiptUID e) \<le> 64"
    using validReceiptUID_plain [of "ReceiptUID e"] by (auto simp: validReceiptUID_def)
  have "ReceiptDigest e = [] \<or> (\<forall>c \<in> set (ReceiptDigest e). plain_char c) \<and> length (ReceiptDigest e) = 64 + 7"
    using l digest_plain [of "ReceiptDigest e" 64] unfolding invalid_receipt_link_def by metis
  then show "\<forall>c \<in> set (ReceiptDigest e). plain_char c" "length (ReceiptDigest e) \<le> 71" by auto
  have k: "CleanupKind e = [] \<or> CleanupKind e = cleanupRejected \<or> CleanupKind e = cleanupTerminal"
    using l by (auto simp: invalid_receipt_link_def)
  then show "\<forall>c \<in> set (CleanupKind e). plain_char c"
    by (elim disjE) (simp_all add: plain_char_def quote_def backslash_def)
  from k show "length (CleanupKind e) \<le> 8" by auto
qed

lemma length_print_key: "\<forall>c \<in> set k. plain_char c \<Longrightarrow>
    entry_size (k, j) = length k + 4 + length (print_json j)"
  by (simp add: entry_size_def length_print_str_plain)

lemma length_omitempty:
  assumes "\<forall>c \<in> set k. plain_char c" and "\<forall>c \<in> set s. plain_char c"
  shows "sum_list (map entry_size (omitempty k s)) \<le> length k + 6 + length s"
  using assms by (simp add: omitempty_def length_print_key length_print_str_plain)

lemma plain_field_names:
  "\<forall>c \<in> set ''requesterHash''. plain_char c" "\<forall>c \<in> set ''requestDigest''. plain_char c"
  "\<forall>c \<in> set ''nonce''. plain_char c" "\<forall>c \<in> set ''createdAtUnix''. plain_char c"
  "\<forall>c \<in> set ''receiptUID''. plain_char c" "\<forall>c \<in> set ''receiptDigest''. plain_char c"
  "\<forall>c \<in> set ''cleanupKind''. plain_char c" "\<forall>c \<in> set ''version''. plain_char c"
  "\<forall>c \<in> set ''globalLimit''. plain_char c" "\<forall>c \<in> set ''requesterLimit''. plain_char c"
  "\<forall>c \<in> set ''intents''. plain_char c"
  by (simp_all add: plain_char_def quote_def backslash_def)

lemmas valid_field_names = plain_field_names [THEN plain_ascii]

lemma entry_size_Intent:
  assumes "valid_entry x version (ident, e)" and "dns_names x" and "int64 (CreatedAtUnix e)"
  shows "entry_size (ident, marshal_Intent e) \<le> 736"
proof -
  note v = valid_entry_strings [OF assms(1,2)]
  have created: "length (dec_int (CreatedAtUnix e)) \<le> 19"
    using v(15) assms(3) by (intro length_dec_int_le) (auto simp: int64_def)
  have "sum_list (map entry_size (omitempty ''receiptUID'' (ReceiptUID e))) \<le> 80"
    "sum_list (map entry_size (omitempty ''receiptDigest'' (ReceiptDigest e))) \<le> 90"
    "sum_list (map entry_size (omitempty ''cleanupKind'' (CleanupKind e))) \<le> 25"
    using length_omitempty [OF plain_field_names(5) v(9)] length_omitempty [OF plain_field_names(6) v(11)]
      length_omitempty [OF plain_field_names(7) v(13)] v(10,12,14) by auto
  moreover have "entry_size (ident, marshal_Intent e) = length ident + 4 + length (print_json (marshal_Intent e))"
    using v(1) by (rule length_print_key)
  moreover note length_print_obj [of "[(''requesterHash'', JStr (RequesterHash e)),
      (''requestDigest'', JStr (RequestDigest e)), (''nonce'', JStr (Nonce e)),
      (''createdAtUnix'', JNum (dec_int (CreatedAtUnix e)))] @
     omitempty ''receiptUID'' (ReceiptUID e) @ omitempty ''receiptDigest'' (ReceiptDigest e) @
     omitempty ''cleanupKind'' (CleanupKind e)", folded marshal_Intent_def]
  ultimately show ?thesis
    using created v(2-8)
    by (simp add: length_print_key plain_field_names length_print_str_plain del: print_json.simps(6))
qed

text \<open>The encoding of a valid state, and the header and entries it is made of.\<close>

definition int64_state :: "queue_state \<Rightarrow> bool" where
  "int64_state s \<longleftrightarrow> (\<forall>es. Intents s = Some es \<longrightarrow> (\<forall>e \<in> snd ` set es. int64 (CreatedAtUnix e)))"

lemma size_marshal_state:
  assumes "validateState x s = None" and "dns_names x" and "int64_state s"
  shows "\<exists>es. Intents s = Some es \<and>
    int (length (print_json (marshal_state s))) \<le> maxHeaderBytes + maxIntentBytes * int (length es)"
proof -
  obtain es where es: "Intents s = Some es" and version: "Version s = 1 \<or> Version s = 2"
    and limits: "validateLimits (GlobalLimit s) (RequesterLimit s) = None"
    and valid: "valid_intents x (Version s) (GlobalLimit s) (RequesterLimit s) es"
    using assms(1) by (auto simp: validateState_iff)
  let ?m = "map (\<lambda>(k, e). (k, marshal_Intent e)) es"
  have "\<forall>kv \<in> set ?m. entry_size kv \<le> 736"
    using valid assms(2,3) es
    by (force simp: valid_intents_def int64_state_def intro: entry_size_Intent)
  then have entries: "length (print_json (JObj ?m)) \<le> 2 + 736 * length es"
    using sum_list_le [of ?m entry_size 736] length_print_obj [of ?m] by simp
  have "length (dec_int (Version s)) \<le> 4" "length (dec_int (GlobalLimit s)) \<le> 4"
    "length (dec_int (RequesterLimit s)) \<le> 4"
    using version limits by (auto simp: validateLimits_def split: if_splits intro!: length_dec_int_le)
  then have "length (print_json (marshal_state s)) \<le> 4096 + 736 * length es"
    using entries length_print_obj [of "[(''version'', JNum (dec_int (Version s))),
      (''globalLimit'', JNum (dec_int (GlobalLimit s))), (''requesterLimit'', JNum (dec_int (RequesterLimit s))),
      (''intents'', JObj ?m)]"]
    by (simp add: marshal_state_def es length_print_key plain_field_names del: print_json.simps(6))
  then show ?thesis using es by auto
qed

lemma encodeState_valid:
  assumes "validateState x s = None" and "dns_names x" and "int64_state s"
  shows "encodeState x s = Inr (print_json (marshal_state s))"
proof -
  obtain es where "Intents s = Some es"
    and size: "int (length (print_json (marshal_state s))) \<le> maxHeaderBytes + maxIntentBytes * int (length es)"
    using size_marshal_state [OF assms] by auto
  moreover from this(1) assms(1) have "int (length es) \<le> GlobalLimit s" "GlobalLimit s \<le> 1000"
    by (auto simp: validateState_iff valid_intents_def validateLimits_def split: if_splits)
  ultimately have "int (length (print_json (marshal_state s))) \<le> maxLedgerBytes" by linarith
  then show ?thesis using assms(1) by (simp add: encodeState_def)
qed

section \<open>Decoding inverts encoding\<close>

lemma map_of_omitempty: "map_of (omitempty k s) k' = (if k' = k \<and> s \<noteq> [] then Some (JStr s) else None)"
  by (auto simp: omitempty_def)

lemma unmarshal_marshal_Intent:
  "int64 (CreatedAtUnix e) \<Longrightarrow> unmarshal_Intent (marshal_Intent e) = Some e"
  by (cases e) (auto simp: marshal_Intent_def field_def map_of_omitempty map_add_def int64_def ParseInt_dec_int
      split: option.splits)

lemma wf_marshal_Intent:
  assumes "valid_entry x version (ident, e)" and "dns_names x"
  shows "ValidString ident \<and> wf_json (marshal_Intent e)"
proof -
  note v = valid_entry_strings [OF assms]
  have "ValidString (RequesterHash e)" "ValidString (RequestDigest e)" "ValidString (Nonce e)"
    "ValidString (ReceiptUID e)" "ValidString (ReceiptDigest e)" "ValidString (CleanupKind e)"
    and "ValidString ident"
    by (rule plain_ascii, rule v)+
  then show ?thesis
    by (simp add: marshal_Intent_def omitempty_def valid_field_names) blast
qed

lemma allowedQueueField_simps:
  "allowedQueueField [] k \<longleftrightarrow> k \<in> {''version'', ''globalLimit'', ''requesterLimit'', ''intents''}"
  "allowedQueueField [p] k \<longleftrightarrow> p = ''intents''"
  "allowedQueueField [p, q] k \<longleftrightarrow> p = ''intents'' \<and>
     k \<in> {''requesterHash'', ''requestDigest'', ''nonce'', ''createdAtUnix'', ''receiptUID'',
          ''receiptDigest'', ''cleanupKind''}"
  by (simp_all add: allowedQueueField_def)

lemma check_marshal_Intent:
  "checkValue allowedQueueField [''intents'', ident] 2 (marshal_Intent e) = None"
  by (simp add: marshal_Intent_def omitempty_def allowedQueueField_simps)

lemma check_members_intents:
  assumes "distinct (map fst es)" and "set (map fst es) \<inter> set seen = {}"
  shows "checkMembers allowedQueueField [''intents''] 1 seen (map (\<lambda>(k, e). (k, marshal_Intent e)) es) = None"
  using assms
proof (induction es arbitrary: seen)
  case (Cons ke es)
  obtain k e where ke: "ke = (k, e)" by (cases ke)
  from Cons.prems Cons.IH [of "k # seen"] check_marshal_Intent [of k e] show ?case
    by (simp add: ke allowedQueueField_simps numeral_2_eq_2 del: checkValue.simps)
qed simp

lemma decode_marshal_state:
  assumes "validateState x s = None" and "dns_names x" and "int64_state s"
    and "Intents s = Some es" and "go_map es"
  shows "decode_state (print_json (marshal_state s)) = Inr s"
  unfolding decode_state_def
proof (rule Decode_print)
  have v: "Version s = 1 \<or> Version s = 2" "validateLimits (GlobalLimit s) (RequesterLimit s) = None"
    and entries: "\<forall>e \<in> set es. valid_entry x (Version s) e"
    using assms(1,4) by (auto simp: validateState_iff valid_intents_def)
  have "wf_members (map (\<lambda>(k, e). (k, marshal_Intent e)) es)"
    using entries wf_marshal_Intent [OF _ assms(2)] by (fastforce simp: wf_members_iff)
  then show "wf_json (marshal_state s)"
    using assms(4) by (simp add: marshal_state_def valid_field_names) blast
  show "checkValue allowedQueueField [] 0 (marshal_state s) = None"
    using check_members_intents [OF go_map_distinct [OF assms(5)], of "[]"] assms(4)
    by (simp add: marshal_state_def allowedQueueField_simps)
  have "unmarshal_entries unmarshal_Intent (map (\<lambda>(k, e). (k, marshal_Intent e)) es) = Some es"
    using assms(3,4,5) by (intro unmarshal_entries_map) (auto simp: int64_state_def unmarshal_marshal_Intent)
  moreover have "ParseInt (dec_int (Version s)) = Some (Version s)"
    "ParseInt (dec_int (GlobalLimit s)) = Some (GlobalLimit s)"
    "ParseInt (dec_int (RequesterLimit s)) = Some (RequesterLimit s)"
    using v by (auto simp: validateLimits_def split: if_splits intro!: ParseInt_dec_int)
  ultimately show "unmarshal_state (marshal_state s) = Some s"
    using assms(4) by (cases s) (simp add: marshal_state_def field_def)
qed

section \<open>Properties\<close>

definition sample_intent :: Intent where
  "sample_intent = \<lparr>RequesterHash = replicate 64 (CHR ''a''), RequestDigest = replicate 64 (CHR ''b''),
     Nonce = replicate 32 (CHR ''0''), CreatedAtUnix = 1700000000, ReceiptUID = ''receipt-1'',
     ReceiptDigest = ''sha256:'' @ replicate 64 (CHR ''c''), CleanupKind = cleanupTerminal\<rparr>"

definition sample_state :: queue_state where
  "sample_state = \<lparr>Version = 2, GlobalLimit = 10, RequesterLimit = 2,
     Intents = Some [(''build-1'', sample_intent), (''build-2'', sample_intent)]\<rparr>"

lemma sample_valid: "validateState rfc1123 sample_state = None"
  by (simp add: sample_state_def sample_intent_def validateState_def validateLimits_def invalid_intent_def
      invalid_receipt_link_def validLowerHex_def validReceiptUID_def rfc1123_def rfc1123_subdomain_def
      alnum_def byte_class_defs HasPrefix_def TrimPrefix_def list_all_iff)

lemma sample_int64: "int64_state sample_state"
  by (simp add: sample_state_def sample_intent_def int64_state_def int64_def)

lemma sample_go_map: "go_map [(''build-1'', sample_intent), (''build-2'', sample_intent)]"
  by (simp add: go_map_def less_char_def)

text \<open>C16: Go iterates a map in a random order. Whether \<open>validateState\<close> accepts a ledger does not
  depend on that order.\<close>

theorem queue_validate_order_independent:
  assumes "mset es = mset fs"
  shows "validateState x (s\<lparr>Intents := Some es\<rparr>) = None \<longleftrightarrow> validateState x (s\<lparr>Intents := Some fs\<rparr>) = None"
  using valid_intents_perm [OF assms, of x "Version s" "GlobalLimit s" "RequesterLimit s"]
  by (simp add: validateState_iff)

theorem queue_validate_order_independent_witness:
  "validateState rfc1123 (sample_state\<lparr>Intents := Some [(''a'', sample_intent), (''b'', sample_intent)]\<rparr>) = None \<longleftrightarrow>
   validateState rfc1123 (sample_state\<lparr>Intents := Some [(''b'', sample_intent), (''a'', sample_intent)]\<rparr>) = None"
  by (rule queue_validate_order_independent) simp

text \<open>C15: the size argument in the comment above \<open>validateLimits\<close>. For every state that
  \<open>validateState\<close> accepts, \<open>encodeState\<close> succeeds: the encoding never reaches the 768 KiB guard.\<close>

theorem queue_encode_total:
  assumes "validateState x s = None" and "dns_names x" and "int64_state s"
  shows "\<exists>raw. encodeState x s = Inr raw \<and> int (length raw) \<le> maxLedgerBytes"
  using encodeState_valid [OF assms] by (auto simp: encodeState_def Let_def assms(1) split: if_splits)

theorem queue_encode_total_witness:
  "\<exists>raw. encodeState rfc1123 sample_state = Inr raw \<and> int (length raw) \<le> maxLedgerBytes"
  using queue_encode_total [OF sample_valid dns_names_rfc1123 sample_int64] .

text \<open>C14: what a ledger write stores, the next read decodes to the same state.\<close>

theorem queue_decode_encode:
  assumes "encodeState x s = Inr raw" and "dns_names x" and "int64_state s"
    and "Intents s = Some es" and "go_map es"
  shows "decode_state raw = Inr s"
proof -
  have "validateState x s = None" "raw = print_json (marshal_state s)"
    using assms(1) by (auto simp: encodeState_def Let_def split: option.splits if_splits)
  with decode_marshal_state [OF _ assms(2-5)] show ?thesis by simp
qed

theorem queue_decode_encode_witness:
  "\<exists>raw. encodeState rfc1123 sample_state = Inr raw \<and> decode_state raw = Inr sample_state"
proof -
  have e: "encodeState rfc1123 sample_state = Inr (print_json (marshal_state sample_state))"
    by (rule encodeState_valid [OF sample_valid dns_names_rfc1123 sample_int64])
  moreover have "Intents sample_state = Some [(''build-1'', sample_intent), (''build-2'', sample_intent)]"
    by (simp add: sample_state_def)
  from queue_decode_encode [OF e dns_names_rfc1123 sample_int64 this sample_go_map]
  have "decode_state (print_json (marshal_state sample_state)) = Inr sample_state" .
  ultimately show ?thesis by blast
qed

end
