(* ===== verification/Kube.thy ===== *)
theory Kube
  imports Go_Json
begin

text \<open>
  The Kubernetes objects the program reads and writes, the API operations it calls, and what it may
  rely on. The API server, its clients and the clock are not part of the program: they are
  arguments of every operation, as records of operations on an abstract world. What the theorems
  assume of them is stated over a log of events: changes of stored objects by others (\<open>Env\<close>),
  requests of this process (\<open>Sent\<close>) and changes of stored objects by those requests (\<open>Own\<close>).
\<close>

section \<open>Objects\<close>

record owner_ref =
  OwnerAPIVersion :: string
  OwnerKind :: string
  OwnerName :: string
  OwnerUID :: string
  OwnerController :: "bool option"

record objmeta =
  Namespace :: string
  Name :: string
  UID :: string
  ResourceVersion :: string
  Generation :: int
  CreationTimestamp :: int
  DeletionTimestamp :: "int option"
  Labels :: "(string, string) gomap"
  Annotations :: "(string, string) gomap"
  OwnerReferences :: "owner_ref list"
  Finalizers :: "string list"

definition empty_meta :: objmeta where
  "empty_meta = \<lparr>Namespace = [], Name = [], UID = [], ResourceVersion = [], Generation = 0,
     CreationTimestamp = 0, DeletionTimestamp = None, Labels = [], Annotations = [],
     OwnerReferences = [], Finalizers = []\<rparr>"

record configmap =
  cm_meta :: objmeta
  Immutable :: "bool option"
  Data :: "(string, string) gomap"
  BinaryData :: "(string, string) gomap"

record namespace =
  ns_meta :: objmeta
  NsPhase :: string

text \<open>\<open>KovaBuild\<close> of \<open>internal/apis/kova/v1alpha1/types.go\<close>.\<close>

record KovaBuildTargetSpec =
  Target :: string
  Platform :: string

record KovaBuildRequester =
  Username :: string
  RequesterUID :: string

record KovaBuildSourceSpec =
  URI :: string
  SourceDigest :: string

record KovaBuildOptions =
  Format :: string
  Concurrency :: int
  Timeout :: int
  OOMCooldown :: string
  FailFast :: bool
  Verbose :: bool
  Vars :: "string list"

record KovaBuildSpec =
  Requester :: KovaBuildRequester
  Targets :: "KovaBuildTargetSpec list"
  Source :: KovaBuildSourceSpec
  Build :: KovaBuildOptions
  IdempotencyKey :: string

record AdmissionGenesisWitness =
  WitnessNamespaceUID :: string
  WitnessGenesisUID :: string
  WitnessGeneration :: string
  WitnessActiveLedgerUID :: string
  WitnessQueueLedgerUID :: string
  WitnessBuildUID :: string
  WitnessPodName :: string
  WitnessPodUID :: string
  WitnessPodCreateAttempt :: string
  WitnessPodTemplateDigest :: string
  WitnessRunnerRequestID :: string

record AdmissionGenesisStopIntent =
  StopBuildUID :: string
  StopPodUID :: string
  StopPodCreateAttempt :: string
  StopRunnerRequestID :: string
  StopReason :: string

record condition =
  ConditionType :: string
  ConditionStatus :: string
  ConditionObservedGeneration :: int
  ConditionReason :: string
  ConditionMessage :: string
  LastTransitionTime :: int

text \<open>
  The status, without the receipts of output verification. A \<open>metav1.Time\<close> pointer is an optional
  instant.
\<close>

record KovaBuildStatus =
  Phase :: string
  ObservedGeneration :: int
  AllocatedConcurrency :: int
  RunnerPodName :: string
  GenesisWitness :: "AdmissionGenesisWitness option"
  GenesisStopIntent :: "AdmissionGenesisStopIntent option"
  Reason :: string
  Message :: string
  StartedAt :: "int option"
  FinishedAt :: "int option"
  PollFailureSince :: "int option"
  PollFailureCount :: int
  VerificationStartedAt :: "int option"
  VerificationDeadlineAt :: "int option"
  VerificationNextAttemptAt :: "int option"
  VerificationAttempts :: int
  VerificationLastError :: string
  Conditions :: "condition list"

record KovaBuild =
  build_meta :: objmeta
  Spec :: KovaBuildSpec
  Status :: KovaBuildStatus

text \<open>
  \<open>corev1.Pod\<close>, by the fields the program reads or sets. What it only carries along is kept as a
  value of its own: \<open>VolumeRest\<close>, \<open>ContainerRest\<close> and so on. Resource lists are maps of quantities
  in text; a nil list is \<open>None\<close>.
\<close>

record toleration =
  TolerationKey :: string
  TolerationOperator :: string
  TolerationValue :: string
  TolerationEffect :: string
  TolerationSeconds :: "int option"

record probe =
  SuccessThreshold :: int
  ProbeRest :: json

record container =
  ContainerName :: string
  Image :: string
  Command :: "string list"
  ImagePullPolicy :: string
  TerminationMessagePath :: string
  TerminationMessagePolicy :: string
  ResourceLimits :: "(string, string) gomap option"
  ResourceRequests :: "(string, string) gomap option"
  LivenessProbe :: "probe option"
  ReadinessProbe :: "probe option"
  StartupProbe :: "probe option"
  ContainerRest :: json

record volume_source =
  DefaultMode :: "int option"
  VolumeSourceRest :: json

record volume =
  SecretVolume :: "volume_source option"
  ConfigMapVolume :: "volume_source option"
  VolumeRest :: json

record podspec =
  Containers :: "container list"
  InitContainers :: "container list"
  Volumes :: "volume list"
  RestartPolicy :: string
  NodeName :: string
  ServiceAccountName :: string
  DeprecatedServiceAccount :: string
  AutomountServiceAccountToken :: "bool option"
  DNSPolicy :: string
  SchedulerName :: string
  TerminationGracePeriodSeconds :: "int option"
  EnableServiceLinks :: "bool option"
  HostUsers :: "bool option"
  Priority :: "int option"
  PreemptionPolicy :: "string option"
  Tolerations :: "toleration list"
  PodSpecRest :: json

record pod =
  pod_meta :: objmeta
  PodSpec :: podspec
  PodPhase :: string

abbreviation PhaseQueued :: string where "PhaseQueued \<equiv> ''Queued''"
abbreviation PhaseStarting :: string where "PhaseStarting \<equiv> ''Starting''"
abbreviation PhaseRunning :: string where "PhaseRunning \<equiv> ''Running''"
abbreviation PhaseVerifying :: string where "PhaseVerifying \<equiv> ''Verifying''"
abbreviation PhaseFailedVerifying :: string where "PhaseFailedVerifying \<equiv> ''FailedVerifying''"
abbreviation PhaseSucceeded :: string where "PhaseSucceeded \<equiv> ''Succeeded''"
abbreviation PhaseFailed :: string where "PhaseFailed \<equiv> ''Failed''"
abbreviation PhaseCancelled :: string where "PhaseCancelled \<equiv> ''Cancelled''"

section \<open>Operations\<close>

text \<open>\<open>client.Reader\<close>: named reads and lists; a list takes its limit, where 0 is none.\<close>

record 'w reader =
  Get_cm :: "string \<Rightarrow> string \<Rightarrow> ('w, goerr + configmap) op"
  Get_build :: "string \<Rightarrow> string \<Rightarrow> ('w, goerr + KovaBuild) op"
  Get_pod :: "string \<Rightarrow> string \<Rightarrow> ('w, goerr + pod) op"
  List_builds :: "string \<Rightarrow> nat \<Rightarrow> ('w, goerr + KovaBuild list) op"
  List_pods :: "string \<Rightarrow> (string, string) gomap \<Rightarrow> ('w, goerr + pod list) op"

text \<open>
  \<open>client.Client\<close>: a reader with writes. \<open>Update\<close> fills in the object it is given, so it returns
  it; \<open>Delete\<close> takes the UID of its precondition.
\<close>

record 'w client = "'w reader" +
  Create_cm :: "configmap \<Rightarrow> ('w, goerr option) op"
  Update_cm :: "configmap \<Rightarrow> ('w, goerr option) op"
  Delete_cm :: "string \<Rightarrow> string \<Rightarrow> string option \<Rightarrow> ('w, goerr option) op"
  Update_build :: "KovaBuild \<Rightarrow> ('w, goerr + KovaBuild) op"
  Update_status :: "KovaBuild \<Rightarrow> ('w, goerr + KovaBuild) op"
  Create_pod :: "pod \<Rightarrow> ('w, goerr + pod) op"
  Delete_pod :: "string \<Rightarrow> string \<Rightarrow> string option \<Rightarrow> ('w, goerr option) op"

text \<open>
  \<open>admissiongenesis.CoreAPI\<close>: direct named operations. A Create may return an object, an error or
  both; a Patch takes the bytes of an RFC 6902 document.
\<close>

record 'w core_api =
  GetNamespace :: "string \<Rightarrow> ('w, goerr + namespace) op"
  GetConfigMap :: "string \<Rightarrow> string \<Rightarrow> ('w, goerr + configmap) op"
  CreateConfigMap :: "string \<Rightarrow> configmap \<Rightarrow> ('w, configmap option \<times> goerr option) op"
  PatchConfigMap :: "string \<Rightarrow> string \<Rightarrow> string \<Rightarrow> ('w, goerr + configmap) op"

text \<open>The context of a call, timers, the clock and \<open>crypto/rand\<close>.\<close>

record 'w runtime =
  Ctx_Err :: "('w, goerr option) op"
  Sleep :: "nat \<Rightarrow> ('w, goerr option) op"  \<comment> \<open>milliseconds; the error is that of a cancelled context\<close>
  Now :: "('w, int) op"  \<comment> \<open>Unix seconds\<close>
  Rand16 :: "('w, goerr + string) op"  \<comment> \<open>16 random bytes\<close>

end
