(* ===== verification/Admission_Contract.thy ===== *)
theory Admission_Contract
  imports Admission_Json Externals Sha256 Kube
begin

text \<open>
  The immutable admission contract (\<open>internal/admissioncontract/contract.go\<close>): its types, their
  validation and strict parsing, and the checks that tie Kubernetes objects to it.
\<close>

section \<open>Types\<close>

abbreviation GenesisNameConst :: string where "GenesisNameConst \<equiv> ''kova-service-admission-genesis''"
abbreviation ActiveLedgerNameConst :: string where "ActiveLedgerNameConst \<equiv> ''kova-service-admission''"
abbreviation QueueLedgerNameConst :: string where "QueueLedgerNameConst \<equiv> ''kova-service-queue-admission''"
abbreviation ActiveLedgerDataKey :: string where "ActiveLedgerDataKey \<equiv> ''reservations.json''"
abbreviation QueueLedgerDataKey :: string where "QueueLedgerDataKey \<equiv> ''queue.json''"
abbreviation GenesisDataKey :: string where "GenesisDataKey \<equiv> ''genesis.json''"
abbreviation PhaseInitializing :: string where "PhaseInitializing \<equiv> ''Initializing''"
abbreviation PhaseCommitted :: string where "PhaseCommitted \<equiv> ''Committed''"
abbreviation NamespaceActive :: string where "NamespaceActive \<equiv> ''Active''"
abbreviation MaxContractJSONBytes :: nat where "MaxContractJSONBytes \<equiv> 8192"
abbreviation MaxLedgerDataBytes :: nat where "MaxLedgerDataBytes \<equiv> 786432"

abbreviation annotationNamespace :: string where "annotationNamespace \<equiv> ''kova.cofy.dev/admission-namespace-uid''"
abbreviation annotationGenesis :: string where "annotationGenesis \<equiv> ''kova.cofy.dev/admission-genesis-uid''"
abbreviation annotationGeneration :: string where "annotationGeneration \<equiv> ''kova.cofy.dev/admission-generation''"
abbreviation annotationContract :: string where "annotationContract \<equiv> ''kova.cofy.dev/admission-contract''"
abbreviation annotationRole :: string where "annotationRole \<equiv> ''kova.cofy.dev/admission-role''"
abbreviation annotationSchema :: string where "annotationSchema \<equiv> ''kova.cofy.dev/admission-schema''"
abbreviation annotationAttempt :: string where "annotationAttempt \<equiv> ''kova.cofy.dev/admission-bootstrap''"

record Limits =
  MaxActiveJobs :: int
  MaxActiveJobsPerRequester :: int
  WorkerSlots :: int
  MaxQueuedJobs :: int
  MaxQueuedJobsPerRequester :: int

record Contract =
  ContractVersion :: int
  NamespaceUID :: string
  ReceiptNamespace :: string
  ReceiptNamespaceUID :: string
  WorkerPoolID :: string
  RunnerImage :: string
  ContractGeneration :: string
  ActiveLedgerName :: string
  ActiveLedgerSchema :: int
  QueueLedgerName :: string
  QueueLedgerSchema :: int
  ContractLimits :: Limits

record Receipt =
  ReceiptTarget :: string  \<comment> \<open>\<open>Namespace\<close>\<close>
  GenesisName :: string
  GenesisUID :: string
  ReceiptContract :: Contract

record GenesisData =
  GenesisContract :: Contract
  GenesisPhase :: string
  ActiveLedgerUID :: string
  QueueLedgerUID :: string

datatype Role = Active | Queue | OtherRole string

fun role_string :: "Role \<Rightarrow> string" where
  "role_string Active = ''active''"
| "role_string Queue = ''queue''"
| "role_string (OtherRole s) = s"

section \<open>Validation\<close>

definition ValidUID :: "string \<Rightarrow> bool" where
  "ValidUID u \<longleftrightarrow> u \<noteq> [] \<and> length u \<le> 256 \<and> ValidString u"

definition validNonce :: "string \<Rightarrow> bool" where
  "validNonce s \<longleftrightarrow> length s = 32 \<and> list_all is_lower_hex s"

definition Limits_validate :: "Limits \<Rightarrow> goerr option" where
  "Limits_validate l =
    (if MaxActiveJobs l < 1 \<or> 128 < MaxActiveJobs l \<or>
        MaxActiveJobsPerRequester l < 1 \<or> MaxActiveJobs l < MaxActiveJobsPerRequester l \<or>
        WorkerSlots l < 1 \<or> 65535 < WorkerSlots l \<or>
        MaxQueuedJobs l < 1 \<or> 1000 < MaxQueuedJobs l \<or>
        MaxQueuedJobsPerRequester l < 1 \<or> MaxQueuedJobs l < MaxQueuedJobsPerRequester l \<or>
        int MaxLedgerDataBytes < 8192 + 6000 * MaxActiveJobs l \<or>
        int MaxLedgerDataBytes < 4096 + 736 * MaxQueuedJobs l
     then Some (ErrMsg ''admission receipt has unsupported limits'') else None)"

definition ValidWorkerPoolID :: "string \<Rightarrow> bool" where
  "ValidWorkerPoolID s \<longleftrightarrow> s \<noteq> [] \<and> length s \<le> 128 \<and>
     list_all (\<lambda>c. is_lower c \<or> is_upper c \<or> is_digit c \<or> c \<in> set ''._:/@+-'') s"

definition RunnerManifestDigest :: "'x ext_scheme \<Rightarrow> string \<Rightarrow> goerr + string" where
  "RunnerManifestDigest x s =
    (case NewDigest x s of
       None \<Rightarrow> Inl (ErrMsg ''runner image must be a canonical repository@sha256 manifest reference'')
     | Some (refname, digest) \<Rightarrow>
         if 512 < length s \<or> refname \<noteq> s
         then Inl (ErrMsg ''runner image must be a canonical repository@sha256 manifest reference'')
         else if length digest \<noteq> 71 \<or> \<not> HasPrefix digest ''sha256:''
         then Inl (ErrMsg ''runner image must use a sha256 manifest digest'')
         else if \<not> list_all is_lower_hex (TrimPrefix digest ''sha256:'')
         then Inl (ErrMsg ''runner manifest digest must use lowercase hexadecimal'')
         else Inr digest)"

definition Contract_validate :: "'x ext_scheme \<Rightarrow> Contract \<Rightarrow> goerr option" where
  "Contract_validate x c =
    (if ContractVersion c \<noteq> 3 \<or> \<not> ValidUID (NamespaceUID c) \<or>
        \<not> IsDNS1123Label x (ReceiptNamespace c) \<or> \<not> ValidUID (ReceiptNamespaceUID c) \<or>
        \<not> ValidWorkerPoolID (WorkerPoolID c) \<or> \<not> validNonce (ContractGeneration c) \<or>
        ActiveLedgerName c \<noteq> ActiveLedgerNameConst \<or> ActiveLedgerSchema c \<noteq> 2 \<or>
        QueueLedgerName c \<noteq> QueueLedgerNameConst \<or> QueueLedgerSchema c \<noteq> 2
     then Some (ErrMsg ''admission receipt has unsupported contract'')
     else (case RunnerManifestDigest x (RunnerImage c) of
         Inl e \<Rightarrow> Some e
       | Inr _ \<Rightarrow> Limits_validate (ContractLimits c)))"

definition Receipt_Validate :: "'x ext_scheme \<Rightarrow> Receipt \<Rightarrow> goerr option" where
  "Receipt_Validate x r =
    (if \<not> IsDNS1123Label x (ReceiptTarget r) \<or> GenesisName r \<noteq> GenesisNameConst \<or>
        ReceiptTarget r = ReceiptNamespace (ReceiptContract r) \<or> \<not> ValidUID (GenesisUID r)
     then Some (ErrMsg ''admission receipt has invalid original identity'')
     else Contract_validate x (ReceiptContract r))"

section \<open>JSON\<close>

definition marshal_Limits :: "Limits \<Rightarrow> json" where
  "marshal_Limits l = JObj
     [(''maxActiveJobs'', JNum (dec_int (MaxActiveJobs l))),
      (''maxActiveJobsPerRequester'', JNum (dec_int (MaxActiveJobsPerRequester l))),
      (''workerSlots'', JNum (dec_int (WorkerSlots l))),
      (''maxQueuedJobs'', JNum (dec_int (MaxQueuedJobs l))),
      (''maxQueuedJobsPerRequester'', JNum (dec_int (MaxQueuedJobsPerRequester l)))]"

definition marshal_Contract :: "Contract \<Rightarrow> json" where
  "marshal_Contract c = JObj
     [(''version'', JNum (dec_int (ContractVersion c))),
      (''namespaceUID'', JStr (NamespaceUID c)),
      (''receiptNamespace'', JStr (ReceiptNamespace c)),
      (''receiptNamespaceUID'', JStr (ReceiptNamespaceUID c)),
      (''workerPoolID'', JStr (WorkerPoolID c)),
      (''runnerImage'', JStr (RunnerImage c)),
      (''generation'', JStr (ContractGeneration c)),
      (''activeLedgerName'', JStr (ActiveLedgerName c)),
      (''activeLedgerSchema'', JNum (dec_int (ActiveLedgerSchema c))),
      (''queueLedgerName'', JStr (QueueLedgerName c)),
      (''queueLedgerSchema'', JNum (dec_int (QueueLedgerSchema c))),
      (''limits'', marshal_Limits (ContractLimits c))]"

definition marshal_GenesisData :: "GenesisData \<Rightarrow> json" where
  "marshal_GenesisData g = JObj
     [(''contract'', marshal_Contract (GenesisContract g)),
      (''phase'', JStr (GenesisPhase g)),
      (''activeLedgerUID'', JStr (ActiveLedgerUID g)),
      (''queueLedgerUID'', JStr (QueueLedgerUID g))]"

definition zero_Limits :: Limits where
  "zero_Limits = \<lparr>MaxActiveJobs = 0, MaxActiveJobsPerRequester = 0, WorkerSlots = 0, MaxQueuedJobs = 0,
     MaxQueuedJobsPerRequester = 0\<rparr>"

definition zero_Contract :: Contract where
  "zero_Contract = \<lparr>ContractVersion = 0, NamespaceUID = [], ReceiptNamespace = [],
     ReceiptNamespaceUID = [], WorkerPoolID = [], RunnerImage = [], ContractGeneration = [],
     ActiveLedgerName = [], ActiveLedgerSchema = 0, QueueLedgerName = [], QueueLedgerSchema = 0,
     ContractLimits = zero_Limits\<rparr>"

fun unmarshal_Limits :: "json \<Rightarrow> Limits option" where
  "unmarshal_Limits (JObj kvs) = do {
     a \<leftarrow> field kvs ''maxActiveJobs'' to_int 0;
     b \<leftarrow> field kvs ''maxActiveJobsPerRequester'' to_int 0;
     c \<leftarrow> field kvs ''workerSlots'' to_int 0;
     d \<leftarrow> field kvs ''maxQueuedJobs'' to_int 0;
     e \<leftarrow> field kvs ''maxQueuedJobsPerRequester'' to_int 0;
     Some \<lparr>MaxActiveJobs = a, MaxActiveJobsPerRequester = b, WorkerSlots = c, MaxQueuedJobs = d,
       MaxQueuedJobsPerRequester = e\<rparr> }"
| "unmarshal_Limits _ = None"

fun unmarshal_Contract :: "json \<Rightarrow> Contract option" where
  "unmarshal_Contract (JObj kvs) = do {
     v \<leftarrow> field kvs ''version'' to_int 0;
     nu \<leftarrow> field kvs ''namespaceUID'' to_str [];
     rn \<leftarrow> field kvs ''receiptNamespace'' to_str [];
     ru \<leftarrow> field kvs ''receiptNamespaceUID'' to_str [];
     wp \<leftarrow> field kvs ''workerPoolID'' to_str [];
     ri \<leftarrow> field kvs ''runnerImage'' to_str [];
     g \<leftarrow> field kvs ''generation'' to_str [];
     an \<leftarrow> field kvs ''activeLedgerName'' to_str [];
     as \<leftarrow> field kvs ''activeLedgerSchema'' to_int 0;
     qn \<leftarrow> field kvs ''queueLedgerName'' to_str [];
     qs \<leftarrow> field kvs ''queueLedgerSchema'' to_int 0;
     l \<leftarrow> field kvs ''limits'' unmarshal_Limits zero_Limits;
     Some \<lparr>ContractVersion = v, NamespaceUID = nu, ReceiptNamespace = rn, ReceiptNamespaceUID = ru,
       WorkerPoolID = wp, RunnerImage = ri, ContractGeneration = g, ActiveLedgerName = an,
       ActiveLedgerSchema = as, QueueLedgerName = qn, QueueLedgerSchema = qs, ContractLimits = l\<rparr> }"
| "unmarshal_Contract _ = None"

fun unmarshal_Receipt :: "json \<Rightarrow> Receipt option" where
  "unmarshal_Receipt (JObj kvs) = do {
     n \<leftarrow> field kvs ''namespace'' to_str [];
     g \<leftarrow> field kvs ''genesisName'' to_str [];
     u \<leftarrow> field kvs ''genesisUID'' to_str [];
     c \<leftarrow> field kvs ''contract'' unmarshal_Contract zero_Contract;
     Some \<lparr>ReceiptTarget = n, GenesisName = g, GenesisUID = u, ReceiptContract = c\<rparr> }"
| "unmarshal_Receipt _ = None"

fun unmarshal_GenesisData :: "json \<Rightarrow> GenesisData option" where
  "unmarshal_GenesisData (JObj kvs) = do {
     c \<leftarrow> field kvs ''contract'' unmarshal_Contract zero_Contract;
     p \<leftarrow> field kvs ''phase'' to_str [];
     a \<leftarrow> field kvs ''activeLedgerUID'' to_str [];
     q \<leftarrow> field kvs ''queueLedgerUID'' to_str [];
     Some \<lparr>GenesisContract = c, GenesisPhase = p, ActiveLedgerUID = a, QueueLedgerUID = q\<rparr> }"
| "unmarshal_GenesisData _ = None"

definition allowContract :: allowed where
  "allowContract path key =
    (case path of
       [] \<Rightarrow> key \<in> {''namespace'', ''genesisName'', ''genesisUID'', ''contract'', ''phase'',
                    ''activeLedgerUID'', ''queueLedgerUID''}
     | [p] \<Rightarrow> p = ''contract'' \<and>
         key \<in> {''version'', ''namespaceUID'', ''receiptNamespace'', ''receiptNamespaceUID'',
                ''workerPoolID'', ''runnerImage'', ''generation'', ''activeLedgerName'',
                ''activeLedgerSchema'', ''queueLedgerName'', ''queueLedgerSchema'', ''limits''}
     | [p, q] \<Rightarrow> p = ''contract'' \<and> q = ''limits'' \<and>
         key \<in> {''maxActiveJobs'', ''maxActiveJobsPerRequester'', ''workerSlots'', ''maxQueuedJobs'',
                ''maxQueuedJobsPerRequester''}
     | _ \<Rightarrow> False)"

text \<open>
  \<open>RequireKeys\<close> unmarshals into a \<open>map[string]json.RawMessage\<close>: \<open>null\<close> gives the nil map, the last
  of two equal keys wins, and no bytes at all are an error. It is written on the parsed document;
  a raw message inside it is the subtree it spells.
\<close>

definition raw_map :: "json option \<Rightarrow> (string \<times> json) list option" where
  "raw_map j = (case j of Some JNull \<Rightarrow> Some [] | Some (JObj kvs) \<Rightarrow> Some (rev kvs) | _ \<Rightarrow> None)"

definition RequireKeys :: "json option \<Rightarrow> string list \<Rightarrow> goerr option" where
  "RequireKeys j keys =
    (case raw_map j of
       None \<Rightarrow> Some (ErrMsg ''json: cannot unmarshal'')
     | Some kvs \<Rightarrow>
         if card (set (map fst kvs)) \<noteq> length keys
         then Some (ErrMsg ''admission contract has missing or extra fields'')
         else if \<not> list_all (\<lambda>k. map_of kvs k \<noteq> None) keys
         then Some (ErrMsg ''admission contract has missing field'') else None)"

definition raw_field :: "json option \<Rightarrow> string \<Rightarrow> json option" where
  "raw_field j k = (case raw_map j of None \<Rightarrow> None | Some kvs \<Rightarrow> map_of kvs k)"

abbreviation contract_keys :: "string list" where
  "contract_keys \<equiv> [''version'', ''namespaceUID'', ''receiptNamespace'', ''receiptNamespaceUID'',
     ''workerPoolID'', ''runnerImage'', ''generation'', ''activeLedgerName'', ''activeLedgerSchema'',
     ''queueLedgerName'', ''queueLedgerSchema'', ''limits'']"

abbreviation limits_keys :: "string list" where
  "limits_keys \<equiv> [''maxActiveJobs'', ''maxActiveJobsPerRequester'', ''workerSlots'', ''maxQueuedJobs'',
     ''maxQueuedJobsPerRequester'']"

definition requireContractKeys :: "json option \<Rightarrow> goerr option" where
  "requireContractKeys j =
    (case RequireKeys j contract_keys of
       Some e \<Rightarrow> Some e
     | None \<Rightarrow> RequireKeys (raw_field j ''limits'') limits_keys)"

text \<open>First error of a sequence of checks.\<close>

definition first_err :: "goerr option list \<Rightarrow> goerr option" where
  "first_err es = foldr (\<lambda>e r. case e of Some x \<Rightarrow> Some x | None \<Rightarrow> r) es None"

lemma first_err_simps [simp]:
  "first_err [] = None"
  "first_err (e # es) = (case e of Some x \<Rightarrow> Some x | None \<Rightarrow> first_err es)"
  by (simp_all add: first_err_def split: option.split)

lemma first_err_None: "first_err es = None \<longleftrightarrow> (\<forall>e \<in> set es. e = None)"
  by (induction es) (auto split: option.splits)

lemma first_err_Some: "first_err es = Some e \<Longrightarrow> Some e \<in> set es"
  by (induction es) (auto split: option.splits)

definition ParseReceipt :: "'x ext_scheme \<Rightarrow> string \<Rightarrow> goerr + Receipt" where
  "ParseReceipt x raw =
    (if raw = [] \<or> MaxContractJSONBytes < length raw
     then Inl (ErrMsg ''admission receipt exceeds size limit'')
     else (case Decode raw unmarshal_Receipt allowContract of
         Inl e \<Rightarrow> Inl e
       | Inr r \<Rightarrow>
           (case first_err [RequireKeys (parse_json raw) [''namespace'', ''genesisName'', ''genesisUID'', ''contract''],
               requireContractKeys (raw_field (parse_json raw) ''contract''),
               Receipt_Validate x r] of
              Some e \<Rightarrow> Inl e
            | None \<Rightarrow> Inr r)))"

definition decodeGenesis :: "string \<Rightarrow> Receipt \<Rightarrow> goerr + GenesisData" where
  "decodeGenesis raw r =
    (if raw = [] \<or> MaxContractJSONBytes < length raw
     then Inl (ErrMsg ''admission Genesis exceeds size limit'')
     else (case Decode raw unmarshal_GenesisData allowContract of
         Inl e \<Rightarrow> Inl e
       | Inr g \<Rightarrow>
           (case first_err [RequireKeys (parse_json raw) [''contract'', ''phase'', ''activeLedgerUID'', ''queueLedgerUID''],
               requireContractKeys (raw_field (parse_json raw) ''contract'')] of
              Some e \<Rightarrow> Inl e
            | None \<Rightarrow>
                if GenesisContract g \<noteq> ReceiptContract r \<or>
                   (GenesisPhase g \<noteq> PhaseInitializing \<and> GenesisPhase g \<noteq> PhaseCommitted) \<or>
                   (ActiveLedgerUID g \<noteq> [] \<and> \<not> ValidUID (ActiveLedgerUID g)) \<or>
                   (QueueLedgerUID g \<noteq> [] \<and> \<not> ValidUID (QueueLedgerUID g)) \<or>
                   (GenesisPhase g = PhaseCommitted \<and> (ActiveLedgerUID g = [] \<or> QueueLedgerUID g = []))
                then Inl (ErrMsg ''admission Genesis has invalid contract or phase'')
                else Inr g)))"

section \<open>Qualification of Kubernetes objects\<close>

definition ContractDigest :: "'x ext_scheme \<Rightarrow> Receipt \<Rightarrow> goerr + string" where
  "ContractDigest x r =
    (case Receipt_Validate x r of
       Some e \<Rightarrow> Inl e
     | None \<Rightarrow> Inr (sha256_hex (print_json (marshal_Contract (ReceiptContract r)))))"

text \<open>The nil pointer is \<open>None\<close>.\<close>

definition QualifyNamespace :: "'x ext_scheme \<Rightarrow> Receipt \<Rightarrow> namespace option \<Rightarrow> goerr option" where
  "QualifyNamespace x r ns =
    (case Receipt_Validate x r of
       Some e \<Rightarrow> Some e
     | None \<Rightarrow>
         (case ns of
            None \<Rightarrow> Some (ErrMsg ''original admission Namespace is unavailable or changed'')
          | Some n \<Rightarrow>
              if Name (ns_meta n) \<noteq> ReceiptTarget r \<or> UID (ns_meta n) \<noteq> NamespaceUID (ReceiptContract r) \<or>
                 DeletionTimestamp (ns_meta n) \<noteq> None \<or> NsPhase n \<noteq> NamespaceActive
              then Some (ErrMsg ''original admission Namespace is unavailable or changed'') else None))"

definition QualifyReceiptNamespace :: "'x ext_scheme \<Rightarrow> Receipt \<Rightarrow> namespace option \<Rightarrow> goerr option" where
  "QualifyReceiptNamespace x r ns =
    (case Receipt_Validate x r of
       Some e \<Rightarrow> Some e
     | None \<Rightarrow>
         (case ns of
            None \<Rightarrow> Some (ErrMsg ''original recovery receipt Namespace is unavailable or changed'')
          | Some n \<Rightarrow>
              if Name (ns_meta n) \<noteq> ReceiptNamespace (ReceiptContract r) \<or>
                 UID (ns_meta n) \<noteq> ReceiptNamespaceUID (ReceiptContract r) \<or>
                 DeletionTimestamp (ns_meta n) \<noteq> None \<or> NsPhase n \<noteq> NamespaceActive
              then Some (ErrMsg ''original recovery receipt Namespace is unavailable or changed'') else None))"

definition QualifyGenesis :: "'x ext_scheme \<Rightarrow> Receipt \<Rightarrow> configmap option \<Rightarrow> goerr + GenesisData" where
  "QualifyGenesis x r cm =
    (case Receipt_Validate x r of
       Some e \<Rightarrow> Inl e
     | None \<Rightarrow>
         (case cm of
            None \<Rightarrow> Inl (ErrMsg ''original admission Genesis is unavailable or changed'')
          | Some c \<Rightarrow>
              if Namespace (cm_meta c) \<noteq> ReceiptTarget r \<or> Name (cm_meta c) \<noteq> GenesisName r \<or>
                 UID (cm_meta c) \<noteq> GenesisUID r \<or> ResourceVersion (cm_meta c) = [] \<or>
                 DeletionTimestamp (cm_meta c) \<noteq> None \<or> length (Data c) \<noteq> 1 \<or> length (BinaryData c) \<noteq> 0
              then Inl (ErrMsg ''original admission Genesis is unavailable or changed'')
              else (case decodeGenesis (mget (Data c) GenesisDataKey) r of
                  Inl e \<Rightarrow> Inl e
                | Inr g \<Rightarrow>
                    if (GenesisPhase g = PhaseInitializing \<and> Immutable c = Some True) \<or>
                       (GenesisPhase g = PhaseCommitted \<and> Immutable c \<noteq> Some True)
                    then Inl (ErrMsg ''admission Genesis immutable state disagrees with phase'')
                    else Inr g)))"

definition RoleFacts :: "Receipt \<Rightarrow> Role \<Rightarrow> (string \<times> int) option" where
  "RoleFacts r role =
    (case role of
       Active \<Rightarrow> Some (ActiveLedgerName (ReceiptContract r), ActiveLedgerSchema (ReceiptContract r))
     | Queue \<Rightarrow> Some (QueueLedgerName (ReceiptContract r), QueueLedgerSchema (ReceiptContract r))
     | OtherRole _ \<Rightarrow> None)"

definition ledgerAnnotations :: "'x ext_scheme \<Rightarrow> Receipt \<Rightarrow> Role \<Rightarrow> string \<Rightarrow> goerr + (string, string) gomap" where
  "ledgerAnnotations x r role att =
    (case Receipt_Validate x r of
       Some e \<Rightarrow> Inl e
     | None \<Rightarrow>
         (case RoleFacts r role of
            None \<Rightarrow> Inl (ErrMsg ''invalid admission ledger creation attempt'')
          | Some (_, schema) \<Rightarrow>
              if \<not> validNonce att then Inl (ErrMsg ''invalid admission ledger creation attempt'')
              else (case ContractDigest x r of
                  Inl e \<Rightarrow> Inl e
                | Inr digest \<Rightarrow> Inr (
                    mput annotationNamespace (NamespaceUID (ReceiptContract r)) (
                    mput annotationGenesis (GenesisUID r) (
                    mput annotationGeneration (ContractGeneration (ReceiptContract r)) (
                    mput annotationContract digest (
                    mput annotationRole (role_string role) (
                    mput annotationSchema (dec_int schema) (
                    mput annotationAttempt att [])))))))))) "

definition NewLedgerObject ::
  "'x ext_scheme \<Rightarrow> Receipt \<Rightarrow> Role \<Rightarrow> string \<Rightarrow> string \<Rightarrow> string \<Rightarrow> goerr + configmap" where
  "NewLedgerObject x r role dataKey emptyData att =
    (case RoleFacts r role of
       None \<Rightarrow> Inl (ErrMsg ''invalid admission ledger template'')
     | Some (nm, _) \<Rightarrow>
         if dataKey = [] \<or> emptyData = [] \<or> MaxLedgerDataBytes < length emptyData
         then Inl (ErrMsg ''invalid admission ledger template'')
         else (case ledgerAnnotations x r role att of
             Inl e \<Rightarrow> Inl e
           | Inr annotations \<Rightarrow> Inr
               \<lparr>cm_meta = empty_meta\<lparr>Namespace := ReceiptTarget r, Name := nm, Annotations := annotations\<rparr>,
                Immutable = None, Data = [(dataKey, emptyData)], BinaryData = []\<rparr>))"

definition QualifyLedgerIdentity :: "'x ext_scheme \<Rightarrow> Receipt \<Rightarrow> configmap option \<Rightarrow> Role \<Rightarrow> goerr option" where
  "QualifyLedgerIdentity x r cm role =
    (case RoleFacts r role of
       None \<Rightarrow> Some (ErrMsg ''invalid admission ledger receipt'')
     | Some (nm, schema) \<Rightarrow>
         if Receipt_Validate x r \<noteq> None then Some (ErrMsg ''invalid admission ledger receipt'')
         else (case cm of
             None \<Rightarrow> Some (ErrMsg ''admission ledger original identity is unavailable or changed'')
           | Some c \<Rightarrow>
               if Namespace (cm_meta c) \<noteq> ReceiptTarget r \<or> Name (cm_meta c) \<noteq> nm \<or>
                  \<not> ValidUID (UID (cm_meta c)) \<or> ResourceVersion (cm_meta c) = [] \<or>
                  DeletionTimestamp (cm_meta c) \<noteq> None \<or> Immutable c = Some True \<or>
                  length (Annotations (cm_meta c)) \<noteq> 7
               then Some (ErrMsg ''admission ledger original identity is unavailable or changed'')
               else let a = Annotations (cm_meta c);
                        digest = (case ContractDigest x r of Inl _ \<Rightarrow> [] | Inr d \<Rightarrow> d) in
                 if mget a annotationNamespace \<noteq> NamespaceUID (ReceiptContract r) \<or>
                    mget a annotationGenesis \<noteq> GenesisUID r \<or>
                    mget a annotationGeneration \<noteq> ContractGeneration (ReceiptContract r) \<or>
                    mget a annotationContract \<noteq> digest \<or>
                    mget a annotationRole \<noteq> role_string role \<or>
                    mget a annotationSchema \<noteq> dec_int schema \<or>
                    \<not> validNonce (mget a annotationAttempt)
                 then Some (ErrMsg ''admission ledger installation annotations differ from receipt'')
                 else None))"

section \<open>Results\<close>

lemma annotation_names_distinct:
  "distinct [annotationNamespace, annotationGenesis, annotationGeneration, annotationContract,
     annotationRole, annotationSchema, annotationAttempt]"
  by simp

lemma length_mput_new: "go_map m \<Longrightarrow> map_of m k = None \<Longrightarrow> length (mput k v m) = Suc (length m)"
  by (simp add: length_mput)

lemma ledgerAnnotations_facts:
  assumes "ledgerAnnotations x r role att = Inr a" and "RoleFacts r role = Some (nm, schema)"
  shows "length a = 7" and "mget a annotationNamespace = NamespaceUID (ReceiptContract r)"
    and "mget a annotationGenesis = GenesisUID r"
    and "mget a annotationGeneration = ContractGeneration (ReceiptContract r)"
    and "ContractDigest x r = Inr (mget a annotationContract)"
    and "mget a annotationRole = role_string role"
    and "mget a annotationSchema = dec_int schema"
    and "validNonce (mget a annotationAttempt)"
    and "Receipt_Validate x r = None"
  using assms
  by (auto simp: ledgerAnnotations_def mget_def length_mput_new go_map_mput map_of_mput
      split: option.splits if_splits sum.splits)

text \<open>The object a Create request builds is the object that later reads accept, once the server has
  given it a UID and a version.\<close>

lemma NewLedgerObject_qualifies:
  assumes "NewLedgerObject x r role dataKey emptyData att = Inr cm"
    and "ValidUID u" and "v \<noteq> []"
  shows "QualifyLedgerIdentity x r (Some (cm\<lparr>cm_meta := (cm_meta cm)\<lparr>UID := u, ResourceVersion := v\<rparr>\<rparr>)) role = None"
proof -
  from assms(1) obtain nm schema a where facts: "RoleFacts r role = Some (nm, schema)"
    and a: "ledgerAnnotations x r role att = Inr a"
    and cm: "cm = \<lparr>cm_meta = empty_meta\<lparr>Namespace := ReceiptTarget r, Name := nm, Annotations := a\<rparr>,
        Immutable = None, Data = [(dataKey, emptyData)], BinaryData = []\<rparr>"
    by (auto simp: NewLedgerObject_def split: option.splits prod.splits if_splits sum.splits)
  note f = ledgerAnnotations_facts [OF a facts]
  from f(5) have d: "(case ContractDigest x r of Inl _ \<Rightarrow> [] | Inr d \<Rightarrow> d) = mget a annotationContract" by simp
  show ?thesis
    using assms(2,3) facts f by (simp add: QualifyLedgerIdentity_def cm d empty_meta_def Let_def)
qed

end
