(* ===== verification/Event_Log.thy ===== *)
theory Event_Log
  imports Kube
begin

text \<open>
  Reasoning about operations that share the API server with other processes. The ghost function
  \<open>log\<close> maps a world to the events so far. An operation \<^emph>\<open>grows\<close> the log by a relation \<open>R\<close> when every
  event it adds itself satisfies \<open>R\<close> at its position, whatever others add in between, and it is
  \<^emph>\<open>quiet\<close> when it adds none.
\<close>

datatype obj = OConfigMap configmap | OBuild KovaBuild | OPod pod

datatype kind = KConfigMap | KBuild | KPod

type_synonym okey = "kind \<times> string \<times> string"

datatype request =
    ReqCreate okey obj
  | ReqUpdate okey obj
  | ReqPatch okey string
  | ReqDelete okey "string option"

datatype event =
    Env okey "obj option"
  | Sent request
  | Own okey "obj option"

fun is_env :: "event \<Rightarrow> bool" where
  "is_env (Env k v) = True"
| "is_env _ = False"

fun is_own :: "event \<Rightarrow> bool" where
  "is_own (Own k v) = True"
| "is_own _ = False"

text \<open>The stored object under a key, and all objects ever stored under it.\<close>

fun effect :: "okey \<Rightarrow> obj option \<Rightarrow> event \<Rightarrow> obj option" where
  "effect k old (Env k' v) = (if k' = k then v else old)"
| "effect k old (Own k' v) = (if k' = k then v else old)"
| "effect k old (Sent q) = old"

definition current :: "event list \<Rightarrow> okey \<Rightarrow> obj option" where
  "current l k = foldl (effect k) None l"

lemma snoc_positions:
  "(\<forall>p a q. l @ [e] = p @ a # q \<longrightarrow> P p a) \<longleftrightarrow> (\<forall>p a q. l = p @ a # q \<longrightarrow> P p a) \<and> P l e"
proof (intro iffI conjI allI impI)
  fix p a q
  assume "(\<forall>p a q. l = p @ a # q \<longrightarrow> P p a) \<and> P l e" and "l @ [e] = p @ a # q"
  then show "P p a" by (cases q rule: rev_cases) auto
qed auto

definition stored :: "event list \<Rightarrow> okey \<Rightarrow> obj \<Rightarrow> bool" where
  "stored l k v \<longleftrightarrow> Env k (Some v) \<in> set l \<or> Own k (Some v) \<in> set l"

lemma current_Nil [simp]: "current [] k = None"
  by (simp add: current_def)

lemma current_snoc [simp]: "current (l @ [e]) k = effect k (current l k) e"
  by (simp add: current_def)

lemma current_stored: "current l k = Some v \<Longrightarrow> stored l k v"
proof (induction l rule: rev_induct)
  case (snoc e l)
  then show ?case by (cases e) (auto simp: stored_def split: if_splits)
qed simp

lemma stored_append: "stored l k v \<Longrightarrow> stored (l @ m) k v"
  by (auto simp: stored_def)

section \<open>Growth\<close>

inductive grows :: "(event list \<Rightarrow> event \<Rightarrow> bool) \<Rightarrow> event list \<Rightarrow> event list \<Rightarrow> bool"
  for R :: "event list \<Rightarrow> event \<Rightarrow> bool" where
  refl: "grows R l l"
| env: "grows R l m \<Longrightarrow> grows R l (m @ [Env k v])"
| own: "grows R l m \<Longrightarrow> \<not> is_env e \<Longrightarrow> R m e \<Longrightarrow> grows R l (m @ [e])"

text \<open>No event of this process.\<close>

abbreviation still :: "event list \<Rightarrow> event list \<Rightarrow> bool" where
  "still \<equiv> grows (\<lambda>_ _. False)"

lemma grows_trans: "grows R m n \<Longrightarrow> grows R l m \<Longrightarrow> grows R l n"
  by (induction rule: grows.induct) (auto intro: grows.intros)

lemma grows_mono: "grows R l m \<Longrightarrow> (\<And>h e. R h e \<Longrightarrow> S h e) \<Longrightarrow> grows S l m"
  by (induction rule: grows.induct) (auto intro: grows.intros)

lemma still_grows: "still l m \<Longrightarrow> grows R l m"
  by (erule grows_mono) simp

lemma grows_prefix: "grows R l m \<Longrightarrow> \<exists>x. m = l @ x"
  by (induction rule: grows.induct) auto

lemma grows_mono_prefix:
  "grows R l m \<Longrightarrow> (\<And>h e. \<exists>x. h = l @ x \<Longrightarrow> R h e \<Longrightarrow> S h e) \<Longrightarrow> grows S l m"
proof (induction rule: grows.induct)
  case (own l m e)
  then show ?case using grows_prefix [OF own.hyps(1)] by (intro grows.own) auto
qed (auto intro: grows.intros)

text \<open>A key was free at some time between two logs.\<close>

definition absent_between :: "okey \<Rightarrow> event list \<Rightarrow> event list \<Rightarrow> bool" where
  "absent_between k l m \<longleftrightarrow> (\<exists>a b. m = l @ a @ b \<and> current (l @ a) k = None)"

lemma absent_between_now: "grows R l m \<Longrightarrow> current m k = None \<Longrightarrow> absent_between k l m"
  using grows_prefix [of R l m] unfolding absent_between_def by (metis append_Nil2)

lemma absent_between_mono:
  assumes "absent_between k l m" and "grows R l' l" and "grows S m m'"
  shows "absent_between k l' m'"
proof -
  obtain a b where "m = l @ a @ b" "current (l @ a) k = None"
    using assms(1) unfolding absent_between_def by blast
  moreover obtain c d where "l = l' @ c" "m' = m @ d"
    using grows_prefix [OF assms(2)] grows_prefix [OF assms(3)] by blast
  ultimately show ?thesis
    unfolding absent_between_def by (intro exI [of _ "c @ a"] exI [of _ "b @ d"]) simp
qed

lemma absent_between_append: "absent_between k l m \<Longrightarrow> absent_between k l (m @ x)"
  unfolding absent_between_def by (metis append.assoc)

lemma grows_stored: "grows R l m \<Longrightarrow> stored l k v \<Longrightarrow> stored m k v"
  by (auto dest: grows_prefix intro: stored_append)

lemma grows_step: "\<not> is_env e \<Longrightarrow> R l e \<Longrightarrow> grows R l (l @ [e])"
  by (rule grows.own [OF grows.refl])

text \<open>The relation of the own events of a longer log.\<close>

lemma grows_own_event:
  assumes "grows R l m" and "m = l @ xs @ e # ys" and "\<not> is_env e"
  shows "R (l @ xs) e"
  using assms
proof (induction arbitrary: ys rule: grows.induct)
  case (env l m k v)
  then show ?case by (cases ys rule: rev_cases) auto
next
  case (own l m e')
  then show ?case by (cases ys rule: rev_cases) auto
qed simp

definition own_commits :: "event list \<Rightarrow> event list \<Rightarrow> nat" where
  "own_commits l m = length (filter is_own (drop (length l) m))"

lemma own_commits_refl [simp]: "own_commits l l = 0"
  by (simp add: own_commits_def)

lemma own_commits_snoc:
  "length l \<le> length m \<Longrightarrow> own_commits l (m @ [e]) = own_commits l m + (if is_own e then 1 else 0)"
  by (simp add: own_commits_def)

lemma still_own_commits: "still m n \<Longrightarrow> grows R l m \<Longrightarrow> own_commits l n = own_commits l m"
proof (induction rule: grows.induct)
  case (env m n k v)
  then have "length l \<le> length n" using grows_prefix [OF env.hyps] grows_prefix [OF env.prems] by auto
  with env show ?case by (simp add: own_commits_snoc)
qed auto

section \<open>Operations that keep to a relation\<close>

text \<open>Every own event of the operation is allowed by \<open>R\<close>, if the versions in \<open>K\<close> were stored before.\<close>

definition knows :: "(okey \<times> obj) set \<Rightarrow> event list \<Rightarrow> bool" where
  "knows K l \<longleftrightarrow> (\<forall>(k, v) \<in> K. stored l k v)"

lemma knows_simps [simp]: "knows {} l" "knows (insert (k, v) K) l \<longleftrightarrow> stored l k v \<and> knows K l"
  by (auto simp: knows_def)

lemma knows_grows: "knows K l \<Longrightarrow> grows R l m \<Longrightarrow> knows K m"
  by (auto simp: knows_def intro: grows_stored)

definition keeps_given ::
  "(okey \<times> obj) set \<Rightarrow> ('w \<Rightarrow> event list) \<Rightarrow> (event list \<Rightarrow> event \<Rightarrow> bool) \<Rightarrow> ('w, 'a) op \<Rightarrow> bool" where
  "keeps_given K log R m \<longleftrightarrow> (\<forall>w. knows K (log w) \<longrightarrow> wp m (\<lambda>_ w'. grows R (log w) (log w')) w)"

abbreviation keeps :: "('w \<Rightarrow> event list) \<Rightarrow> (event list \<Rightarrow> event \<Rightarrow> bool) \<Rightarrow> ('w, 'a) op \<Rightarrow> bool" where
  "keeps \<equiv> keeps_given {}"

abbreviation quiet :: "('w \<Rightarrow> event list) \<Rightarrow> ('w, 'a) op \<Rightarrow> bool" where
  "quiet log \<equiv> keeps log (\<lambda>_ _. False)"

named_theorems keeps_intros \<open>closure rules for operations that keep to a relation\<close>

lemma keepsD: "keeps_given K log R m \<Longrightarrow> knows K (log w) \<Longrightarrow> wp m (\<lambda>_ w'. grows R (log w) (log w')) w"
  by (simp add: keeps_given_def)

lemma keeps_ret [keeps_intros]: "keeps_given K log R (ret x)"
  by (simp add: keeps_given_def wp_ret grows.refl)

lemma keeps_bind [keeps_intros]:
  assumes "keeps_given K log R m" and "\<And>x. keeps_given K log R (f x)"
  shows "keeps_given K log R (State_Monad.bind m f)"
  unfolding keeps_given_def wp_bind
proof (intro allI impI)
  fix w
  assume K: "knows K (log w)"
  show "wp m (\<lambda>x. wp (f x) (\<lambda>_ w'. grows R (log w) (log w'))) w"
    by (rule wp_mono [OF keepsD [OF assms(1) K]])
      (rule wp_mono [OF keepsD [OF assms(2)]], auto intro: grows_trans knows_grows [OF K])
qed

text \<open>The second part may use what is known of the result of the first.\<close>

lemma keeps_bind_post:
  assumes "keeps_given K log R m" and "\<And>w. wp m (\<lambda>r _. P r) w" and "\<And>r. P r \<Longrightarrow> keeps_given K log R (f r)"
  shows "keeps_given K log R (State_Monad.bind m f)"
  unfolding keeps_given_def wp_bind
proof (intro allI impI)
  fix w
  assume K: "knows K (log w)"
  show "wp m (\<lambda>x. wp (f x) (\<lambda>_ w'. grows R (log w) (log w'))) w"
    by (rule wp_mono [OF wp_conj [OF keepsD [OF assms(1) K] assms(2)]], elim conjE)
      (rule wp_mono [OF keepsD [OF assms(3)]], auto intro: grows_trans knows_grows [OF K])
qed

lemma keeps_if [keeps_intros]:
  "(b \<Longrightarrow> keeps_given K log R m) \<Longrightarrow> (\<not> b \<Longrightarrow> keeps_given K log R n) \<Longrightarrow> keeps_given K log R (if b then m else n)"
  by simp

lemma keeps_case_sum [keeps_intros]:
  "(\<And>e. r = Inl e \<Longrightarrow> keeps_given K log R (f e)) \<Longrightarrow> (\<And>x. r = Inr x \<Longrightarrow> keeps_given K log R (g x)) \<Longrightarrow>
     keeps_given K log R (case r of Inl e \<Rightarrow> f e | Inr x \<Rightarrow> g x)"
  by (cases r) auto

lemma keeps_case_option [keeps_intros]:
  "(r = None \<Longrightarrow> keeps_given K log R m) \<Longrightarrow> (\<And>x. r = Some x \<Longrightarrow> keeps_given K log R (f x)) \<Longrightarrow>
     keeps_given K log R (case r of None \<Rightarrow> m | Some x \<Rightarrow> f x)"
  by (cases r) auto

lemma keeps_case_prod [keeps_intros]:
  "(\<And>a b. r = (a, b) \<Longrightarrow> keeps_given K log R (f a b)) \<Longrightarrow> keeps_given K log R (case r of (a, b) \<Rightarrow> f a b)"
  by (cases r) auto

lemma keeps_Let [keeps_intros]: "keeps_given K log R (f x) \<Longrightarrow> keeps_given K log R (let y = x in f y)"
  by simp

lemma keeps_attempt [keeps_intros]:
  "keeps_given K log R m \<Longrightarrow> (\<And>x. keeps_given K log R (k x)) \<Longrightarrow> keeps_given K log R (attempt m k)"
  unfolding attempt_def by (intro keeps_intros) auto

lemma keeps_attemptE [keeps_intros]:
  "keeps_given K log R m \<Longrightarrow> (\<And>x. keeps_given K log R (k x)) \<Longrightarrow> keeps_given K log R (attemptE m k)"
  unfolding attemptE_def by (intro keeps_intros) auto

lemma keeps_guard [keeps_intros]: "keeps_given K log R m \<Longrightarrow> keeps_given K log R k \<Longrightarrow> keeps_given K log R (guard m k)"
  unfolding guard_def by (intro keeps_intros) auto

lemma keeps_guardE [keeps_intros]: "keeps_given K log R m \<Longrightarrow> keeps_given K log R k \<Longrightarrow> keeps_given K log R (guardE m k)"
  unfolding guardE_def by (intro keeps_intros) auto

lemma keeps_rtry [keeps_intros]:
  "keeps_given K log R m \<Longrightarrow> (\<And>x. keeps_given K log R (k x)) \<Longrightarrow> keeps_given K log R (rtry m k)"
  unfolding rtry_def by (intro keeps_intros) auto

lemma keeps_rtryE [keeps_intros]:
  "keeps_given K log R m \<Longrightarrow> (\<And>x. keeps_given K log R (k x)) \<Longrightarrow> keeps_given K log R (rtryE m k)"
  unfolding rtryE_def by (intro keeps_intros) auto

lemma keeps_rguard [keeps_intros]: "keeps_given K log R m \<Longrightarrow> keeps_given K log R k \<Longrightarrow> keeps_given K log R (rguard m k)"
  unfolding rguard_def by (intro keeps_intros) auto

lemma keeps_rguardE [keeps_intros]: "keeps_given K log R m \<Longrightarrow> keeps_given K log R k \<Longrightarrow> keeps_given K log R (rguardE m k)"
  unfolding rguardE_def by (intro keeps_intros) auto

lemma keeps_weaken: "keeps log R m \<Longrightarrow> keeps_given K log R m"
  by (auto simp: keeps_given_def)

lemma quiet_keeps: "quiet log m \<Longrightarrow> keeps_given K log R m"
  unfolding keeps_given_def by (auto intro: wp_mono still_grows)

lemma keeps_mono: "keeps_given K log R m \<Longrightarrow> (\<And>h e. R h e \<Longrightarrow> S h e) \<Longrightarrow> keeps_given K log S m"
  unfolding keeps_given_def by (blast intro: wp_mono grows_mono)

lemma keeps_retry_from [keeps_intros]:
  assumes "\<And>i. keeps_given K log R (body i)" and "keeps_given K log R rest"
  shows "keeps_given K log R (retry_from i n body rest)"
proof (induction n arbitrary: i)
  case (Suc n)
  show ?case unfolding retry_from.simps
    by (intro keeps_bind assms) (auto split: round.split intro: Suc keeps_ret)
qed (simp add: assms)

lemma keeps_for_retry [keeps_intros]:
  "(\<And>i. keeps_given K log R (body i)) \<Longrightarrow> keeps_given K log R rest \<Longrightarrow> keeps_given K log R (for_retry n body rest)"
  unfolding for_retry_def by (rule keeps_retry_from)

lemma keeps_ttry [keeps_intros]:
  "keeps_given K log R m \<Longrightarrow> (\<And>x. keeps_given K log R (k x)) \<Longrightarrow> keeps_given K log R (ttry fail m k)"
  unfolding ttry_def by (intro keeps_intros) auto

lemma keeps_tguard [keeps_intros]:
  "keeps_given K log R m \<Longrightarrow> keeps_given K log R k \<Longrightarrow> keeps_given K log R (tguard fail m k)"
  unfolding tguard_def by (intro keeps_intros) auto

lemma keeps_for_loop [keeps_intros]:
  assumes "\<And>i s. keeps_given K log R (body i s)" and "\<And>s. keeps_given K log R (rest s)"
  shows "keeps_given K log R (for_loop n s body rest)"
proof -
  have "keeps_given K log R (loop_from i n s body rest)" for i
  proof (induction n arbitrary: i s)
    case (Suc n)
    show ?case unfolding loop_from.simps
      by (intro keeps_bind assms) (auto split: turn.split intro: Suc keeps_ret)
  qed (simp add: assms)
  then show ?thesis by (simp add: for_loop_def)
qed

lemma keeps_via [keeps_intros]:
  "(\<And>x. r = Some x \<Longrightarrow> keeps_given K log R (f x)) \<Longrightarrow> keeps_given K log R (via r f)"
  unfolding via_def by (intro keeps_intros)

lemma keeps_viaE [keeps_intros]:
  "(\<And>x. r = Some x \<Longrightarrow> keeps_given K log R (f x)) \<Longrightarrow> keeps_given K log R (viaE r f)"
  unfolding viaE_def by (intro keeps_intros)

lemma keeps_rtryE_post:
  assumes "keeps_given K log R m" and "\<And>w. wp m (\<lambda>r _. \<forall>b. r = Inr b \<longrightarrow> P b) w"
    and "\<And>b. P b \<Longrightarrow> keeps_given K log R (f b)"
  shows "keeps_given K log R (rtryE m f)"
  unfolding rtryE_def
  by (rule keeps_bind_post [OF assms(1,2)]) (auto intro: keeps_ret assms(3) split: sum.split)

text \<open>What the results of an operation always satisfy, with the corresponding sequencing rules.\<close>

definition results :: "('w, goerr + 'a) op \<Rightarrow> ('a \<Rightarrow> bool) \<Rightarrow> bool" where
  "results m P \<longleftrightarrow> (\<forall>w. wp m (\<lambda>r _. \<forall>v. r = Inr v \<longrightarrow> P v) w)"

definition succeeds_if :: "('w, goerr option) op \<Rightarrow> bool \<Rightarrow> bool" where
  "succeeds_if m P \<longleftrightarrow> (\<forall>w. wp m (\<lambda>r _. r = None \<longrightarrow> P) w)"

named_theorems results_intros \<open>closure rules for facts about results\<close>

lemma results_ret [results_intros]: "(\<And>v. q = Inr v \<Longrightarrow> P v) \<Longrightarrow> results (ret q) P"
  by (simp add: results_def wp_ret)

lemma results_attempt [results_intros]: "(\<And>v. results (k v) P) \<Longrightarrow> results (attempt m k) P"
  unfolding results_def wp_attempt by (intro allI wpI) (auto split: sum.split)

lemma results_attempt_post:
  assumes "results m Q" and "\<And>v. Q v \<Longrightarrow> results (k v) P"
  shows "results (attempt m k) P"
  unfolding results_def wp_attempt
proof
  fix w
  have "wp m (\<lambda>r _. \<forall>v. r = Inr v \<longrightarrow> Q v) w" using assms(1) by (simp add: results_def)
  then show "wp m (\<lambda>r w'. case r of Inl e \<Rightarrow> \<forall>v. Inl e = Inr v \<longrightarrow> P v
      | Inr x \<Rightarrow> wp (k x) (\<lambda>r _. \<forall>v. r = Inr v \<longrightarrow> P v) w') w"
    by (rule wp_mono) (use assms(2) in \<open>auto simp: results_def split: sum.split\<close>)
qed

lemma results_guard [results_intros]: "results k P \<Longrightarrow> results (guard m k) P"
  unfolding results_def wp_guard by (intro allI wpI) (auto split: option.split)

lemma results_guard_post: "succeeds_if m Q \<Longrightarrow> (Q \<Longrightarrow> results k P) \<Longrightarrow> results (guard m k) P"
  unfolding results_def succeeds_if_def wp_guard
  by (intro allI, rule wp_mono [of m "\<lambda>r _. r = None \<longrightarrow> Q"]) (auto split: option.split)

lemma results_bind [results_intros]: "(\<And>q. results (f q) P) \<Longrightarrow> results (State_Monad.bind m f) P"
  unfolding results_def wp_bind by (intro allI, rule wpI) simp

lemma results_if [results_intros]: "(b \<Longrightarrow> results m P) \<Longrightarrow> (\<not> b \<Longrightarrow> results n P) \<Longrightarrow> results (if b then m else n) P"
  by simp

lemma results_case_option [results_intros]:
  "(r = None \<Longrightarrow> results m P) \<Longrightarrow> (\<And>v. r = Some v \<Longrightarrow> results (f v) P) \<Longrightarrow> results (case r of None \<Rightarrow> m | Some v \<Rightarrow> f v) P"
  by (cases r) auto

lemma results_case_sum [results_intros]:
  "(\<And>e. r = Inl e \<Longrightarrow> results (f e) P) \<Longrightarrow> (\<And>v. r = Inr v \<Longrightarrow> results (g v) P) \<Longrightarrow>
     results (case r of Inl e \<Rightarrow> f e | Inr v \<Rightarrow> g v) P"
  by (cases r) auto

lemma results_case_prod [results_intros]:
  "(\<And>a b. r = (a, b) \<Longrightarrow> results (f a b) P) \<Longrightarrow> results (case r of (a, b) \<Rightarrow> f a b) P"
  by (cases r) auto

lemma results_Let [results_intros]: "results (f v) P \<Longrightarrow> results (let y = v in f y) P"
  by simp

lemma keeps_bind_results:
  "keeps_given K log R m \<Longrightarrow> results m P \<Longrightarrow> (\<And>e. keeps_given K log R (f (Inl e))) \<Longrightarrow>
     (\<And>v. P v \<Longrightarrow> keeps_given K log R (f (Inr v))) \<Longrightarrow> keeps_given K log R (State_Monad.bind m f)"
  by (rule keeps_bind_post [where P = "\<lambda>r. \<forall>v. r = Inr v \<longrightarrow> P v"])
    (auto simp: results_def split: sum.split, metis sum.exhaust)

lemma keeps_attempt_results:
  "keeps_given K log R m \<Longrightarrow> results m P \<Longrightarrow> (\<And>v. P v \<Longrightarrow> keeps_given K log R (k v)) \<Longrightarrow> keeps_given K log R (attempt m k)"
  unfolding attempt_def by (rule keeps_bind_results [where P = P]) (auto intro: keeps_ret)

lemma keeps_attemptE_results:
  "keeps_given K log R m \<Longrightarrow> results m P \<Longrightarrow> (\<And>v. P v \<Longrightarrow> keeps_given K log R (k v)) \<Longrightarrow> keeps_given K log R (attemptE m k)"
  unfolding attemptE_def by (rule keeps_bind_results [where P = P]) (auto intro: keeps_ret)

lemma keeps_ttry_results:
  "keeps_given K log R m \<Longrightarrow> results m P \<Longrightarrow> (\<And>v. P v \<Longrightarrow> keeps_given K log R (k v)) \<Longrightarrow> keeps_given K log R (ttry fail m k)"
  unfolding ttry_def by (rule keeps_bind_results [where P = P]) (auto intro: keeps_ret)

lemma keeps_rguard_succeeds:
  assumes "keeps_given K log R m" and "succeeds_if m P" and "P \<Longrightarrow> keeps_given K log R k"
  shows "keeps_given K log R (rguard m k)"
  unfolding rguard_def
  by (rule keeps_bind_post [OF assms(1), where P = "\<lambda>r. r = None \<longrightarrow> P"])
    (use assms(2,3) in \<open>auto simp: succeeds_if_def intro: keeps_ret split: option.split\<close>)

lemma succeeds_if_ret [results_intros]: "(e = None \<Longrightarrow> P) \<Longrightarrow> succeeds_if (ret e) P"
  by (simp add: succeeds_if_def wp_ret)

lemma succeeds_if_guardE [results_intros]: "succeeds_if k P \<Longrightarrow> succeeds_if (guardE m k) P"
  unfolding succeeds_if_def wp_guardE by (intro allI wpI) (auto split: option.split)

lemma succeeds_if_attemptE [results_intros]: "(\<And>v. succeeds_if (k v) P) \<Longrightarrow> succeeds_if (attemptE m k) P"
  unfolding succeeds_if_def wp_attemptE by (intro allI wpI) (auto split: sum.split)

lemma succeeds_if_bind [results_intros]: "(\<And>q. succeeds_if (f q) P) \<Longrightarrow> succeeds_if (State_Monad.bind m f) P"
  unfolding succeeds_if_def wp_bind by (intro allI, rule wpI) simp

lemma succeeds_if_if [results_intros]:
  "(b \<Longrightarrow> succeeds_if m P) \<Longrightarrow> (\<not> b \<Longrightarrow> succeeds_if n P) \<Longrightarrow> succeeds_if (if b then m else n) P"
  by simp

section \<open>Reads whose result was stored\<close>

text \<open>A quiet operation whose results satisfy \<open>P\<close> and come with versions \<open>N\<close> that were stored.\<close>

definition yields ::
  "('w \<Rightarrow> event list) \<Rightarrow> ('w, goerr + 'a) op \<Rightarrow> ('a \<Rightarrow> bool) \<Rightarrow> ('a \<Rightarrow> (okey \<times> obj) set) \<Rightarrow> bool" where
  "yields log m P N \<longleftrightarrow>
     (\<forall>w. wp m (\<lambda>r w'. still (log w) (log w') \<and> (\<forall>v. r = Inr v \<longrightarrow> P v \<and> knows (N v) (log w'))) w)"

lemma yieldsD:
  "yields log m P N \<Longrightarrow>
     wp m (\<lambda>r w'. still (log w) (log w') \<and> (\<forall>v. r = Inr v \<longrightarrow> P v \<and> knows (N v) (log w'))) w"
  by (simp add: yields_def)

lemma knows_Un [simp]: "knows (A \<union> B) l \<longleftrightarrow> knows A l \<and> knows B l"
  by (auto simp: knows_def)

lemma keeps_bind_yields:
  fixes m :: "('w, goerr + 'b) op"
  assumes "yields log m P N" and "\<And>e. keeps_given K log R (f (Inl e))"
    and "\<And>v. P v \<Longrightarrow> keeps_given (N v \<union> K) log R (f (Inr v))"
  shows "keeps_given K log R (State_Monad.bind m f)"
  unfolding keeps_given_def wp_bind
proof (intro allI impI, rule wp_mono [OF yieldsD [OF assms(1)]], elim conjE)
  fix w w' and r :: "goerr + 'b"
  assume K: "knows K (log w)" and st: "still (log w) (log w')"
    and v: "\<forall>v. r = Inr v \<longrightarrow> P v \<and> knows (N v) (log w')"
  have K': "knows K (log w')" by (rule knows_grows [OF K st])
  have "wp (f r) (\<lambda>_ w''. grows R (log w') (log w'')) w'"
  proof (cases r)
    case (Inl e)
    then show ?thesis using keepsD [OF assms(2) K'] by simp
  next
    case (Inr u)
    then show ?thesis using v K' keepsD [OF assms(3) [of u]] by simp
  qed
  then show "wp (f r) (\<lambda>_ w''. grows R (log w) (log w'')) w'"
    by (rule wp_mono) (rule grows_trans [OF _ still_grows [OF st]])
qed

lemma keeps_rtry_yields:
  "yields log m P N \<Longrightarrow> (\<And>v. P v \<Longrightarrow> keeps_given (N v \<union> K) log R (f v)) \<Longrightarrow> keeps_given K log R (rtry m f)"
  unfolding rtry_def by (rule keeps_bind_yields [where P = P and N = N]) (auto intro: keeps_ret)

lemma keeps_rtryE_yields:
  "yields log m P N \<Longrightarrow> (\<And>v. P v \<Longrightarrow> keeps_given (N v \<union> K) log R (f v)) \<Longrightarrow> keeps_given K log R (rtryE m f)"
  unfolding rtryE_def by (rule keeps_bind_yields [where P = P and N = N]) (auto intro: keeps_ret)

lemma keeps_ttry_yields:
  "yields log m P N \<Longrightarrow> (\<And>v. P v \<Longrightarrow> keeps_given (N v \<union> K) log R (f v)) \<Longrightarrow> keeps_given K log R (ttry fail m f)"
  unfolding ttry_def by (rule keeps_bind_yields [where P = P and N = N]) (auto intro: keeps_ret)

lemma yields_attempt:
  fixes m :: "('w, goerr + 'b) op"
  assumes "yields log m P N" and "\<And>v. P v \<Longrightarrow> quiet log (f v)"
    and "\<And>v w. P v \<Longrightarrow> wp (f v) (\<lambda>r _. \<forall>u. r = Inr u \<longrightarrow> Q u \<and> M u = N v) w"
  shows "yields log (attempt m f) Q M"
  unfolding yields_def wp_attempt
proof (intro allI, rule wp_mono [OF yieldsD [OF assms(1)]], elim conjE)
  fix w w' and r :: "goerr + 'b"
  assume st: "still (log w) (log w')" and v: "\<forall>v. r = Inr v \<longrightarrow> P v \<and> knows (N v) (log w')"
  show "case r of Inl e \<Rightarrow> still (log w) (log w') \<and> (\<forall>v. Inl e = Inr v \<longrightarrow> Q v \<and> knows (M v) (log w'))
      | Inr x \<Rightarrow> wp (f x) (\<lambda>r w'. still (log w) (log w') \<and> (\<forall>v. r = Inr v \<longrightarrow> Q v \<and> knows (M v) (log w'))) w'"
  proof (cases r)
    case (Inl e)
    then show ?thesis using st by simp
  next
    case (Inr u)
    with v have u: "P u" "knows (N u) (log w')" by auto
    show ?thesis
      unfolding Inr sum.case
      by (rule wp_mono [OF wp_conj [OF keepsD [OF assms(2) [OF u(1)]] assms(3) [OF u(1)]]])
        (auto intro: grows_trans [OF _ st] knows_grows [OF u(2)])
  qed
qed

section \<open>Runs from a fixed start\<close>

text \<open>The same for a relation that refers to the log \<open>l\<close> where the run began.\<close>

abbreviation runs_to ::
  "('w \<Rightarrow> event list) \<Rightarrow> (event list \<Rightarrow> event \<Rightarrow> bool) \<Rightarrow> event list \<Rightarrow> 'w \<Rightarrow> ('w, 'a) op \<Rightarrow> bool" where
  "runs_to log R l w m \<equiv> wp m (\<lambda>_ w'. grows R l (log w')) w"

lemma runs_to_keeps: "keeps_given K log R m \<Longrightarrow> knows K (log w) \<Longrightarrow> grows R l (log w) \<Longrightarrow> runs_to log R l w m"
  by (rule wp_mono [OF keepsD]) (auto intro: grows_trans)

lemma runs_to_grows: "runs_to log R (log w) w m \<Longrightarrow> grows R l (log w) \<Longrightarrow> runs_to log R l w m"
  by (erule wp_mono) (auto intro: grows_trans)

lemma runs_to_for_retry:
  assumes "grows R l (log w)" and "\<And>i w. grows R l (log w) \<Longrightarrow> runs_to log R l w (body i)"
    and "\<And>w. grows R l (log w) \<Longrightarrow> runs_to log R l w rest"
  shows "runs_to log R l w (for_retry n body rest)"
proof (rule wp_for_retry [where I = "\<lambda>w. grows R l (log w)"])
  show "wp (body i) (\<lambda>r w'. case r of Continue \<Rightarrow> grows R l (log w') | Return _ \<Rightarrow> grows R l (log w')) w"
    if "grows R l (log w)" for i w
    by (rule wp_mono [OF assms(2) [OF that]]) (simp split: round.split)
qed (use assms in auto)

lemma runs_to_rguardE:
  assumes "keeps log R m" and "grows R l (log w)" and "\<And>w. grows R l (log w) \<Longrightarrow> runs_to log R l w k"
  shows "runs_to log R l w (rguardE m k)"
  unfolding wp_rguardE
  by (rule wp_mono [OF runs_to_keeps [OF assms(1) _ assms(2)]]) (auto intro: assms(3) split: option.split)

lemma runs_to_guardE:
  assumes "keeps log R m" and "grows R l (log w)" and "\<And>w. grows R l (log w) \<Longrightarrow> runs_to log R l w k"
  shows "runs_to log R l w (guardE m k)"
  unfolding wp_guardE
  by (rule wp_mono [OF runs_to_keeps [OF assms(1) _ assms(2)]]) (auto intro: assms(3) split: option.split)

lemma runs_to_attemptE:
  assumes "keeps log R m" and "grows R l (log w)" and "\<And>x w. grows R l (log w) \<Longrightarrow> runs_to log R l w (k x)"
  shows "runs_to log R l w (attemptE m k)"
  unfolding wp_attemptE
  by (rule wp_mono [OF runs_to_keeps [OF assms(1) _ assms(2)]]) (auto intro: assms(3) split: sum.split)

end
