(* ===== verification/Genesis_Bootstrap.thy ===== *)
theory Genesis_Bootstrap
  imports Admission_Contract Event_Log
begin

text \<open>
  The installation protocol of \<open>internal/service/admissiongenesis\<close>: \<open>template_limits.go\<close> and
  \<open>bootstrap.go\<close>. A fresh installation creates the two empty ledgers, pins their UIDs in the
  externally created Genesis object one after the other, and commits. Nil function values and nil
  interfaces are \<open>None\<close>; calling one is an error branch.
\<close>

section \<open>Types\<close>

record LedgerTemplate =
  TemplateRole :: Role
  DataKey :: string
  EmptyData :: string
  Validate :: "(configmap \<Rightarrow> goerr option) option"

record Binding =
  BoundNamespaceUID :: string
  BoundGenesisUID :: string
  BoundActiveLedgerUID :: string
  BoundQueueLedgerUID :: string

record 'w Bootstrapper =
  API :: "'w core_api option"
  BReceipt :: Receipt
  ActiveTemplate :: LedgerTemplate
  QueueTemplate :: LedgerTemplate
  Preflight :: "('w, goerr option) op option"
  BeforeEffect :: "('w, goerr option) op option"


definition api_GetNamespace :: "'w Bootstrapper \<Rightarrow> string \<Rightarrow> ('w, goerr + namespace) op" where
  "api_GetNamespace b n = (case API b of None \<Rightarrow> ret (Inl nil_deref) | Some a \<Rightarrow> GetNamespace a n)"

definition api_GetConfigMap :: "'w Bootstrapper \<Rightarrow> string \<Rightarrow> string \<Rightarrow> ('w, goerr + configmap) op" where
  "api_GetConfigMap b ns n = (case API b of None \<Rightarrow> ret (Inl nil_deref) | Some a \<Rightarrow> GetConfigMap a ns n)"

definition api_CreateConfigMap ::
  "'w Bootstrapper \<Rightarrow> string \<Rightarrow> configmap \<Rightarrow> ('w, configmap option \<times> goerr option) op" where
  "api_CreateConfigMap b ns cm =
    (case API b of None \<Rightarrow> ret (None, Some nil_deref) | Some a \<Rightarrow> CreateConfigMap a ns cm)"

definition api_PatchConfigMap ::
  "'w Bootstrapper \<Rightarrow> string \<Rightarrow> string \<Rightarrow> string \<Rightarrow> ('w, goerr + configmap) op" where
  "api_PatchConfigMap b ns n body =
    (case API b of None \<Rightarrow> ret (Inl nil_deref) | Some a \<Rightarrow> PatchConfigMap a ns n body)"

definition call_hook :: "('w, goerr option) op option \<Rightarrow> ('w, goerr option) op" where
  "call_hook h = (case h of None \<Rightarrow> ret None | Some m \<Rightarrow> m)"

definition run_preflight :: "'w Bootstrapper \<Rightarrow> ('w, goerr option) op" where
  "run_preflight b = (case Preflight b of None \<Rightarrow> ret (Some nil_deref) | Some m \<Rightarrow> m)"

definition run_validate :: "LedgerTemplate \<Rightarrow> configmap \<Rightarrow> goerr option" where
  "run_validate t cm = (case Validate t of None \<Rightarrow> Some nil_deref | Some f \<Rightarrow> f cm)"

section \<open>Canonical empty ledgers\<close>

record activeEmptyHeader =
  AEVersion :: int
  AEFence :: nat
  AEMaxJobs :: int
  AEMaxPerRequester :: int
  AEWorkerSlots :: int
  AEActive :: "(string, json) gomap option"

record queueEmptyHeader =
  QEVersion :: int
  QEGlobalLimit :: int
  QERequesterLimit :: int
  QEIntents :: "(string, json) gomap option"

fun unmarshal_activeEmptyHeader :: "json \<Rightarrow> activeEmptyHeader option" where
  "unmarshal_activeEmptyHeader (JObj kvs) = do {
     v \<leftarrow> field kvs ''version'' to_int 0;
     f \<leftarrow> field kvs ''fence'' to_uint 0;
     j \<leftarrow> field kvs ''maxJobs'' to_int 0;
     p \<leftarrow> field kvs ''maxPerRequester'' to_int 0;
     w \<leftarrow> field kvs ''workerSlots'' to_int 0;
     a \<leftarrow> field kvs ''active'' (unmarshal_map Some) None;
     Some \<lparr>AEVersion = v, AEFence = f, AEMaxJobs = j, AEMaxPerRequester = p, AEWorkerSlots = w, AEActive = a\<rparr> }"
| "unmarshal_activeEmptyHeader _ = None"

fun unmarshal_queueEmptyHeader :: "json \<Rightarrow> queueEmptyHeader option" where
  "unmarshal_queueEmptyHeader (JObj kvs) = do {
     v \<leftarrow> field kvs ''version'' to_int 0;
     g \<leftarrow> field kvs ''globalLimit'' to_int 0;
     r \<leftarrow> field kvs ''requesterLimit'' to_int 0;
     m \<leftarrow> field kvs ''intents'' (unmarshal_map Some) None;
     Some \<lparr>QEVersion = v, QEGlobalLimit = g, QERequesterLimit = r, QEIntents = m\<rparr> }"
| "unmarshal_queueEmptyHeader _ = None"

definition allowEmptyActiveHeader :: allowed where
  "allowEmptyActiveHeader path key \<longleftrightarrow> path = [] \<and>
     key \<in> {''version'', ''fence'', ''maxJobs'', ''maxPerRequester'', ''workerSlots'', ''active''}"

definition allowEmptyQueueHeader :: allowed where
  "allowEmptyQueueHeader path key \<longleftrightarrow> path = [] \<and>
     key \<in> {''version'', ''globalLimit'', ''requesterLimit'', ''intents''}"

definition validateCanonicalEmptyLimits :: "LedgerTemplate \<Rightarrow> Limits \<Rightarrow> goerr option" where
  "validateCanonicalEmptyLimits t limits =
    (let raw = EmptyData t in
     case TemplateRole t of
       Active \<Rightarrow>
         (case Decode raw unmarshal_activeEmptyHeader allowEmptyActiveHeader of
            Inl e \<Rightarrow> Some (Wrap ''active canonical empty header'' e)
          | Inr s \<Rightarrow>
              (case RequireKeys (parse_json raw)
                  [''version'', ''fence'', ''maxJobs'', ''maxPerRequester'', ''workerSlots'', ''active''] of
                 Some e \<Rightarrow> Some (Wrap ''active canonical empty header'' e)
               | None \<Rightarrow>
                   if AEVersion s \<noteq> 2 \<or> AEFence s \<noteq> 1 \<or> AEActive s \<noteq> Some [] \<or>
                      AEMaxJobs s \<noteq> MaxActiveJobs limits \<or>
                      AEMaxPerRequester s \<noteq> MaxActiveJobsPerRequester limits \<or>
                      AEWorkerSlots s \<noteq> WorkerSlots limits
                   then Some (ErrMsg ''active canonical empty capacity differs from admission receipt'')
                   else None))
     | Queue \<Rightarrow>
         (case Decode raw unmarshal_queueEmptyHeader allowEmptyQueueHeader of
            Inl e \<Rightarrow> Some (Wrap ''queue canonical empty header'' e)
          | Inr s \<Rightarrow>
              (case RequireKeys (parse_json raw)
                  [''version'', ''globalLimit'', ''requesterLimit'', ''intents''] of
                 Some e \<Rightarrow> Some (Wrap ''queue canonical empty header'' e)
               | None \<Rightarrow>
                   if QEVersion s \<noteq> 2 \<or> QEIntents s \<noteq> Some [] \<or>
                      QEGlobalLimit s \<noteq> MaxQueuedJobs limits \<or>
                      QERequesterLimit s \<noteq> MaxQueuedJobsPerRequester limits
                   then Some (ErrMsg ''queue canonical empty capacity differs from admission receipt'')
                   else None))
     | OtherRole _ \<Rightarrow> Some (ErrMsg ''invalid admission ledger role''))"

section \<open>Validation of the configuration\<close>

definition template_shape_error :: "LedgerTemplate \<Rightarrow> goerr option" where
  "template_shape_error t =
    (if (TemplateRole t \<noteq> Active \<and> TemplateRole t \<noteq> Queue) \<or> Option.is_none (Validate t) \<or>
        DataKey t = [] \<or> EmptyData t = [] \<or> MaxLedgerDataBytes < length (EmptyData t)
     then Some (ErrMsg ''admission bootstrap has invalid ledger template'') else None)"

definition template_request_error :: "'x ext_scheme \<Rightarrow> 'w Bootstrapper \<Rightarrow> LedgerTemplate \<Rightarrow> goerr option" where
  "template_request_error x b t =
    (case NewLedgerObject x (BReceipt b) (TemplateRole t) (DataKey t) (EmptyData t)
        (replicate 32 (CHR ''0'')) of
       Inl e \<Rightarrow> Some (Wrap ''admission ledger template'' e)
     | Inr request \<Rightarrow>
         first_err [validateCanonicalEmptyLimits t (ContractLimits (ReceiptContract (BReceipt b))),
           map_option (Wrap ''admission ledger canonical template'') (run_validate t request)])"

definition Bootstrapper_validate :: "'x ext_scheme \<Rightarrow> 'w Bootstrapper \<Rightarrow> goerr option" where
  "Bootstrapper_validate x b =
    (if Option.is_none (API b) \<or> Option.is_none (Preflight b)
     then Some (ErrMsg ''admission bootstrap lacks direct API or old-work veto'')
     else first_err
       [Receipt_Validate x (BReceipt b),
        template_shape_error (ActiveTemplate b), template_shape_error (QueueTemplate b),
        (if TemplateRole (ActiveTemplate b) \<noteq> Active \<or> TemplateRole (QueueTemplate b) \<noteq> Queue \<or>
            DataKey (ActiveTemplate b) \<noteq> ActiveLedgerDataKey \<or> DataKey (QueueTemplate b) \<noteq> QueueLedgerDataKey
         then Some (ErrMsg ''admission bootstrap ledger roles or data keys are invalid'') else None),
        template_request_error x b (ActiveTemplate b), template_request_error x b (QueueTemplate b)])"

section \<open>Reads\<close>

definition lift_err :: "goerr option \<Rightarrow> ('w, goerr option) op" where
  "lift_err e = ret e"

definition getOriginal :: "'x ext_scheme \<Rightarrow> 'w Bootstrapper \<Rightarrow> ('w, goerr + configmap \<times> GenesisData) op" where
  "getOriginal x b =
    attempt (api_GetNamespace b (ReceiptTarget (BReceipt b))) (\<lambda>ns.
    guard (lift_err (QualifyNamespace x (BReceipt b) (Some ns))) (
    attempt (api_GetNamespace b (ReceiptNamespace (ReceiptContract (BReceipt b)))) (\<lambda>receipts.
    guard (lift_err (QualifyReceiptNamespace x (BReceipt b) (Some receipts))) (
    attempt (api_GetConfigMap b (ReceiptTarget (BReceipt b)) (GenesisName (BReceipt b))) (\<lambda>cm.
    attempt (ret (QualifyGenesis x (BReceipt b) (Some cm))) (\<lambda>g.
    ret (Inr (cm, g))))))))"

definition role_name :: "Receipt \<Rightarrow> Role \<Rightarrow> string" where
  "role_name r role = (case RoleFacts r role of None \<Rightarrow> [] | Some (n, _) \<Rightarrow> n)"

definition readLedger ::
  "'x ext_scheme \<Rightarrow> 'w Bootstrapper \<Rightarrow> LedgerTemplate \<Rightarrow> string \<Rightarrow> bool \<Rightarrow> ('w, goerr + configmap option) op" where
  "readLedger x b t pinned must_be_empty = do {
    r \<leftarrow> api_GetConfigMap b (ReceiptTarget (BReceipt b)) (role_name (BReceipt b) (TemplateRole t));
    case r of
      Inl e \<Rightarrow> if IsNotFound e \<and> pinned = [] then ret (Inr None) else ret (Inl e)
    | Inr cm \<Rightarrow>
        guard (lift_err (QualifyLedgerIdentity x (BReceipt b) (Some cm) (TemplateRole t))) (
        if pinned \<noteq> [] \<and> UID (cm_meta cm) \<noteq> pinned
        then ret (Inl (Wrap ''ledger UID changed'' ErrChanged))
        else guard (lift_err (run_validate t cm)) (
        if must_be_empty \<and> (length (Data cm) \<noteq> 1 \<or> length (BinaryData cm) \<noteq> 0 \<or>
            mget (Data cm) (DataKey t) \<noteq> EmptyData t)
        then ret (Inl (Wrap ''ledger'' (Join ErrChanged ErrNonemptyLedger)))
        else ret (Inr (Some cm)))) }"

definition ObserveCommitted :: "'x ext_scheme \<Rightarrow> 'w Bootstrapper \<Rightarrow> ('w, goerr + Binding) op" where
  "ObserveCommitted x b =
    guard (lift_err (Bootstrapper_validate x b)) (
    attempt (getOriginal x b) (\<lambda>(cm, g).
    if GenesisPhase g \<noteq> PhaseCommitted then ret (Inl ErrUncommitted)
    else attempt (readLedger x b (ActiveTemplate b) (ActiveLedgerUID g) False) (\<lambda>_.
    attempt (readLedger x b (QueueTemplate b) (QueueLedgerUID g) False) (\<lambda>_.
    attempt (getOriginal x b) (\<lambda>(cm2, later).
    if later \<noteq> g \<or> ResourceVersion (cm_meta cm2) \<noteq> ResourceVersion (cm_meta cm)
    then ret (Inl (Wrap ''Genesis changed during committed observation'' ErrChanged))
    else ret (Inr \<lparr>BoundNamespaceUID = NamespaceUID (ReceiptContract (BReceipt b)),
      BoundGenesisUID = GenesisUID (BReceipt b),
      BoundActiveLedgerUID = ActiveLedgerUID g, BoundQueueLedgerUID = QueueLedgerUID g\<rparr>))))))"

definition resolveNonemptyReadRace :: "'x ext_scheme \<Rightarrow> 'w Bootstrapper \<Rightarrow> goerr \<Rightarrow> ('w, goerr) op" where
  "resolveNonemptyReadRace x b readErr =
    (if \<not> errors_Is readErr ErrNonemptyLedger then ret readErr
     else do {
       r \<leftarrow> ObserveCommitted x b;
       ret (case r of Inr _ \<Rightarrow> ErrPeerCommitted
            | Inl _ \<Rightarrow> Wrap ''committed peer requalification failed'' readErr) })"

fun pinnedUID :: "GenesisData \<Rightarrow> Role \<Rightarrow> string" where
  "pinnedUID g Active = ActiveLedgerUID g"
| "pinnedUID g _ = QueueLedgerUID g"

fun setPinnedUID :: "GenesisData \<Rightarrow> Role \<Rightarrow> string \<Rightarrow> GenesisData" where
  "setPinnedUID g Active u = g\<lparr>ActiveLedgerUID := u\<rparr>"
| "setPinnedUID g _ u = g\<lparr>QueueLedgerUID := u\<rparr>"

section \<open>Writes\<close>

datatype patch_value = PStr string | PBool bool

record patchOp =
  Op :: string
  Path :: string
  Value :: patch_value

fun marshal_value :: "patch_value \<Rightarrow> json" where
  "marshal_value (PStr s) = JStr s"
| "marshal_value (PBool b) = JBool b"

definition marshal_patch :: "patchOp list \<Rightarrow> json" where
  "marshal_patch ops = JArr (map (\<lambda>p. JObj
     [(''op'', JStr (Op p)), (''path'', JStr (Path p)), (''value'', marshal_value (Value p))]) ops)"

definition test_op :: "string \<Rightarrow> patch_value \<Rightarrow> patchOp" where
  "test_op p v = \<lparr>Op = ''test'', Path = p, Value = v\<rparr>"

definition replace_op :: "string \<Rightarrow> patch_value \<Rightarrow> patchOp" where
  "replace_op p v = \<lparr>Op = ''replace'', Path = p, Value = v\<rparr>"

definition add_op :: "string \<Rightarrow> patch_value \<Rightarrow> patchOp" where
  "add_op p v = \<lparr>Op = ''add'', Path = p, Value = v\<rparr>"

definition genesisPatch :: "configmap \<Rightarrow> GenesisData \<Rightarrow> bool \<Rightarrow> goerr + string" where
  "genesisPatch original nxt commit =
    (if UID (cm_meta original) = [] \<or> ResourceVersion (cm_meta original) = []
     then Inl (ErrMsg ''Genesis CAS lacks original UID or resourceVersion'')
     else let data = print_json (marshal_GenesisData nxt) in
       if MaxContractJSONBytes < length data then Inl (ErrMsg ''Genesis CAS proposal exceeds contract'')
       else if Immutable original = Some True
       then Inl (ErrMsg ''Genesis CAS cannot update immutable object'')
       else Inr (print_json (marshal_patch (
         [test_op ''/metadata/uid'' (PStr (UID (cm_meta original))),
          test_op ''/metadata/resourceVersion'' (PStr (ResourceVersion (cm_meta original))),
          test_op ''/data/genesis.json'' (PStr (mget (Data original) GenesisDataKey))] @
         (case Immutable original of None \<Rightarrow> [] | Some _ \<Rightarrow> [test_op ''/immutable'' (PBool False)]) @
         [replace_op ''/data/genesis.json'' (PStr data)] @
         (if commit then [add_op ''/immutable'' (PBool True)] else [])))))"

text \<open>\<open>rand.Read\<close> of 16 bytes in hexadecimal.\<close>

definition hex_encode :: "string \<Rightarrow> string" where
  "hex_encode s = concat (map (\<lambda>c. [hex_digit (code c div 16), hex_digit (code c mod 16)]) s)"

definition randomAttempt :: "'w runtime \<Rightarrow> ('w, goerr + string) op" where
  "randomAttempt rt = attempt (Rand16 rt) (\<lambda>raw. ret (Inr (hex_encode raw)))"

definition pinRole ::
  "'x ext_scheme \<Rightarrow> 'w Bootstrapper \<Rightarrow> LedgerTemplate \<Rightarrow> string \<Rightarrow> ('w, goerr option) op" where
  "pinRole x b t uid =
    attemptE (getOriginal x b) (\<lambda>(original, g).
    let role = TemplateRole t in
    if GenesisPhase g = PhaseCommitted then
      ret (Some (if pinnedUID g role \<noteq> uid then Wrap ''committed ledger UID differs'' ErrChanged
                 else ErrPeerCommitted))
    else if pinnedUID g role \<noteq> [] then
      ret (if pinnedUID g role \<noteq> uid then Some (Wrap ''provisional ledger UID differs'' ErrChanged) else None)
    else do {
      r \<leftarrow> readLedger x b t [] True;
      r' \<leftarrow> (case r of Inl e \<Rightarrow> do { e' \<leftarrow> resolveNonemptyReadRace x b e; ret (Inl e') } | Inr l \<Rightarrow> ret (Inr l));
      case r' of
        Inl e \<Rightarrow> ret (Some (if errors_Is e ErrPeerCommitted then e
                  else Wrap ''ledger changed before provisional pin'' ErrChanged))
      | Inr None \<Rightarrow> ret (Some (Wrap ''ledger changed before provisional pin'' ErrChanged))
      | Inr (Some ledger) \<Rightarrow>
          if UID (cm_meta ledger) \<noteq> uid then ret (Some (Wrap ''ledger changed before provisional pin'' ErrChanged))
          else attemptE (ret (genesisPatch original (setPinnedUID g role uid) False)) (\<lambda>patch.
          guardE (call_hook (BeforeEffect b)) (do {
            _ \<leftarrow> api_PatchConfigMap b (ReceiptTarget (BReceipt b)) (GenesisName (BReceipt b)) patch;
            back \<leftarrow> getOriginal x b;
            case back of
              Inl e \<Rightarrow> ret (Some (Wrap ''pin readback failed'' ErrUnknownPin))
            | Inr (_, observed) \<Rightarrow>
                if pinnedUID observed role \<noteq> [] \<and> pinnedUID observed role \<noteq> uid
                then ret (Some (Wrap ''peer pinned a different ledger UID'' ErrChanged))
                else if pinnedUID observed role \<noteq> uid
                then ret (Some (Wrap ''pin is not yet observed'' ErrUnknownPin))
                else do {
                  v \<leftarrow> readLedger x b t uid (GenesisPhase observed = PhaseInitializing);
                  v' \<leftarrow> (case v of Inl e \<Rightarrow> do { e' \<leftarrow> resolveNonemptyReadRace x b e; ret (Inl e') }
                        | Inr l \<Rightarrow> ret (Inr l));
                  case v' of
                    Inl e \<Rightarrow> ret (Some (if errors_Is e ErrPeerCommitted then e
                              else Wrap ''pinned ledger changed'' ErrChanged))
                  | Inr None \<Rightarrow> ret (Some (Wrap ''pinned ledger changed'' ErrChanged))
                  | Inr (Some _) \<Rightarrow>
                      ret (if GenesisPhase observed = PhaseCommitted then Some ErrPeerCommitted else None) } })) })"

text \<open>The Create branch of \<open>ensureRole\<close>, for a ledger that is absent and not pinned.\<close>

definition createRole ::
  "'x ext_scheme \<Rightarrow> 'w runtime \<Rightarrow> 'w Bootstrapper \<Rightarrow> LedgerTemplate \<Rightarrow> ('w, goerr option) op" where
  "createRole x rt b t =
    guardE (run_preflight b) (
    attemptE (getOriginal x b) (\<lambda>(_, latest).
    if GenesisPhase latest = PhaseCommitted then ret (Some ErrPeerCommitted)
    else if pinnedUID latest (TemplateRole t) \<noteq> [] then do {
      r \<leftarrow> readLedger x b t (pinnedUID latest (TemplateRole t)) True;
      case r of Inl e \<Rightarrow> do { e' \<leftarrow> resolveNonemptyReadRace x b e; ret (Some e') } | Inr _ \<Rightarrow> ret None }
    else attemptE (randomAttempt rt) (\<lambda>att.
    attemptE (ret (NewLedgerObject x (BReceipt b) (TemplateRole t) (DataKey t) (EmptyData t) att)) (\<lambda>request.
    guardE (call_hook (BeforeEffect b)) (do {
      c \<leftarrow> api_CreateConfigMap b (ReceiptTarget (BReceipt b)) request;
      r \<leftarrow> readLedger x b t [] True;
      case r of
        Inl e \<Rightarrow> do {
          e' \<leftarrow> resolveNonemptyReadRace x b e;
          ret (Some (if errors_Is e' ErrPeerCommitted then e' else Wrap ''ledger Create/read'' ErrUnknownCreate)) }
      | Inr None \<Rightarrow> ret (Some (Wrap ''ledger absent after Create'' ErrUnknownCreate))
      | Inr (Some observed) \<Rightarrow>
          if (case c of (Some created, None) \<Rightarrow> UID (cm_meta created) \<noteq> [] \<and>
                UID (cm_meta created) \<noteq> UID (cm_meta observed) | _ \<Rightarrow> False)
          then ret (Some (Wrap ''ledger UID changed after Create'' ErrChanged))
          else pinRole x b t (UID (cm_meta observed)) })))))"

definition ensureRole ::
  "'x ext_scheme \<Rightarrow> 'w runtime \<Rightarrow> 'w Bootstrapper \<Rightarrow> LedgerTemplate \<Rightarrow> ('w, goerr option) op" where
  "ensureRole x rt b t =
    attemptE (getOriginal x b) (\<lambda>(_, g).
    if GenesisPhase g = PhaseCommitted then ret (Some ErrPeerCommitted)
    else do {
      r \<leftarrow> readLedger x b t (pinnedUID g (TemplateRole t)) True;
      case r of
        Inl e \<Rightarrow> do { e' \<leftarrow> resolveNonemptyReadRace x b e; ret (Some e') }
      | Inr (Some ledger) \<Rightarrow> pinRole x b t (UID (cm_meta ledger))
      | Inr None \<Rightarrow>
          if pinnedUID g (TemplateRole t) \<noteq> [] then ret (Some (Wrap ''pinned ledger disappeared'' ErrChanged))
          else createRole x rt b t })"

text \<open>The loop of \<open>commit\<close> over the two ledgers: \<open>None\<close> when both are pinned and still empty.\<close>

fun commit_checks ::
  "'x ext_scheme \<Rightarrow> 'w Bootstrapper \<Rightarrow> GenesisData \<Rightarrow> LedgerTemplate list \<Rightarrow> ('w, goerr option) op" where
  "commit_checks x b g [] = ret None"
| "commit_checks x b g (t # ts) = do {
    r \<leftarrow> readLedger x b t (pinnedUID g (TemplateRole t)) True;
    r' \<leftarrow> (case r of Inl e \<Rightarrow> do { e' \<leftarrow> resolveNonemptyReadRace x b e; ret (Inl e') } | Inr l \<Rightarrow> ret (Inr l));
    case r' of
      Inl e \<Rightarrow> ret (Some (if errors_Is e ErrPeerCommitted then e
                else Wrap ''pinned ledger changed before commit'' ErrChanged))
    | Inr None \<Rightarrow> ret (Some (Wrap ''pinned ledger changed before commit'' ErrChanged))
    | Inr (Some _) \<Rightarrow> commit_checks x b g ts }"

definition commit :: "'x ext_scheme \<Rightarrow> 'w Bootstrapper \<Rightarrow> ('w, goerr + Binding) op" where
  "commit x b =
    attempt (getOriginal x b) (\<lambda>(original, g).
    if GenesisPhase g = PhaseCommitted then ObserveCommitted x b
    else if ActiveLedgerUID g = [] \<or> QueueLedgerUID g = []
    then ret (Inl (Wrap ''both provisional ledger UIDs are required'' ErrChanged))
    else guard (run_preflight b) (do {
      c \<leftarrow> commit_checks x b g [ActiveTemplate b, QueueTemplate b];
      case c of
        Some e \<Rightarrow> if errors_Is e ErrPeerCommitted then ObserveCommitted x b else ret (Inl e)
      | None \<Rightarrow>
          attempt (ret (genesisPatch original (g\<lparr>GenesisPhase := PhaseCommitted\<rparr>) True)) (\<lambda>patch.
          guard (call_hook (BeforeEffect b)) (do {
            _ \<leftarrow> api_PatchConfigMap b (ReceiptTarget (BReceipt b)) (GenesisName (BReceipt b)) patch;
            observed \<leftarrow> ObserveCommitted x b;
            case observed of
              Inr binding \<Rightarrow>
                if BoundActiveLedgerUID binding \<noteq> ActiveLedgerUID g \<or>
                   BoundQueueLedgerUID binding \<noteq> QueueLedgerUID g
                then ret (Inl (Wrap ''committed ledger pair differs from provisional pins'' ErrChanged))
                else ret (Inr binding)
            | Inl e \<Rightarrow> ret (Inl (Wrap ''commit'' ErrUnknownCommit)) })) }))"

fun ensure_roles ::
  "'x ext_scheme \<Rightarrow> 'w runtime \<Rightarrow> 'w Bootstrapper \<Rightarrow> LedgerTemplate list \<Rightarrow> ('w, goerr option) op" where
  "ensure_roles x rt b [] = ret None"
| "ensure_roles x rt b (t # ts) = guardE (ensureRole x rt b t) (ensure_roles x rt b ts)"

definition EnsureFresh :: "'x ext_scheme \<Rightarrow> 'w runtime \<Rightarrow> 'w Bootstrapper \<Rightarrow> ('w, goerr + Binding) op" where
  "EnsureFresh x rt b =
    guard (lift_err (Bootstrapper_validate x b)) (
    attempt (getOriginal x b) (\<lambda>(_, g).
    if GenesisPhase g = PhaseCommitted then ObserveCommitted x b
    else guard (run_preflight b) (do {
      e \<leftarrow> ensure_roles x rt b [ActiveTemplate b, QueueTemplate b];
      case e of
        Some err \<Rightarrow> if errors_Is err ErrPeerCommitted then ObserveCommitted x b else ret (Inl err)
      | None \<Rightarrow> commit x b })))"

end
