(* ===== verification/Api_Laws.thy ===== *)
theory Api_Laws
  imports Genesis_Bootstrap
begin

text \<open>
  What the program may rely on at the API boundary, as named hypotheses on the records of
  operations: reads leave no trace and never fail with a conflict, an optimistic update commits
  only against the version it names, an RFC 6902 patch commits only when all its tests hold, and a
  rejected request changes nothing. A request whose outcome is unknown may have committed. Nothing
  is assumed about other processes.
\<close>

section \<open>Reads\<close>

text \<open>A read that leaves no own events and whose error is no conflict, for the two result shapes.\<close>

definition calm :: "('w \<Rightarrow> event list) \<Rightarrow> ('w, goerr + 'a) op \<Rightarrow> bool" where
  "calm log m \<longleftrightarrow>
     (\<forall>w. wp m (\<lambda>r w'. still (log w) (log w') \<and> (\<forall>e. r = Inl e \<longrightarrow> \<not> IsConflict e)) w)"

definition calmE :: "('w \<Rightarrow> event list) \<Rightarrow> ('w, goerr option) op \<Rightarrow> bool" where
  "calmE log m \<longleftrightarrow>
     (\<forall>w. wp m (\<lambda>r w'. still (log w) (log w') \<and> (\<forall>e. r = Some e \<longrightarrow> \<not> IsConflict e)) w)"

named_theorems calm_intros \<open>closure rules for reads without conflicts\<close>

lemma calm_quiet: "calm log m \<Longrightarrow> quiet log m"
  unfolding calm_def keeps_given_def by (blast intro: wp_mono)

lemma calmE_quiet: "calmE log m \<Longrightarrow> quiet log m"
  unfolding calmE_def keeps_given_def by (blast intro: wp_mono)

lemma calmD:
  "calm log m \<Longrightarrow> wp m (\<lambda>r w'. still (log w) (log w') \<and> (\<forall>e. r = Inl e \<longrightarrow> \<not> IsConflict e)) w"
  by (simp add: calm_def)

lemma calmED:
  "calmE log m \<Longrightarrow> wp m (\<lambda>r w'. still (log w) (log w') \<and> (\<forall>e. r = Some e \<longrightarrow> \<not> IsConflict e)) w"
  by (simp add: calmE_def)

lemma calm_ret [calm_intros]: "(\<And>e. r = Inl e \<Longrightarrow> \<not> IsConflict e) \<Longrightarrow> calm log (ret r)"
  by (auto simp: calm_def wp_ret intro: grows.refl)

lemma calmE_ret [calm_intros]: "(\<And>e. r = Some e \<Longrightarrow> \<not> IsConflict e) \<Longrightarrow> calmE log (ret r)"
  by (auto simp: calmE_def wp_ret intro: grows.refl)

text \<open>Sequencing: \<open>wp\<close> after a quiet first part.\<close>

lemma wp_still_trans:
  assumes "wp m (\<lambda>r w'. still (log w) (log w') \<and> P r) w"
    and "\<And>r w'. P r \<Longrightarrow> wp (f r) (\<lambda>s w''. still (log w') (log w'') \<and> Q s) w'"
  shows "wp m (\<lambda>r. wp (f r) (\<lambda>s w''. still (log w) (log w'') \<and> Q s)) w"
  by (rule wp_mono [OF assms(1)]) (elim conjE, rule wp_mono [OF assms(2)], auto intro: grows_trans)

lemma calm_attempt [calm_intros]:
  assumes "calm log m" and "\<And>x. calm log (k x)"
  shows "calm log (attempt m k)"
  unfolding calm_def attempt_def wp_bind
proof
  fix w
  show "wp m (\<lambda>x. wp (case x of Inl e \<Rightarrow> ret (Inl e) | Inr x \<Rightarrow> k x)
      (\<lambda>r w'. still (log w) (log w') \<and> (\<forall>e. r = Inl e \<longrightarrow> \<not> IsConflict e))) w"
    by (rule wp_still_trans [OF calmD [OF assms(1)]])
      (auto simp: wp_ret intro: grows.refl calmD [OF assms(2)] split: sum.split)
qed

lemma calmE_attemptE [calm_intros]:
  assumes "calm log m" and "\<And>x. calmE log (k x)"
  shows "calmE log (attemptE m k)"
  unfolding calmE_def attemptE_def wp_bind
proof
  fix w
  show "wp m (\<lambda>x. wp (case x of Inl e \<Rightarrow> ret (Some e) | Inr x \<Rightarrow> k x)
      (\<lambda>r w'. still (log w) (log w') \<and> (\<forall>e. r = Some e \<longrightarrow> \<not> IsConflict e))) w"
    by (rule wp_still_trans [OF calmD [OF assms(1)]])
      (auto simp: wp_ret intro: grows.refl calmED [OF assms(2)] split: sum.split)
qed

lemma calm_guard [calm_intros]:
  assumes "calmE log m" and "calm log k"
  shows "calm log (guard m k)"
  unfolding calm_def guard_def wp_bind
proof
  fix w
  show "wp m (\<lambda>x. wp (case x of None \<Rightarrow> k | Some e \<Rightarrow> ret (Inl e))
      (\<lambda>r w'. still (log w) (log w') \<and> (\<forall>e. r = Inl e \<longrightarrow> \<not> IsConflict e))) w"
    by (rule wp_still_trans [OF calmED [OF assms(1)]])
      (auto simp: wp_ret intro: grows.refl calmD [OF assms(2)] split: option.split)
qed

lemma calmE_guardE [calm_intros]:
  assumes "calmE log m" and "calmE log k"
  shows "calmE log (guardE m k)"
  unfolding calmE_def guardE_def wp_bind
proof
  fix w
  show "wp m (\<lambda>x. wp (case x of None \<Rightarrow> k | Some e \<Rightarrow> ret (Some e))
      (\<lambda>r w'. still (log w) (log w') \<and> (\<forall>e. r = Some e \<longrightarrow> \<not> IsConflict e))) w"
    by (rule wp_still_trans [OF calmED [OF assms(1)]])
      (auto simp: wp_ret intro: grows.refl calmED [OF assms(2)] split: option.split)
qed

lemma calm_bind:
  fixes m :: "('w, goerr + 'b) op"
  assumes "calm log m" and "\<And>e. \<not> IsConflict e \<Longrightarrow> calm log (f (Inl e))" and "\<And>x. calm log (f (Inr x))"
  shows "calm log (State_Monad.bind m f)"
  unfolding calm_def wp_bind
proof
  fix w
  show "wp m (\<lambda>x. wp (f x) (\<lambda>r w'. still (log w) (log w') \<and> (\<forall>e. r = Inl e \<longrightarrow> \<not> IsConflict e))) w"
  proof (rule wp_still_trans [OF calmD [OF assms(1)]])
    fix r :: "goerr + 'b" and w' assume "\<forall>e. r = Inl e \<longrightarrow> \<not> IsConflict e"
    then show "wp (f r) (\<lambda>s w''. still (log w') (log w'') \<and> (\<forall>e. s = Inl e \<longrightarrow> \<not> IsConflict e)) w'"
      using assms(2,3) by (cases r) (auto intro: calmD)
  qed
qed

lemma calm_if [calm_intros]:
  "(b \<Longrightarrow> calm log m) \<Longrightarrow> (\<not> b \<Longrightarrow> calm log n) \<Longrightarrow> calm log (if b then m else n)"
  by simp

lemma calmE_if [calm_intros]:
  "(b \<Longrightarrow> calmE log m) \<Longrightarrow> (\<not> b \<Longrightarrow> calmE log n) \<Longrightarrow> calmE log (if b then m else n)"
  by simp

lemma calm_case_prod [calm_intros]:
  "(\<And>a b. r = (a, b) \<Longrightarrow> calm log (f a b)) \<Longrightarrow> calm log (case r of (a, b) \<Rightarrow> f a b)"
  by (cases r) auto

lemma calm_case_option [calm_intros]:
  "(r = None \<Longrightarrow> calm log m) \<Longrightarrow> (\<And>x. r = Some x \<Longrightarrow> calm log (f x)) \<Longrightarrow>
     calm log (case r of None \<Rightarrow> m | Some x \<Rightarrow> f x)"
  by (cases r) auto

lemma calmE_case_option [calm_intros]:
  "(r = None \<Longrightarrow> calmE log m) \<Longrightarrow> (\<And>x. r = Some x \<Longrightarrow> calmE log (f x)) \<Longrightarrow>
     calmE log (case r of None \<Rightarrow> m | Some x \<Rightarrow> f x)"
  by (cases r) auto

section \<open>Requests\<close>

text \<open>
  One request: it is sent once; then either it is not carried out and the result satisfies
  \<open>fails\<close>, or it is carried out by one event that \<open>commits\<close> relates to the log and the result.
\<close>

definition requests ::
  "('w \<Rightarrow> event list) \<Rightarrow> request \<Rightarrow> ('a \<Rightarrow> bool) \<Rightarrow> (event list \<Rightarrow> event \<Rightarrow> 'a \<Rightarrow> bool) \<Rightarrow> ('w, 'a) op \<Rightarrow> bool"
  where "requests log q fails commits m \<longleftrightarrow>
    (\<forall>w. wp m (\<lambda>r w'. \<exists>l n. still (log w) l \<and> still (l @ [Sent q]) n \<and>
       (log w' = n \<and> fails r \<or> (\<exists>e. is_own e \<and> log w' = n @ [e] \<and> commits n e r))) w)"

definition cm_key :: "configmap \<Rightarrow> okey" where
  "cm_key cm = (KConfigMap, Namespace (cm_meta cm), Name (cm_meta cm))"

definition build_key :: "KovaBuild \<Rightarrow> okey" where
  "build_key b = (KBuild, Namespace (build_meta b), Name (build_meta b))"

text \<open>\<open>new\<close> is \<open>cm\<close> as the server stores it: it assigns the version.\<close>

definition stored_as :: "configmap \<Rightarrow> configmap \<Rightarrow> bool" where
  "stored_as cm new \<longleftrightarrow> (\<exists>v. new = cm\<lparr>cm_meta := (cm_meta cm)\<lparr>ResourceVersion := v\<rparr>\<rparr>)"

definition same_version :: "configmap \<Rightarrow> configmap \<Rightarrow> bool" where
  "same_version a b \<longleftrightarrow>
     UID (cm_meta a) = UID (cm_meta b) \<and> ResourceVersion (cm_meta a) = ResourceVersion (cm_meta b)"

definition update_commits :: "configmap \<Rightarrow> event list \<Rightarrow> event \<Rightarrow> goerr option \<Rightarrow> bool" where
  "update_commits cm l e r \<longleftrightarrow>
     (\<exists>old new. current l (cm_key cm) = Some (OConfigMap old) \<and> same_version old cm \<and>
        (\<forall>a. stored l (cm_key cm) (OConfigMap a) \<and> same_version a cm \<longrightarrow> a = old) \<and>
        stored_as cm new \<and> e = Own (cm_key cm) (Some (OConfigMap new)) \<and>
        (\<forall>err. r = Some err \<longrightarrow> \<not> IsConflict err))"

text \<open>RFC 6902 on the four paths the program uses.\<close>

definition apply_op :: "patchOp \<Rightarrow> configmap \<Rightarrow> configmap option" where
  "apply_op p cm =
    (if Path p = ''/metadata/uid'' then
       (if Op p = ''test'' \<and> Value p = PStr (UID (cm_meta cm)) then Some cm else None)
     else if Path p = ''/metadata/resourceVersion'' then
       (if Op p = ''test'' \<and> Value p = PStr (ResourceVersion (cm_meta cm)) then Some cm else None)
     else if Path p = ''/immutable'' then
       (case Value p of
          PBool v \<Rightarrow>
            if Op p = ''test'' then (if Immutable cm = Some v then Some cm else None)
            else if Op p = ''add'' then Some (cm\<lparr>Immutable := Some v\<rparr>) else None
        | PStr _ \<Rightarrow> None)
     else if HasPrefix (Path p) ''/data/'' then
       (let k = TrimPrefix (Path p) ''/data/'' in
        case (map_of (Data cm) k, Value p) of
          (Some old, PStr v) \<Rightarrow>
            if Op p = ''test'' then (if old = v then Some cm else None)
            else if Op p = ''replace'' then Some (cm\<lparr>Data := mput k v (Data cm)\<rparr>) else None
        | _ \<Rightarrow> None)
     else None)"

fun apply_ops :: "patchOp list \<Rightarrow> configmap \<Rightarrow> configmap option" where
  "apply_ops [] cm = Some cm"
| "apply_ops (p # ps) cm = Option.bind (apply_op p cm) (apply_ops ps)"

definition patch_commits :: "okey \<Rightarrow> patchOp list \<Rightarrow> event list \<Rightarrow> event \<Rightarrow> goerr + configmap \<Rightarrow> bool" where
  "patch_commits k ops l e r \<longleftrightarrow>
     (\<exists>old mid new. current l k = Some (OConfigMap old) \<and> apply_ops ops old = Some mid \<and>
        stored_as mid new \<and> e = Own k (Some (OConfigMap new)) \<and>
        (\<forall>err. r = Inl err \<longrightarrow> \<not> IsConflict err \<and> reason_for err \<noteq> Some Unprocessable) \<and>
        (\<forall>cm. r = Inr cm \<longrightarrow> cm = new))"

definition is_err :: "goerr + 'a \<Rightarrow> bool" where
  "is_err r \<longleftrightarrow> (\<exists>e. r = Inl e)"

section \<open>The hypotheses\<close>

definition lawful_runtime :: "('w \<Rightarrow> event list) \<Rightarrow> 'w runtime \<Rightarrow> bool" where
  "lawful_runtime log rt \<longleftrightarrow>
     calmE log (Ctx_Err rt) \<and> (\<forall>n. calmE log (Sleep rt n)) \<and> quiet log (Now rt) \<and>
     (\<forall>w. wp (Now rt) (\<lambda>t _. int64 t) w) \<and> calm log (Rand16 rt)"

text \<open>A reader returns objects that were stored at some time; a direct one what is stored now.\<close>

definition lawful_reader :: "('w \<Rightarrow> event list) \<Rightarrow> ('w, 'y) reader_scheme \<Rightarrow> bool" where
  "lawful_reader log rd \<longleftrightarrow>
     (\<forall>ns n. calm log (Get_cm rd ns n)) \<and> (\<forall>ns n. calm log (Get_build rd ns n)) \<and>
     (\<forall>ns n. calm log (Get_pod rd ns n)) \<and> (\<forall>ns n. calm log (List_builds rd ns n)) \<and>
     (\<forall>ns m. calm log (List_pods rd ns m)) \<and>
     (\<forall>ns n w. wp (Get_cm rd ns n) (\<lambda>r w'. \<forall>cm. r = Inr cm \<longrightarrow>
        Namespace (cm_meta cm) = ns \<and> Name (cm_meta cm) = n \<and> ValidString (ResourceVersion (cm_meta cm)) \<and>
        stored (log w') (KConfigMap, ns, n) (OConfigMap cm)) w) \<and>
     (\<forall>ns n w. wp (Get_build rd ns n) (\<lambda>r w'. \<forall>b. r = Inr b \<longrightarrow>
        Namespace (build_meta b) = ns \<and> Name (build_meta b) = n \<and>
        stored (log w') (KBuild, ns, n) (OBuild b)) w)"

definition direct_reader :: "('w \<Rightarrow> event list) \<Rightarrow> ('w, 'y) reader_scheme \<Rightarrow> bool" where
  "direct_reader log rd \<longleftrightarrow> lawful_reader log rd \<and>
     (\<forall>ns n w. wp (Get_cm rd ns n) (\<lambda>r w'.
        (\<forall>cm. r = Inr cm \<longrightarrow> current (log w') (KConfigMap, ns, n) = Some (OConfigMap cm)) \<and>
        (\<forall>e. r = Inl e \<and> IsNotFound e \<longrightarrow> current (log w') (KConfigMap, ns, n) = None)) w)"

definition lawful_core :: "('w \<Rightarrow> event list) \<Rightarrow> 'w core_api \<Rightarrow> bool" where
  "lawful_core log a \<longleftrightarrow>
     (\<forall>n. calm log (GetNamespace a n)) \<and> (\<forall>ns n. calm log (GetConfigMap a ns n)) \<and>
     (\<forall>ns n w. wp (GetConfigMap a ns n) (\<lambda>r w'. \<forall>cm. r = Inr cm \<longrightarrow>
        Namespace (cm_meta cm) = ns \<and> Name (cm_meta cm) = n \<and> ValidString (ResourceVersion (cm_meta cm)) \<and>
        current (log w') (KConfigMap, ns, n) = Some (OConfigMap cm)) w) \<and>
     (\<forall>ns n ops. wf_json (marshal_patch ops) \<longrightarrow> requests log (ReqPatch (KConfigMap, ns, n) (print_json (marshal_patch ops)))
        is_err (patch_commits (KConfigMap, ns, n) ops)
        (PatchConfigMap a ns n (print_json (marshal_patch ops))))"

text \<open>Writes through \<open>client.Client\<close>. \<open>Update\<close> of a build leaves its status alone.\<close>

definition created_as :: "configmap \<Rightarrow> configmap \<Rightarrow> bool" where
  "created_as cm new \<longleftrightarrow> Data new = Data cm \<and> BinaryData new = BinaryData cm \<and> Immutable new = Immutable cm \<and>
     cm_key new = cm_key cm \<and> UID (cm_meta new) \<noteq> []"

definition create_commits :: "configmap \<Rightarrow> event list \<Rightarrow> event \<Rightarrow> goerr option \<Rightarrow> bool" where
  "create_commits cm l e r \<longleftrightarrow>
     (\<exists>new. current l (cm_key cm) = None \<and> created_as cm new \<and>
        e = Own (cm_key cm) (Some (OConfigMap new)) \<and> (\<forall>err. r = Some err \<longrightarrow> \<not> IsAlreadyExists err))"

definition delete_commits :: "okey \<Rightarrow> string option \<Rightarrow> event list \<Rightarrow> event \<Rightarrow> goerr option \<Rightarrow> bool" where
  "delete_commits k u l e r \<longleftrightarrow>
     (\<exists>old. current l k = Some (OConfigMap old) \<and> (\<forall>i. u = Some i \<longrightarrow> UID (cm_meta old) = i) \<and>
        (e = Own k None \<or>
         (\<exists>t. e = Own k (Some (OConfigMap (old\<lparr>cm_meta := (cm_meta old)\<lparr>DeletionTimestamp := Some t\<rparr>\<rparr>))))))"

definition update_build_commits :: "KovaBuild \<Rightarrow> event list \<Rightarrow> event \<Rightarrow> goerr + KovaBuild \<Rightarrow> bool" where
  "update_build_commits b l e r \<longleftrightarrow>
     (\<exists>old v. current l (build_key b) = Some (OBuild old) \<and> UID (build_meta old) = UID (build_meta b) \<and>
        ResourceVersion (build_meta old) = ResourceVersion (build_meta b) \<and>
        e = Own (build_key b) (Some (OBuild (b\<lparr>build_meta := (build_meta b)\<lparr>ResourceVersion := v\<rparr>,
          Status := Status old\<rparr>))))"

definition lawful_client :: "('w \<Rightarrow> event list) \<Rightarrow> 'w client \<Rightarrow> bool" where
  "lawful_client log c \<longleftrightarrow> lawful_reader log c \<and>
     (\<forall>cm. requests log (ReqCreate (cm_key cm) (OConfigMap cm)) (\<lambda>r. r \<noteq> None) (create_commits cm) (Create_cm c cm)) \<and>
     (\<forall>cm. requests log (ReqUpdate (cm_key cm) (OConfigMap cm)) (\<lambda>r. r \<noteq> None) (update_commits cm) (Update_cm c cm)) \<and>
     (\<forall>ns n u. requests log (ReqDelete (KConfigMap, ns, n) u) (\<lambda>r. r \<noteq> None)
        (delete_commits (KConfigMap, ns, n) u) (Delete_cm c ns n u)) \<and>
     (\<forall>b. requests log (ReqUpdate (build_key b) (OBuild b)) is_err (update_build_commits b) (Update_build c b))"

section \<open>The reads of the bootstrapper\<close>

definition lawful_bootstrap :: "('w \<Rightarrow> event list) \<Rightarrow> 'w Bootstrapper \<Rightarrow> bool" where
  "lawful_bootstrap log b \<longleftrightarrow> (\<forall>a. API b = Some a \<longrightarrow> lawful_core log a) \<and>
     (\<forall>m. Preflight b = Some m \<longrightarrow> calmE log m) \<and> (\<forall>m. BeforeEffect b = Some m \<longrightarrow> calmE log m) \<and>
     (\<forall>t f cm e. t \<in> {ActiveTemplate b, QueueTemplate b} \<and> Validate t = Some f \<and> f cm = Some e \<longrightarrow> \<not> IsConflict e)"

lemma calm_api_GetNamespace: "lawful_bootstrap log b \<Longrightarrow> calm log (api_GetNamespace b n)"
  by (auto simp: lawful_bootstrap_def lawful_core_def api_GetNamespace_def intro!: calm_intros split: option.split)

lemma calm_api_GetConfigMap: "lawful_bootstrap log b \<Longrightarrow> calm log (api_GetConfigMap b ns n)"
  by (auto simp: lawful_bootstrap_def lawful_core_def api_GetConfigMap_def intro!: calm_intros split: option.split)

text \<open>The program's own checks never report a conflict.\<close>

lemma Receipt_Validate_no_conflict: "Receipt_Validate x r = Some e \<Longrightarrow> \<not> IsConflict e"
  by (auto simp: Receipt_Validate_def Contract_validate_def Limits_validate_def RunnerManifestDigest_def
      split: if_splits sum.splits option.splits)

lemma checkValue_no_conflict:
  "checkValue allowed p d j = Some e \<Longrightarrow> \<not> IsConflict e"
  "checkMembers allowed p d seen kvs = Some e \<Longrightarrow> \<not> IsConflict e"
  "checkElems allowed p d xs = Some e \<Longrightarrow> \<not> IsConflict e"
proof (induction allowed p d j and allowed p d seen kvs and allowed p d xs
    rule: checkValue_checkMembers_checkElems.induct)
  case (1 allowed path depth j)
  then show ?case by (cases j) (auto split: if_splits)
qed (auto split: if_splits option.splits simp del: checkValue.simps)

lemma Decode_no_conflict: "Decode raw f allowed = Inl e \<Longrightarrow> \<not> IsConflict e"
  by (auto simp: Decode_def simp del: checkValue.simps split: if_splits option.splits dest: checkValue_no_conflict(1))

lemma QualifyNamespace_no_conflict: "QualifyNamespace x r ns = Some e \<Longrightarrow> \<not> IsConflict e"
  by (auto simp: QualifyNamespace_def dest: Receipt_Validate_no_conflict split: option.splits if_splits)

lemma QualifyReceiptNamespace_no_conflict: "QualifyReceiptNamespace x r ns = Some e \<Longrightarrow> \<not> IsConflict e"
  by (auto simp: QualifyReceiptNamespace_def dest: Receipt_Validate_no_conflict split: option.splits if_splits)

lemma RequireKeys_no_conflict: "RequireKeys j ks = Some e \<Longrightarrow> \<not> IsConflict e"
  by (auto simp: RequireKeys_def split: option.splits if_splits)

lemma requireContractKeys_no_conflict: "requireContractKeys j = Some e \<Longrightarrow> \<not> IsConflict e"
  by (auto simp: requireContractKeys_def dest: RequireKeys_no_conflict split: option.splits)

lemma decodeGenesis_no_conflict: "decodeGenesis raw r = Inl e \<Longrightarrow> \<not> IsConflict e"
  by (auto simp: decodeGenesis_def split: if_splits sum.splits option.splits
      dest: Decode_no_conflict RequireKeys_no_conflict requireContractKeys_no_conflict)

lemma QualifyGenesis_no_conflict: "QualifyGenesis x r cm = Inl e \<Longrightarrow> \<not> IsConflict e"
  by (auto simp: QualifyGenesis_def split: option.splits if_splits sum.splits
      dest: Receipt_Validate_no_conflict decodeGenesis_no_conflict)

lemma QualifyLedgerIdentity_no_conflict: "QualifyLedgerIdentity x r cm role = Some e \<Longrightarrow> \<not> IsConflict e"
  by (auto simp: QualifyLedgerIdentity_def Let_def split: option.splits if_splits prod.splits)

lemma NewLedgerObject_no_conflict: "NewLedgerObject x r role k d att = Inl e \<Longrightarrow> \<not> IsConflict e"
  by (auto simp: NewLedgerObject_def ledgerAnnotations_def ContractDigest_def
      split: option.splits if_splits sum.splits prod.splits dest: Receipt_Validate_no_conflict)

lemma validateCanonicalEmptyLimits_no_conflict:
  "validateCanonicalEmptyLimits t l = Some e \<Longrightarrow> \<not> IsConflict e"
  by (auto simp: validateCanonicalEmptyLimits_def Let_def split: Role.splits sum.splits option.splits if_splits
      dest: Decode_no_conflict RequireKeys_no_conflict)

lemma run_validate_no_conflict:
  "lawful_bootstrap log b \<Longrightarrow> t \<in> {ActiveTemplate b, QueueTemplate b} \<Longrightarrow>
     run_validate t cm = Some e \<Longrightarrow> \<not> IsConflict e"
  by (auto simp: run_validate_def lawful_bootstrap_def split: option.splits)

lemma template_request_error_no_conflict:
  assumes "lawful_bootstrap log b" and "t \<in> {ActiveTemplate b, QueueTemplate b}"
    and "template_request_error x b t = Some e"
  shows "\<not> IsConflict e"
  using assms(3) run_validate_no_conflict [OF assms(1,2)]
  by (auto simp: template_request_error_def split: sum.splits option.splits
      dest: NewLedgerObject_no_conflict validateCanonicalEmptyLimits_no_conflict)

lemma Bootstrapper_validate_no_conflict:
  assumes "lawful_bootstrap log b" and "Bootstrapper_validate x b = Some e"
  shows "\<not> IsConflict e"
proof -
  note t = template_request_error_no_conflict [OF assms(1)]
  have shape: "template_shape_error t = Some e \<Longrightarrow> \<not> IsConflict e" for t
    by (auto simp: template_shape_error_def split: if_splits)
  have "Receipt_Validate x (BReceipt b) = Some e \<or> (\<exists>s. e = ErrMsg s) \<or>
      (\<exists>t \<in> {ActiveTemplate b, QueueTemplate b}. template_shape_error t = Some e \<or> template_request_error x b t = Some e)"
    using assms(2) unfolding Bootstrapper_validate_def
    by (auto simp del: first_err_simps simp: eq_commute [of "Some e"] dest!: first_err_Some split: if_splits)
  then show ?thesis
    using Receipt_Validate_no_conflict [of x "BReceipt b" e] shape t by fastforce
qed

lemma calm_getOriginal: "lawful_bootstrap log b \<Longrightarrow> calm log (getOriginal x b)"
  unfolding getOriginal_def lift_err_def
  by (intro calm_intros calm_api_GetNamespace calm_api_GetConfigMap)
    (auto dest: QualifyNamespace_no_conflict QualifyReceiptNamespace_no_conflict QualifyGenesis_no_conflict)

lemma calm_readLedger:
  assumes "lawful_bootstrap log b" and "t \<in> {ActiveTemplate b, QueueTemplate b}"
  shows "calm log (readLedger x b t pinned must_be_empty)"
  unfolding readLedger_def lift_err_def
  using assms run_validate_no_conflict [OF assms]
  by (intro calm_bind calm_api_GetConfigMap)
    (auto intro!: calm_intros dest: QualifyLedgerIdentity_no_conflict)

lemma calm_ObserveCommitted: "lawful_bootstrap log b \<Longrightarrow> calm log (ObserveCommitted x b)"
  unfolding ObserveCommitted_def lift_err_def
  by (intro calm_intros calm_getOriginal calm_readLedger)
    (auto dest: Bootstrapper_validate_no_conflict)

end
