(* ===== verification/Genesis_Guard.thy ===== *)
theory Genesis_Guard
  imports Api_Laws
begin

text \<open>
  The runtime guard of a committed installation (\<open>guard.go\<close>, \<open>observation.go\<close>): the read-only check
  of the original pair, the only writer of ledger data in a guarded installation, and the token of
  a read-only interval. A nil \<open>*Guard\<close> is \<open>None\<close>; pointer identity is the field \<open>GuardId\<close>.
\<close>

section \<open>Guard\<close>

record 'w Guard =
  GuardId :: nat
  Bootstrap :: "'w Bootstrapper"
  Original :: Binding
  ReceiptCheck :: "('w, goerr option) op option"

definition Check :: "'x ext_scheme \<Rightarrow> 'w Guard option \<Rightarrow> ('w, goerr option) op" where
  "Check x gd =
    (case gd of
       None \<Rightarrow> ret (Some (ErrMsg ''admission Genesis guard is missing''))
     | Some g \<Rightarrow>
         guardE (call_hook (ReceiptCheck g)) (
         attemptE (ObserveCommitted x (Bootstrap g)) (\<lambda>now.
         if now \<noteq> Original g
         then ret (Some (Wrap ''committed admission pair differs from startup binding'' ErrChanged))
         else call_hook (ReceiptCheck g))))"

definition NewGuard :: "'x ext_scheme \<Rightarrow> nat \<Rightarrow> 'w Bootstrapper \<Rightarrow> Binding \<Rightarrow> ('w, goerr + 'w Guard) op" where
  "NewGuard x ident b original =
    (case Bootstrapper_validate x b of
       Some e \<Rightarrow> ret (Inl e)
     | None \<Rightarrow>
         if BoundNamespaceUID original \<noteq> NamespaceUID (ReceiptContract (BReceipt b)) \<or>
            BoundGenesisUID original \<noteq> GenesisUID (BReceipt b) \<or>
            \<not> ValidUID (BoundActiveLedgerUID original) \<or> \<not> ValidUID (BoundQueueLedgerUID original)
         then ret (Inl (Wrap ''startup binding differs from admission receipt'' ErrChanged))
         else let g = \<lparr>GuardId = ident, Bootstrap = b, Original = original, ReceiptCheck = None\<rparr> in
           guard (Check x (Some g)) (ret (Inr g)))"

definition CheckLedger :: "'x ext_scheme \<Rightarrow> 'w Guard option \<Rightarrow> configmap option \<Rightarrow> Role \<Rightarrow> goerr option" where
  "CheckLedger x gd cm role =
    (case gd of
       None \<Rightarrow> Some (ErrMsg ''admission Genesis guard is missing'')
     | Some g \<Rightarrow>
         (case QualifyLedgerIdentity x (BReceipt (Bootstrap g)) cm role of
            Some e \<Rightarrow> Some e
          | None \<Rightarrow>
              (case (role, cm) of
                 (Active, Some c) \<Rightarrow>
                   if UID (cm_meta c) \<noteq> BoundActiveLedgerUID (Original g)
                   then Some (Wrap ''ledger differs from startup UID'' ErrChanged) else None
               | (Queue, Some c) \<Rightarrow>
                   if UID (cm_meta c) \<noteq> BoundQueueLedgerUID (Original g)
                   then Some (Wrap ''ledger differs from startup UID'' ErrChanged) else None
               | _ \<Rightarrow> Some (ErrMsg ''invalid admission ledger role''))))"

definition role_template :: "'w Guard \<Rightarrow> Role \<Rightarrow> LedgerTemplate option" where
  "role_template g role =
    (case role of
       Active \<Rightarrow> Some (ActiveTemplate (Bootstrap g))
     | Queue \<Rightarrow> Some (QueueTemplate (Bootstrap g))
     | OtherRole _ \<Rightarrow> None)"

definition classifyLedgerPatchError ::
  "'x ext_scheme \<Rightarrow> 'w Guard \<Rightarrow> configmap \<Rightarrow> Role \<Rightarrow> LedgerTemplate \<Rightarrow> goerr \<Rightarrow> ('w, goerr option) op" where
  "classifyLedgerPatchError x g cm role t patchErr =
    (if reason_for patchErr \<noteq> Some Unprocessable then ret (Some patchErr)
     else do {
       r \<leftarrow> api_GetConfigMap (Bootstrap g) (Namespace (cm_meta cm)) (Name (cm_meta cm));
       case r of
         Inl e \<Rightarrow> ret (Some (Join patchErr (Wrap ''ledger 422 readback failed'' e)))
       | Inr now \<Rightarrow>
           guardE (ret (CheckLedger x (Some g) (Some now) role)) (
           case run_validate t now of
             Some e \<Rightarrow> ret (Some (Wrap ''ledger changed to invalid state'' ErrChanged))
           | None \<Rightarrow>
               guardE (Check x (Some g)) (
               if ResourceVersion (cm_meta now) = ResourceVersion (cm_meta cm) \<and>
                  mget (Data now) (DataKey t) = mget (Data cm) (DataKey t)
               then ret (Some patchErr)
               else ret (Some (ErrApi Conflict)))) })"

definition ledger_patch :: "configmap \<Rightarrow> string \<Rightarrow> string \<Rightarrow> patchOp list" where
  "ledger_patch cm k nextData =
    [test_op ''/metadata/uid'' (PStr (UID (cm_meta cm))),
     test_op ''/metadata/resourceVersion'' (PStr (ResourceVersion (cm_meta cm))),
     test_op (''/data/'' @ k) (PStr (mget (Data cm) k)),
     replace_op (''/data/'' @ k) (PStr nextData)]"

definition PatchLedgerData ::
  "'x ext_scheme \<Rightarrow> 'w Guard option \<Rightarrow> configmap \<Rightarrow> Role \<Rightarrow> string \<Rightarrow> ('w, goerr option) op" where
  "PatchLedgerData x gd cm role nextData =
    guardE (ret (CheckLedger x gd (Some cm) role)) (
    case gd of None \<Rightarrow> ret (Some (ErrMsg ''admission Genesis guard is missing'')) | Some g \<Rightarrow>
    if ResourceVersion (cm_meta cm) = [] then ret (Some (Wrap ''ledger lacks a resourceVersion'' ErrChanged))
    else (case role_template g role of
      None \<Rightarrow> ret (Some (ErrMsg ''invalid admission ledger role''))
    | Some t \<Rightarrow>
        if length (Data cm) \<noteq> 1 \<or> length (BinaryData cm) \<noteq> 0 \<or> mget (Data cm) (DataKey t) = []
        then ret (Some (Wrap ''ledger has unsupported data keys'' ErrChanged))
        else (case run_validate t (cm\<lparr>Data := [(DataKey t, nextData)]\<rparr>) of
          Some e \<Rightarrow> ret (Some (Wrap ''ledger proposal'' e))
        | None \<Rightarrow>
            guardE (Check x gd) (do {
              r \<leftarrow> api_PatchConfigMap (Bootstrap g) (Namespace (cm_meta cm)) (Name (cm_meta cm))
                    (print_json (marshal_patch (ledger_patch cm (DataKey t) nextData)));
              case r of
                Inl e \<Rightarrow> classifyLedgerPatchError x g cm role t e
              | Inr updated \<Rightarrow>
                  guardE (ret (CheckLedger x gd (Some updated) role)) (
                  if mget (Data updated) (DataKey t) \<noteq> nextData
                  then ret (Some (Wrap ''ledger Patch response differs from proposal'' ErrChanged))
                  else attemptE (api_GetConfigMap (Bootstrap g) (Namespace (cm_meta cm)) (Name (cm_meta cm)))
                    (\<lambda>readback.
                  guardE (ret (CheckLedger x gd (Some readback) role)) (
                  guardE (ret (run_validate t readback)) (
                  Check x gd)))) }))))"

section \<open>Read-only observations\<close>

text \<open>
  The token of \<open>Observe\<close>. The callback gets it open; when the callback has returned, every copy of
  it is closed.
\<close>

record Observation =
  ObsGuard :: nat
  ObsClosed :: bool

definition join_err :: "goerr option \<Rightarrow> goerr option \<Rightarrow> goerr option" where
  "join_err a b =
    (case (a, b) of
       (None, None) \<Rightarrow> None
     | (Some e, None) \<Rightarrow> Some e
     | (None, Some e) \<Rightarrow> Some e
     | (Some d, Some e) \<Rightarrow> Some (Join d e))"

abbreviation obs_error :: goerr where
  "obs_error \<equiv> ErrMsg ''read-only Genesis observation is closed or belongs to another original pair''"

definition Observe ::
  "'x ext_scheme \<Rightarrow> 'w runtime \<Rightarrow> 'w Guard option \<Rightarrow> (Observation \<Rightarrow> ('w, goerr option) op) \<Rightarrow> ('w, goerr option) op" where
  "Observe x rt gd read =
    (case gd of
       None \<Rightarrow> ret (Some (ErrMsg ''read-only Genesis observation has no guard or callback''))
     | Some g \<Rightarrow>
         guardE (Check x gd) (do {
           readErr \<leftarrow> read \<lparr>ObsGuard = GuardId g, ObsClosed = False\<rparr>;
           ctxErr \<leftarrow> Ctx_Err rt;
           checkErr \<leftarrow> Check x gd;
           ret (join_err (join_err readErr ctxErr) checkErr) }))"

text \<open>The same where the callback also assigns a result of the caller.\<close>

definition ObserveValue ::
  "'x ext_scheme \<Rightarrow> 'w runtime \<Rightarrow> 'w Guard option \<Rightarrow> (Observation \<Rightarrow> ('w, goerr + 'a) op) \<Rightarrow> ('w, goerr + 'a) op" where
  "ObserveValue x rt gd read =
    (case gd of
       None \<Rightarrow> ret (Inl (ErrMsg ''read-only Genesis observation has no guard or callback''))
     | Some g \<Rightarrow>
         guard (Check x gd) (do {
           r \<leftarrow> read \<lparr>ObsGuard = GuardId g, ObsClosed = False\<rparr>;
           ctxErr \<leftarrow> Ctx_Err rt;
           checkErr \<leftarrow> Check x gd;
           case r of
             Inl e \<Rightarrow> ret (Inl (case join_err (join_err (Some e) ctxErr) checkErr of Some err \<Rightarrow> err | None \<Rightarrow> e))
           | Inr v \<Rightarrow> ret (case join_err ctxErr checkErr of Some e \<Rightarrow> Inl e | None \<Rightarrow> Inr v) }))"

definition Assert :: "Observation option \<Rightarrow> 'w Guard option \<Rightarrow> goerr option" where
  "Assert obs gd =
    (case (obs, gd) of
       (Some t, Some g) \<Rightarrow> if ObsClosed t \<or> ObsGuard t \<noteq> GuardId g then Some obs_error else None
     | _ \<Rightarrow> Some obs_error)"

text \<open>The flag says whether the caller passed a context of its own.\<close>

definition AssertNoOrdinaryContext :: "Observation option \<Rightarrow> 'w Guard option \<Rightarrow> bool \<Rightarrow> goerr option" where
  "AssertNoOrdinaryContext obs gd ordinaryCtx =
    (if ordinaryCtx
     then Some (ErrMsg ''read-only Genesis observation cannot ignore a separate context'')
     else Assert obs gd)"

definition Observation_Read ::
  "'w runtime \<Rightarrow> Observation option \<Rightarrow> 'w Guard option \<Rightarrow> ('w, goerr + 'a) op \<Rightarrow> ('w, goerr + 'a) op" where
  "Observation_Read rt obs gd read =
    (case Assert obs gd of
       Some e \<Rightarrow> ret (Inl e)
     | None \<Rightarrow> do {
         ctxErr \<leftarrow> Ctx_Err rt;
         case ctxErr of Some e \<Rightarrow> ret (Inl e) | None \<Rightarrow> read })"

definition Observation_ReadE ::
  "'w runtime \<Rightarrow> Observation option \<Rightarrow> 'w Guard option \<Rightarrow> ('w, goerr option) op \<Rightarrow> ('w, goerr option) op" where
  "Observation_ReadE rt obs gd read =
    (case Assert obs gd of
       Some e \<Rightarrow> ret (Some e)
     | None \<Rightarrow> do {
         ctxErr \<leftarrow> Ctx_Err rt;
         case ctxErr of Some e \<Rightarrow> ret (Some e) | None \<Rightarrow> read })"

end
