(* ===== verification/Ledger_Cas.thy ===== *)
theory Ledger_Cas
  imports Genesis_Guard
begin

text \<open>
  The contract of a compare-and-swap write of ledger data, which both ways of writing a ledger
  fulfil: the guarded JSON Patch and the plain optimistic update. Either nothing is stored and the
  write reports an error, or one version is stored whose predecessor carries exactly the data the
  writer had read, and then the result is no conflict.
\<close>

fun req_key :: "request \<Rightarrow> okey" where
  "req_key (ReqCreate k v) = k"
| "req_key (ReqUpdate k v) = k"
| "req_key (ReqPatch k b) = k"
| "req_key (ReqDelete k u) = k"

definition sent_to :: "okey \<Rightarrow> event list \<Rightarrow> event \<Rightarrow> bool" where
  "sent_to k h e \<longleftrightarrow> (\<exists>q. e = Sent q \<and> req_key q = k)"

definition cas_commit ::
  "okey \<Rightarrow> string \<Rightarrow> string \<Rightarrow> string \<Rightarrow> event list \<Rightarrow> event list \<Rightarrow> bool" where
  "cas_commit k dk old new l l' \<longleftrightarrow>
     (\<exists>m a b. grows (sent_to k) l m \<and> current m k = Some (OConfigMap a) \<and> mget (Data a) dk = old \<and>
        mget (Data b) dk = new \<and> still (m @ [Own k (Some (OConfigMap b))]) l')"

definition cas_post ::
  "okey \<Rightarrow> string \<Rightarrow> string \<Rightarrow> string \<Rightarrow> event list \<Rightarrow> event list \<Rightarrow> goerr option \<Rightarrow> bool" where
  "cas_post k dk old new l l' r \<longleftrightarrow>
     (grows (sent_to k) l l' \<and> r \<noteq> None) \<or>
     (cas_commit k dk old new l l' \<and> (\<forall>e. r = Some e \<longrightarrow> \<not> IsConflict e))"

lemma cas_post_still_pre: "still l l1 \<Longrightarrow> cas_post k dk old new l1 l2 r \<Longrightarrow> cas_post k dk old new l l2 r"
  unfolding cas_post_def cas_commit_def by (blast intro: grows_trans still_grows)

lemma cas_post_failed: "still l l' \<Longrightarrow> r \<noteq> None \<Longrightarrow> cas_post k dk old new l l' r"
  by (auto simp: cas_post_def intro: still_grows)

section \<open>The guarded patch\<close>

definition lawful_guard :: "('w \<Rightarrow> event list) \<Rightarrow> 'w Guard \<Rightarrow> bool" where
  "lawful_guard log g \<longleftrightarrow> lawful_bootstrap log (Bootstrap g) \<and> (\<forall>m. ReceiptCheck g = Some m \<longrightarrow> calmE log m)"

lemma calmE_call_hook: "(\<And>m. h = Some m \<Longrightarrow> calmE log m) \<Longrightarrow> calmE log (call_hook h)"
  by (auto simp: call_hook_def intro: calm_intros split: option.split)

lemma calmE_Check: "(\<And>g. gd = Some g \<Longrightarrow> lawful_guard log g) \<Longrightarrow> calmE log (Check x gd)"
  unfolding Check_def
  by (auto intro!: calm_intros calmE_call_hook calm_ObserveCommitted simp: lawful_guard_def split: option.split)

lemma CheckLedger_no_conflict: "CheckLedger x gd cm role = Some e \<Longrightarrow> \<not> IsConflict e"
  by (auto simp: CheckLedger_def split: option.splits Role.splits if_splits dest: QualifyLedgerIdentity_no_conflict)

lemma CheckLedger_ValidUID: "CheckLedger x (Some g) (Some cm) role = None \<Longrightarrow> ValidUID (UID (cm_meta cm))"
  by (auto simp: CheckLedger_def QualifyLedgerIdentity_def split: option.splits Role.splits if_splits prod.splits)

lemma role_template_in: "role_template g role = Some t \<Longrightarrow> t \<in> {ActiveTemplate (Bootstrap g), QueueTemplate (Bootstrap g)}"
  by (auto simp: role_template_def split: Role.splits)

lemma classify_post:
  assumes "lawful_guard log g" and "reason_for e \<noteq> Some Conflict"
  shows "wp (classifyLedgerPatchError x g cm role t e) (\<lambda>r w'. still (log w) (log w') \<and> r \<noteq> None) w"
proof -
  have check: "calmE log (Check x (Some g))" using assms(1) by (intro calmE_Check) auto
  have get: "calm log (api_GetConfigMap (Bootstrap g) (Namespace (cm_meta cm)) (Name (cm_meta cm)))"
    using assms(1) by (auto simp: lawful_guard_def intro: calm_api_GetConfigMap)
  have inner: "wp (guardE (ret (CheckLedger x (Some g) (Some now) role)) (case run_validate t now of
        None \<Rightarrow> guardE (Check x (Some g)) (if b then ret (Some e) else ret (Some (ErrApi Conflict)))
      | Some e \<Rightarrow> ret (Some (Wrap ''ledger changed to invalid state'' ErrChanged))))
      (\<lambda>r w''. still (log w') (log w'') \<and> r \<noteq> None) w'" for now b w'
    by (auto simp: wp_guardE wp_ret intro: grows.refl split: option.split)
      (rule wp_mono [OF calmED [OF check]], auto simp: wp_ret split: option.split)+
  show ?thesis
  proof (cases "reason_for e = Some Unprocessable")
    case True
    show ?thesis
      unfolding classifyLedgerPatchError_def using True
    proof (simp only: not_True_eq_False simp_thms if_False wp_bind, intro wp_still_trans [OF calmD [OF get]])
      fix r :: "goerr + configmap" and w'
      show "wp (case r of Inl e' \<Rightarrow> ret (Some (Join e (Wrap ''ledger 422 readback failed'' e')))
          | Inr now \<Rightarrow> guardE (ret (CheckLedger x (Some g) (Some now) role)) (case run_validate t now of
              None \<Rightarrow> guardE (Check x (Some g)) (if ResourceVersion (cm_meta now) = ResourceVersion (cm_meta cm) \<and>
                  mget (Data now) (DataKey t) = mget (Data cm) (DataKey t)
                then ret (Some e) else ret (Some (ErrApi Conflict)))
            | Some e \<Rightarrow> ret (Some (Wrap ''ledger changed to invalid state'' ErrChanged))))
          (\<lambda>r w''. still (log w') (log w'') \<and> r \<noteq> None) w'"
        by (cases r) (simp add: wp_ret grows.refl, simp only: sum.case inner)
    qed
  next
    case False
    then show ?thesis by (simp add: classifyLedgerPatchError_def wp_ret grows.refl)
  qed
qed

text \<open>The patch commits only against the data that was read.\<close>

lemma map_of_mput_same: "map_of (mput k v m) k = Some v"
  by (induction k v m rule: mput.induct) auto

lemma apply_ledger_patch:
  assumes "apply_ops (ledger_patch cm k new) old = Some mid"
  shows "mget (Data old) k = mget (Data cm) k" and "mget (Data mid) k = new"
  using assms
  by (auto simp: ledger_patch_def apply_op_def test_op_def replace_op_def HasPrefix_def TrimPrefix_def
      mget_def map_of_mput_same split: if_splits option.splits bind_splits)

lemma stored_as_Data: "stored_as a b \<Longrightarrow> Data b = Data a"
  by (auto simp: stored_as_def)

lemma patch_commits_data:
  assumes "patch_commits k (ledger_patch cm dk new) l e r"
  obtains a b where "current l k = Some (OConfigMap a)" "mget (Data a) dk = mget (Data cm) dk"
    "mget (Data b) dk = new" "e = Own k (Some (OConfigMap b))"
    "\<And>err. r = Inl err \<Longrightarrow> \<not> IsConflict err \<and> reason_for err \<noteq> Some Unprocessable"
proof -
  from assms obtain a mid b where *: "current l k = Some (OConfigMap a)"
      "apply_ops (ledger_patch cm dk new) a = Some mid" "stored_as mid b" "e = Own k (Some (OConfigMap b))"
      "\<forall>err. r = Inl err \<longrightarrow> \<not> IsConflict err \<and> reason_for err \<noteq> Some Unprocessable"
    unfolding patch_commits_def by blast
  show thesis
    by (rule that [of a b]) (use * apply_ledger_patch [OF *(2)] stored_as_Data [OF *(3)] in auto)
qed

lemma wf_ledger_patch:
  assumes "ValidString (UID (cm_meta cm))" "ValidString (ResourceVersion (cm_meta cm))"
    "ValidString (mget (Data cm) k)" "ValidString k" "ValidString new"
  shows "wf_json (marshal_patch (ledger_patch cm k new))"
proof -
  have "ValidString ''op''" "ValidString ''path''" "ValidString ''value''" "ValidString ''test''"
    "ValidString ''replace''" "ValidString ''/metadata/uid''" "ValidString ''/metadata/resourceVersion''"
    "ValidString ''/data/''"
    by (rule ValidString_ascii, simp)+
  with assms show ?thesis
    using ValidString_append [of "''/data/''" k]
    by (simp add: marshal_patch_def ledger_patch_def test_op_def replace_op_def)
qed

lemma requestsD:
  "requests log q fails commits m \<Longrightarrow>
     wp m (\<lambda>r w'. \<exists>l n. still (log w) l \<and> still (l @ [Sent q]) n \<and>
       (log w' = n \<and> fails r \<or> (\<exists>e. is_own e \<and> log w' = n @ [e] \<and> commits n e r))) w"
  by (simp add: requests_def)

lemma grows_sent:
  "still l m \<Longrightarrow> req_key q = k \<Longrightarrow> still (m @ [Sent q]) n \<Longrightarrow> grows (sent_to k) l n"
  by (rule grows_trans [OF still_grows], assumption)
    (rule grows.own [OF still_grows], auto simp: sent_to_def)

text \<open>The reads after the patch.\<close>

definition after_patch ::
  "'x ext_scheme \<Rightarrow> 'w Guard option \<Rightarrow> 'w Guard \<Rightarrow> configmap \<Rightarrow> Role \<Rightarrow> LedgerTemplate \<Rightarrow> string \<Rightarrow> configmap \<Rightarrow>
     ('w, goerr option) op" where
  "after_patch x gd g cm role t nextData updated =
     guardE (ret (CheckLedger x gd (Some updated) role)) (
     if mget (Data updated) (DataKey t) \<noteq> nextData
     then ret (Some (Wrap ''ledger Patch response differs from proposal'' ErrChanged))
     else attemptE (api_GetConfigMap (Bootstrap g) (Namespace (cm_meta cm)) (Name (cm_meta cm)))
       (\<lambda>readback.
     guardE (ret (CheckLedger x gd (Some readback) role)) (
     guardE (ret (run_validate t readback)) (
     Check x gd))))"

lemma calmE_after_patch:
  assumes "lawful_guard log g" and "role_template g role = Some t"
  shows "calmE log (after_patch x (Some g) g cm role t nextData updated)"
  using assms run_validate_no_conflict [of log "Bootstrap g" t] role_template_in [OF assms(2)]
  unfolding after_patch_def
  by (intro calm_intros calmE_Check calm_api_GetConfigMap)
    (auto simp: lawful_guard_def dest: CheckLedger_no_conflict)

lemma patch_step:
  assumes g: "lawful_guard log g" and t: "role_template g role = Some t"
    and wf: "wf_json (marshal_patch (ledger_patch cm (DataKey t) nextData))"
  shows "wp (do {
      r \<leftarrow> api_PatchConfigMap (Bootstrap g) (Namespace (cm_meta cm)) (Name (cm_meta cm))
            (print_json (marshal_patch (ledger_patch cm (DataKey t) nextData)));
      case r of Inl e \<Rightarrow> classifyLedgerPatchError x g cm role t e
      | Inr updated \<Rightarrow> after_patch x (Some g) g cm role t nextData updated })
    (\<lambda>r w'. cas_post (cm_key cm) (DataKey t) (mget (Data cm) (DataKey t)) nextData (log w) (log w') r) w"
proof (cases "API (Bootstrap g)")
  case None
  have "wp (classifyLedgerPatchError x g cm role t nil_deref) (\<lambda>r w'. still (log w) (log w') \<and> r \<noteq> None) w"
    using g by (intro classify_post) auto
  then show ?thesis
    unfolding api_PatchConfigMap_def None option.case wp_bind wp_ret sum.case
    by (rule wp_mono) (auto intro: cas_post_failed)
next
  case (Some a)
  let ?q = "ReqPatch (cm_key cm) (print_json (marshal_patch (ledger_patch cm (DataKey t) nextData)))"
  let ?commits = "patch_commits (cm_key cm) (ledger_patch cm (DataKey t) nextData)"
  let ?post = "\<lambda>r w'. cas_post (cm_key cm) (DataKey t) (mget (Data cm) (DataKey t)) nextData (log w) (log w') r"
  have "lawful_core log a" using g Some by (auto simp: lawful_guard_def lawful_bootstrap_def)
  then have req: "requests log ?q is_err ?commits
      (PatchConfigMap a (Namespace (cm_meta cm)) (Name (cm_meta cm))
        (print_json (marshal_patch (ledger_patch cm (DataKey t) nextData))))"
    using wf by (auto simp: lawful_core_def cm_key_def)
  have fail: "wp (classifyLedgerPatchError x g cm role t e) ?post w'"
    if "grows (sent_to (cm_key cm)) (log w) (log w')" for e w'
  proof (cases "IsConflict e")
    case True
    with that show ?thesis by (simp add: classifyLedgerPatchError_def wp_ret cas_post_def)
  next
    case False
    show ?thesis
      by (rule wp_mono [OF classify_post [OF g False]])
        (auto simp: cas_post_def intro: grows_trans [OF still_grows that])
  qed
  have commit: "wp (case r of Inl e \<Rightarrow> classifyLedgerPatchError x g cm role t e
      | Inr updated \<Rightarrow> after_patch x (Some g) g cm role t nextData updated) ?post w'"
    if sent: "grows (sent_to (cm_key cm)) (log w) n" and own: "log w' = n @ [e]" and com: "?commits n e r" for r w' n e
  proof -
    obtain a b where ab: "current n (cm_key cm) = Some (OConfigMap a)"
        "mget (Data a) (DataKey t) = mget (Data cm) (DataKey t)" "mget (Data b) (DataKey t) = nextData"
        "e = Own (cm_key cm) (Some (OConfigMap b))"
        "\<And>err. r = Inl err \<Longrightarrow> \<not> IsConflict err \<and> reason_for err \<noteq> Some Unprocessable"
      using patch_commits_data [OF com] by metis
    have fin: "cas_post (cm_key cm) (DataKey t) (mget (Data cm) (DataKey t)) nextData (log w) l s"
      if "still (log w') l" "\<forall>err. s = Some err \<longrightarrow> \<not> IsConflict err" for l s
      unfolding cas_post_def cas_commit_def
      using that ab(1-3) own ab(4) sent by metis
    show ?thesis
    proof (cases r)
      case (Inl err)
      with ab(5) fin [OF grows.refl] show ?thesis by (simp add: classifyLedgerPatchError_def wp_ret)
    next
      case (Inr updated)
      show ?thesis unfolding Inr sum.case
        by (rule wp_mono [OF calmED [OF calmE_after_patch [OF g t]]]) (auto intro: fin)
    qed
  qed
  have sent: "grows (sent_to (cm_key cm)) (log w) n" if "still (log w) l" "still (l @ [Sent ?q]) n" for l n
    using that by (intro grows_sent [where q = ?q]) auto
  show ?thesis
    unfolding api_PatchConfigMap_def Some option.case wp_bind
  proof (rule wp_mono [OF requestsD [OF req]], elim exE conjE disjE)
    fix r :: "goerr + configmap" and w' l n
    assume "still (log w) l" "still (l @ [Sent ?q]) n" "log w' = n" "is_err r"
    then show "wp (case r of Inl e \<Rightarrow> classifyLedgerPatchError x g cm role t e
        | Inr updated \<Rightarrow> after_patch x (Some g) g cm role t nextData updated) ?post w'"
      using fail [of w'] sent [of l n] by (auto simp: is_err_def)
  next
    fix r :: "goerr + configmap" and w' l n e
    assume "still (log w) l" "still (l @ [Sent ?q]) n" "log w' = n @ [e]" "?commits n e r"
    then show "wp (case r of Inl e \<Rightarrow> classifyLedgerPatchError x g cm role t e
        | Inr updated \<Rightarrow> after_patch x (Some g) g cm role t nextData updated) ?post w'"
      by (intro commit sent)
  qed
qed

lemma wp_guardE_ret:
  "wp (guardE (ret e) k) Q w \<longleftrightarrow> (case e of Some e \<Rightarrow> Q (Some e) w | None \<Rightarrow> wp k Q w)"
  by (simp add: wp_guardE wp_ret)

lemma PatchLedgerData_cas:
  assumes g: "lawful_guard log g" and t: "role_template g role = Some t"
    and valid: "ValidString (ResourceVersion (cm_meta cm))" "ValidString (mget (Data cm) (DataKey t))"
      "ValidString (DataKey t)" "ValidString nextData"
  shows "wp (PatchLedgerData x (Some g) cm role nextData)
    (\<lambda>r w'. cas_post (cm_key cm) (DataKey t) (mget (Data cm) (DataKey t)) nextData (log w) (log w') r) w"
proof -
  let ?post = "\<lambda>r w'. cas_post (cm_key cm) (DataKey t) (mget (Data cm) (DataKey t)) nextData (log w) (log w') r"
  have err: "wp (ret (Some e)) ?post w" for e
    by (simp add: wp_ret cas_post_failed grows.refl)
  show ?thesis
  proof (cases "CheckLedger x (Some g) (Some cm) role")
    case None
    then have "ValidString (UID (cm_meta cm))" by (auto dest: CheckLedger_ValidUID simp: ValidUID_def)
    then have wf: "wf_json (marshal_patch (ledger_patch cm (DataKey t) nextData))"
      using valid by (intro wf_ledger_patch)
    have main: "wp (guardE (Check x (Some g)) (do {
        r \<leftarrow> api_PatchConfigMap (Bootstrap g) (Namespace (cm_meta cm)) (Name (cm_meta cm))
              (print_json (marshal_patch (ledger_patch cm (DataKey t) nextData)));
        case r of Inl e \<Rightarrow> classifyLedgerPatchError x g cm role t e
        | Inr updated \<Rightarrow> after_patch x (Some g) g cm role t nextData updated })) ?post w"
      unfolding wp_guardE
      by (rule wp_mono [OF calmED [OF calmE_Check]])
        (use g in \<open>auto intro: cas_post_failed wp_mono [OF patch_step [OF g t wf]] cas_post_still_pre split: option.split\<close>)
    show ?thesis
      unfolding PatchLedgerData_def wp_guardE_ret None option.case t
      using err main [unfolded after_patch_def] by (simp split: option.split)
  next
    case (Some e)
    then show ?thesis unfolding PatchLedgerData_def wp_guardE_ret
      by (simp add: cas_post_failed grows.refl)
  qed
qed

section \<open>The optimistic update\<close>

lemma update_cas:
  assumes "lawful_client log c" and "stored (log w) (cm_key cm) (OConfigMap cm)"
  shows "wp (Update_cm c (cm\<lparr>Data := [(dk, nextData)]\<rparr>))
    (\<lambda>r w'. cas_post (cm_key cm) dk (mget (Data cm) dk) nextData (log w) (log w') r) w"
proof -
  let ?new = "cm\<lparr>Data := [(dk, nextData)]\<rparr>"
  let ?q = "ReqUpdate (cm_key cm) (OConfigMap ?new)"
  have key: "cm_key ?new = cm_key cm" by (simp add: cm_key_def)
  have req: "requests log ?q (\<lambda>r. r \<noteq> None) (update_commits ?new) (Update_cm c ?new)"
    using assms(1) key unfolding lawful_client_def by metis
  have sent: "grows (sent_to (cm_key cm)) (log w) n" if "still (log w) l" "still (l @ [Sent ?q]) n" for l n
    using that by (intro grows_sent [where q = ?q]) auto
  show ?thesis
  proof (rule wp_mono [OF requestsD [OF req]], elim exE conjE disjE)
    fix r :: "goerr option" and w' l n
    assume "still (log w) l" "still (l @ [Sent ?q]) n" "log w' = n" "r \<noteq> None"
    then show "cas_post (cm_key cm) dk (mget (Data cm) dk) nextData (log w) (log w') r"
      using sent by (auto simp: cas_post_def)
  next
    fix r :: "goerr option" and w' l n e
    assume n: "still (log w) l" "still (l @ [Sent ?q]) n" and own: "log w' = n @ [e]"
      and com: "update_commits ?new n e r"
    from com obtain old new where *: "current n (cm_key cm) = Some (OConfigMap old)"
        "\<And>a. stored n (cm_key cm) (OConfigMap a) \<Longrightarrow> same_version a ?new \<Longrightarrow> a = old"
        "stored_as ?new new" "e = Own (cm_key cm) (Some (OConfigMap new))"
        "\<And>err. r = Some err \<Longrightarrow> \<not> IsConflict err"
      unfolding update_commits_def key by blast
    have "cm = old"
      by (rule *(2)) (use grows_stored [OF sent [OF n] assms(2)] in \<open>auto simp: same_version_def\<close>)
    moreover have "mget (Data new) dk = nextData" using stored_as_Data [OF *(3)] by (simp add: mget_def)
    ultimately show "cas_post (cm_key cm) dk (mget (Data cm) dk) nextData (log w) (log w') r"
      unfolding cas_post_def cas_commit_def using sent [OF n] own * grows.refl by metis
  qed
qed

section \<open>Ledgers\<close>

text \<open>
  The state in a stored object, and an own commit that takes a ledger from one state to another.
\<close>

definition ledger_state :: "(string \<Rightarrow> goerr + 'st) \<Rightarrow> string \<Rightarrow> obj \<Rightarrow> 'st option" where
  "ledger_state decode dk v = (case v of OConfigMap cm \<Rightarrow>
     (case decode (mget (Data cm) dk) of Inl _ \<Rightarrow> None | Inr s \<Rightarrow> Some s) | _ \<Rightarrow> None)"

definition state_commit ::
  "(string \<Rightarrow> goerr + 'st) \<Rightarrow> okey \<Rightarrow> string \<Rightarrow> 'st \<Rightarrow> 'st \<Rightarrow> event list \<Rightarrow> event list \<Rightarrow> bool" where
  "state_commit decode k dk s t l l' \<longleftrightarrow>
     (\<exists>m a b. grows (sent_to k) l m \<and> current m k = Some a \<and> ledger_state decode dk a = Some s \<and>
        ledger_state decode dk b = Some t \<and> still (m @ [Own k (Some b)]) l')"

text \<open>An own event on a ledger: a request for it, or a commit that is a step of \<open>S\<close>.\<close>

definition ledger_event ::
  "(string \<Rightarrow> goerr + 'st) \<Rightarrow> okey \<Rightarrow> string \<Rightarrow> ('st \<Rightarrow> 'st \<Rightarrow> bool) \<Rightarrow> event list \<Rightarrow> event \<Rightarrow> bool" where
  "ledger_event decode k dk S h e \<longleftrightarrow> sent_to k h e \<or>
     (\<exists>a b s t. e = Own k (Some b) \<and> current h k = Some a \<and> ledger_state decode dk a = Some s \<and>
        ledger_state decode dk b = Some t \<and> S s t)"

lemma state_commit_still: "state_commit d k dk c c' l m \<Longrightarrow> still m l' \<Longrightarrow> state_commit d k dk c c' l l'"
  unfolding state_commit_def by (blast intro: grows_trans)

lemma state_commit_sent:
  "grows (sent_to k) l m \<Longrightarrow> state_commit d k dk c c' m l' \<Longrightarrow> state_commit d k dk c c' l l'"
  unfolding state_commit_def by (blast intro: grows_trans)

lemma sent_ledger_event: "grows (sent_to k) l l' \<Longrightarrow> grows (ledger_event decode k dk S) l l'"
  by (erule grows_mono) (simp add: ledger_event_def)

lemma state_commit_grows:
  assumes "state_commit decode k dk s t l l'" and "S s t"
  shows "grows (ledger_event decode k dk S) l l'"
proof -
  obtain m a b where m: "grows (sent_to k) l m" "current m k = Some a" "ledger_state decode dk a = Some s"
      "ledger_state decode dk b = Some t" "still (m @ [Own k (Some b)]) l'"
    using assms(1) unfolding state_commit_def by blast
  have "grows (ledger_event decode k dk S) l (m @ [Own k (Some b)])"
    by (rule grows.own [OF sent_ledger_event [OF m(1)]]) (use m assms(2) in \<open>auto simp: ledger_event_def\<close>)
  then show ?thesis by (rule grows_trans [OF still_grows [OF m(5)]])
qed

lemma ledger_event_mono:
  "ledger_event decode k dk S h e \<Longrightarrow> (\<And>s t. S s t \<Longrightarrow> T s t) \<Longrightarrow> ledger_event decode k dk T h e"
  unfolding ledger_event_def by blast

text \<open>What a handler knows after a read: the version carries the decoded state, and it was stored.\<close>

definition carries :: "(string \<Rightarrow> goerr + 'st) \<Rightarrow> okey \<Rightarrow> string \<Rightarrow> configmap \<Rightarrow> 'st \<Rightarrow> bool" where
  "carries decode k dk cm s \<longleftrightarrow> cm_key cm = k \<and> ValidString (ResourceVersion (cm_meta cm)) \<and>
     decode (mget (Data cm) dk) = Inr s"

definition has_read ::
  "(string \<Rightarrow> goerr + 'st) \<Rightarrow> okey \<Rightarrow> string \<Rightarrow> event list \<Rightarrow> configmap \<Rightarrow> 'st \<Rightarrow> bool" where
  "has_read decode k dk l cm s \<longleftrightarrow> cm_key cm = k \<and> stored l k (OConfigMap cm) \<and>
     ValidString (ResourceVersion (cm_meta cm)) \<and> decode (mget (Data cm) dk) = Inr s"

lemma has_read_grows: "has_read decode k dk l cm s \<Longrightarrow> grows R l l' \<Longrightarrow> has_read decode k dk l' cm s"
  by (auto simp: has_read_def intro: grows_stored)

lemma has_read_carries: "has_read decode k dk l cm s \<longleftrightarrow> carries decode k dk cm s \<and> stored l k (OConfigMap cm)"
  by (auto simp: has_read_def carries_def)

text \<open>
  A codec: what it encodes it decodes, and its output is valid text. The flag \<open>ok\<close> is the
  hypothesis on third-party code under which the laws hold.
\<close>

locale ledger_codec =
  fixes ok :: bool
    and encode :: "'st \<Rightarrow> goerr + string"
    and decode :: "string \<Rightarrow> goerr + 'st"
    and good :: "'st \<Rightarrow> bool"
  assumes decode_encode: "ok \<Longrightarrow> good s \<Longrightarrow> encode s = Inr raw \<Longrightarrow> decode raw = Inr s"
    and encode_text: "ok \<Longrightarrow> good s \<Longrightarrow> encode s = Inr raw \<Longrightarrow> ValidString raw"
    and decode_text: "decode raw = Inr s \<Longrightarrow> ValidString raw"
    and decode_good: "decode raw = Inr s \<Longrightarrow> good s"
begin

lemma encode_inj: "ok \<Longrightarrow> good s \<Longrightarrow> good t \<Longrightarrow> encode s = Inr raw \<Longrightarrow> encode t = Inr raw \<Longrightarrow> s = t"
  using decode_encode [of s raw] decode_encode [of t raw] by simp

lemma cas_commit_state:
  assumes "ok" and "cas_commit k dk old new l l'" and "decode old = Inr s" and "good t" and "encode t = Inr new"
  shows "state_commit decode k dk s t l l'"
proof -
  from assms(2) obtain m a b where "grows (sent_to k) l m" "current m k = Some (OConfigMap a)"
      "mget (Data a) dk = old" "mget (Data b) dk = new" "still (m @ [Own k (Some (OConfigMap b))]) l'"
    unfolding cas_commit_def by blast
  moreover have "decode new = Inr t" using assms by (intro decode_encode)
  ultimately show ?thesis
    unfolding state_commit_def ledger_state_def using assms(3)
    by (intro exI [of _ m] exI [of _ "OConfigMap a"] exI [of _ "OConfigMap b"]) auto
qed

end

text \<open>
  A ledger store: reads give a stored version with its decoded state, and a write of a new state is
  a compare-and-swap against it.
\<close>

locale cas_ledger = ledger_codec ok encode decode good
  for ok :: bool
    and encode :: "'st \<Rightarrow> goerr + string"
    and decode :: "string \<Rightarrow> goerr + 'st"
    and good :: "'st \<Rightarrow> bool" +
  fixes log :: "'w \<Rightarrow> event list"
    and k :: okey
    and dk :: string
    and load :: "('w, goerr + configmap \<times> 'st) op"
    and save :: "configmap \<Rightarrow> 'st \<Rightarrow> ('w, goerr option) op"
  assumes read_law: "ok \<Longrightarrow> wp load (\<lambda>r w'. still (log w) (log w') \<and>
      (\<forall>e. r = Inl e \<longrightarrow> \<not> IsConflict e) \<and>
      (\<forall>cm s. r = Inr (cm, s) \<longrightarrow> cm_key cm = k \<and> stored (log w') k (OConfigMap cm) \<and>
         ValidString (ResourceVersion (cm_meta cm)) \<and> decode (mget (Data cm) dk) = Inr s)) w"
    and write_law: "ok \<Longrightarrow> cm_key cm = k \<Longrightarrow> stored (log w) k (OConfigMap cm) \<Longrightarrow>
      ValidString (ResourceVersion (cm_meta cm)) \<Longrightarrow> decode (mget (Data cm) dk) = Inr s \<Longrightarrow> good t \<Longrightarrow>
      wp (save cm t) (\<lambda>r w'. still (log w) (log w') \<and> r \<noteq> None \<or>
        (\<exists>raw. encode t = Inr raw \<and> cas_post k dk (mget (Data cm) dk) raw (log w) (log w') r)) w"
begin

lemma has_read_good: "has_read decode k dk (log w) cm s \<Longrightarrow> good s"
  by (auto simp: has_read_def intro: decode_good)

lemma wp_read:
  assumes "ok" and "\<And>w' e. still (log w) (log w') \<Longrightarrow> \<not> IsConflict e \<Longrightarrow> Q (Inl e) w'"
    and "\<And>w' cm s. still (log w) (log w') \<Longrightarrow> has_read decode k dk (log w') cm s \<Longrightarrow> Q (Inr (cm, s)) w'"
  shows "wp load Q w"
proof (rule wp_mono [OF read_law [OF assms(1)]])
  fix r w'
  assume "still (log w) (log w') \<and> (\<forall>e. r = Inl e \<longrightarrow> \<not> IsConflict e) \<and>
      (\<forall>cm s. r = Inr (cm, s) \<longrightarrow> cm_key cm = k \<and> stored (log w') k (OConfigMap cm) \<and>
         ValidString (ResourceVersion (cm_meta cm)) \<and> decode (mget (Data cm) dk) = Inr s)"
  then show "Q r w'" by (cases r) (auto intro!: assms simp: has_read_def)
qed

lemma wp_write:
  assumes "ok" and "has_read decode k dk (log w) cm s" and "good t"
    and "\<And>w' e. grows (sent_to k) (log w) (log w') \<Longrightarrow> Q (Some e) w'"
    and "\<And>w' r. state_commit decode k dk s t (log w) (log w') \<Longrightarrow> \<forall>e. r = Some e \<longrightarrow> \<not> IsConflict e \<Longrightarrow> Q r w'"
  shows "wp (save cm t) Q w"
proof (rule wp_mono [OF write_law [where cm = cm and s = s and t = t]])
  fix r w'
  assume *: "still (log w) (log w') \<and> r \<noteq> None \<or>
      (\<exists>raw. encode t = Inr raw \<and> cas_post k dk (mget (Data cm) dk) raw (log w) (log w') r)"
  show "Q r w'"
  proof (cases "grows (sent_to k) (log w) (log w') \<and> r \<noteq> None")
    case True
    then show ?thesis using assms(4) by auto
  next
    case False
    with * obtain raw where "encode t = Inr raw" "cas_commit k dk (mget (Data cm) dk) raw (log w) (log w')"
        "\<forall>e. r = Some e \<longrightarrow> \<not> IsConflict e"
      by (auto simp: cas_post_def dest: still_grows)
    then show ?thesis
      using assms(1-3) by (intro assms(5) cas_commit_state) (auto simp: has_read_def)
  qed
qed (use assms in \<open>auto simp: has_read_def\<close>)

text \<open>The same for the relation that a handler keeps to.\<close>

lemma carries_good: "carries decode k dk cm s \<Longrightarrow> good s"
  by (auto simp: carries_def intro: decode_good)

lemma keeps_load: "ok \<Longrightarrow> keeps_given K log R load"
  unfolding keeps_given_def using wp_read [where Q = "\<lambda>_ w'. grows R (log w) (log w')" for w] still_grows by blast

lemma keeps_read_then:
  assumes "ok" and "\<And>e. keeps_given K log R (f (Inl e))"
    and "\<And>cm s. carries decode k dk cm s \<Longrightarrow> keeps_given (insert (k, OConfigMap cm) K) log R (f (Inr (cm, s)))"
  shows "keeps_given K log R (State_Monad.bind load f)"
  unfolding keeps_given_def wp_bind
proof (intro allI impI wp_read [OF assms(1)])
  fix w w' e
  assume "knows K (log w)" and l: "still (log w) (log w')"
  then have "wp (f (Inl e)) (\<lambda>_ w''. grows R (log w') (log w'')) w'"
    by (intro keepsD [OF assms(2)] knows_grows [OF _ l])
  then show "wp (f (Inl e)) (\<lambda>_ w''. grows R (log w) (log w'')) w'"
    by (rule wp_mono) (rule grows_trans [OF _ still_grows [OF l]])
next
  fix w w' cm s
  assume "knows K (log w)" and l: "still (log w) (log w')" and "has_read decode k dk (log w') cm s"
  then have "wp (f (Inr (cm, s))) (\<lambda>_ w''. grows R (log w') (log w'')) w'"
    using knows_grows [of K "log w" _ "log w'"] by (intro keepsD [OF assms(3)]) (auto simp: has_read_carries)
  then show "wp (f (Inr (cm, s))) (\<lambda>_ w''. grows R (log w) (log w'')) w'"
    by (rule wp_mono) (rule grows_trans [OF _ still_grows [OF l]])
qed

lemma keeps_rtryE_load:
  "ok \<Longrightarrow> (\<And>cm s. carries decode k dk cm s \<Longrightarrow> keeps_given (insert (k, OConfigMap cm) K) log R (f (cm, s))) \<Longrightarrow>
     keeps_given K log R (rtryE load f)"
  unfolding rtryE_def by (rule keeps_read_then) (auto intro: keeps_ret)

lemma keeps_rtry_load:
  "ok \<Longrightarrow> (\<And>cm s. carries decode k dk cm s \<Longrightarrow> keeps_given (insert (k, OConfigMap cm) K) log R (f (cm, s))) \<Longrightarrow>
     keeps_given K log R (rtry load f)"
  unfolding rtry_def by (rule keeps_read_then) (auto intro: keeps_ret)

lemma runs_to_rtryE_load:
  assumes "ok" and "grows R l (log w)"
    and "\<And>w cm s. grows R l (log w) \<Longrightarrow> has_read decode k dk (log w) cm s \<Longrightarrow> runs_to log R l w (f (cm, s))"
  shows "runs_to log R l w (rtryE load f)"
  unfolding wp_rtryE
proof (rule wp_read [OF assms(1)])
  fix w'
  assume st: "still (log w) (log w')"
  have g: "grows R l (log w')" by (rule grows_trans [OF still_grows [OF st] assms(2)])
  then show "case Inl e of Inl e \<Rightarrow> grows R l (log w') | Inr x \<Rightarrow> runs_to log R l w' (f x)" for e :: goerr by simp
  show "case Inr (cm, s) of Inl e \<Rightarrow> grows R l (log w') | Inr x \<Rightarrow> runs_to log R l w' (f x)"
    if "has_read decode k dk (log w') cm s" for cm s
    using assms(3) [OF g that] by simp
qed

lemma keeps_save:
  assumes "ok" and "carries decode k dk cm s" and "(k, OConfigMap cm) \<in> K" and "good t" and "S s t"
    and "\<And>h e. ledger_event decode k dk S h e \<Longrightarrow> R h e"
  shows "keeps_given K log R (save cm t)"
  unfolding keeps_given_def
proof (intro allI impI)
  fix w
  assume "knows K (log w)"
  with assms(2,3) have "has_read decode k dk (log w) cm s" by (auto simp: has_read_carries knows_def)
  then show "wp (save cm t) (\<lambda>_ w'. grows R (log w) (log w')) w"
  proof (rule wp_write [OF assms(1) _ assms(4)])
    fix w'
    show "grows R (log w) (log w')" if "grows (sent_to k) (log w) (log w')"
      by (rule grows_mono [OF sent_ledger_event [OF that] assms(6)])
    show "grows R (log w) (log w')" if "state_commit decode k dk s t (log w) (log w')"
      by (rule grows_mono [OF state_commit_grows [where S = S, OF that assms(5)] assms(6)])
  qed
qed

text \<open>A proposal that does not encode is not stored, so a step may rely on its validity.\<close>

lemma keeps_save_valid:
  assumes "ok" and "carries decode k dk cm s" and "(k, OConfigMap cm) \<in> K" and "good t"
    and "\<And>raw. encode t = Inr raw \<Longrightarrow> S s t"
    and "\<And>h e. ledger_event decode k dk S h e \<Longrightarrow> R h e"
  shows "keeps_given K log R (save cm t)"
proof (cases "\<exists>raw. encode t = Inr raw")
  case True
  then obtain raw where "encode t = Inr raw" ..
  then show ?thesis by (intro keeps_save [where S = S, OF assms(1-4) assms(5) assms(6)])
next
  case False
  show ?thesis
    unfolding keeps_given_def
  proof (intro allI impI)
    fix w
    assume "knows K (log w)"
    then have "stored (log w) k (OConfigMap cm)" using assms(3) by (auto simp: knows_def)
    then have "wp (save cm t) (\<lambda>r w'. still (log w) (log w') \<and> r \<noteq> None \<or>
        (\<exists>raw. encode t = Inr raw \<and> cas_post k dk (mget (Data cm) dk) raw (log w) (log w') r)) w"
      using assms(2) by (intro write_law [OF assms(1) _ _ _ _ assms(4)]) (auto simp: carries_def)
    then show "wp (save cm t) (\<lambda>_ w'. grows R (log w) (log w')) w"
      by (rule wp_mono) (use False in \<open>auto intro: still_grows\<close>)
  qed
qed

lemma yields_load: "ok \<Longrightarrow> yields log load (\<lambda>(cm, s). carries decode k dk cm s) (\<lambda>(cm, s). {(k, OConfigMap cm)})"
  unfolding yields_def by (intro allI wp_read) (auto simp: has_read_carries)

end

end
