(* ===== verification/Recovery_Receipt.thy ===== *)
theory Recovery_Receipt
  imports Ledger_Cas
begin

text \<open>
  Recovery receipts (\<open>internal/service/recoveryreceipt/queue.go\<close> and \<open>effect.go\<close>): immutable
  ConfigMaps that record an intent before its effect. The queue receipt comes before the one
  authorised creation of a build, the grant receipt before any Pod creation, the Pod receipt before
  the one authorised Pod creation.
\<close>

section \<open>Strings\<close>

definition lowerHex :: "string \<Rightarrow> nat \<Rightarrow> bool" where
  "lowerHex s n \<longleftrightarrow> length s = n \<and> list_all is_lower_hex s"

definition opaqueUID :: "string \<Rightarrow> bool" where
  "opaqueUID s \<longleftrightarrow> s \<noteq> [] \<and> length s \<le> 256 \<and> ValidString s"

definition digestSHA256 :: "string \<Rightarrow> bool" where
  "digestSHA256 s \<longleftrightarrow> HasPrefix s ''sha256:'' \<and> lowerHex (TrimPrefix s ''sha256:'') 64"

text \<open>The code points of a string; an invalid byte is U+FFFD, as in a Go range loop.\<close>

definition rune_at :: "string \<Rightarrow> nat" where
  "rune_at s =
    (let b = (\<lambda>i. code (s ! i) mod 64) in
     if rune_len s = 1 then code (s ! 0)
     else if rune_len s = 2 then (code (s ! 0) mod 32) * 64 + b 1
     else if rune_len s = 3 then (code (s ! 0) mod 16) * 4096 + b 1 * 64 + b 2
     else if rune_len s = 4 then (code (s ! 0) mod 8) * 262144 + b 1 * 4096 + b 2 * 64 + b 3
     else 65533)"

function runes :: "string \<Rightarrow> nat list" where
  "runes s = (if s = [] then [] else rune_at s # runes (drop (max 1 (rune_len s)) s))"
  by pat_completeness auto
termination
  by (relation "measure length") auto

declare runes.simps [simp del]

text \<open>\<open>unicode.IsSpace\<close> and \<open>unicode.IsControl\<close>.\<close>

definition IsSpace :: "nat \<Rightarrow> bool" where
  "IsSpace r \<longleftrightarrow> 9 \<le> r \<and> r \<le> 13 \<or> r = 32 \<or> r = 133 \<or> r = 160 \<or> r = 5760 \<or>
     8192 \<le> r \<and> r \<le> 8202 \<or> r = 8232 \<or> r = 8233 \<or> r = 8239 \<or> r = 8287 \<or> r = 12288"

definition IsControl :: "nat \<Rightarrow> bool" where
  "IsControl r \<longleftrightarrow> r < 32 \<or> 127 \<le> r \<and> r < 160"

definition safeEffectID :: "string \<Rightarrow> nat \<Rightarrow> bool" where
  "safeEffectID s n \<longleftrightarrow> s \<noteq> [] \<and> length s \<le> n \<and> ValidString s \<and>
     list_all (\<lambda>r. \<not> IsSpace r \<and> \<not> IsControl r) (runes s)"

section \<open>Data digests\<close>

definition marshal_strings :: "(string, string) gomap \<Rightarrow> json" where
  "marshal_strings m = JObj (map (\<lambda>(k, v). (k, JStr v)) m)"

definition DigestData :: "(string, string) gomap \<Rightarrow> goerr + string" where
  "DigestData data =
    (if data = [] then Inl ErrReceiptInvalid
     else let raw = print_json (marshal_strings data) in
       if 32768 < length raw then Inl ErrReceiptInvalid else Inr (''sha256:'' @ sha256_hex raw))"

section \<open>Queue receipts\<close>

abbreviation queueReceiptPrefix :: string where "queueReceiptPrefix \<equiv> ''kova-admission-intent-''"
abbreviation queueReceiptLabel :: string where "queueReceiptLabel \<equiv> ''kova.cofy.dev/admission-receipt''"
abbreviation queueReceiptData :: string where "queueReceiptData \<equiv> ''queue-intent''"

record QueueIntent =
  QINamespace :: string
  QINamespaceUID :: string
  QIReceiptNamespace :: string
  QIReceiptNamespaceUID :: string
  QIGenesisName :: string
  QIGenesisUID :: string
  QIGeneration :: string
  QIActiveLedgerUID :: string
  QIQueueLedgerUID :: string
  QIBuildName :: string
  QIRequesterName :: string
  QIRequesterHash :: string
  QIRequesterUID :: string
  QIRequestDigest :: string
  QISourceDigest :: string
  QIQueueNonce :: string

record ObservedQueueIntent =
  ObservedIntent :: QueueIntent
  ObservedReceiptName :: string
  ObservedReceiptUID :: string
  ObservedResourceVersion :: string
  ObservedDataDigest :: string

definition QueueIntent_data :: "QueueIntent \<Rightarrow> (string, string) gomap" where
  "QueueIntent_data q =
    fold (\<lambda>(k, v). mput k v)
     [(''version'', ''1''), (''namespaceName'', QINamespace q), (''namespaceUID'', QINamespaceUID q),
      (''receiptNamespaceName'', QIReceiptNamespace q), (''receiptNamespaceUID'', QIReceiptNamespaceUID q),
      (''genesisName'', QIGenesisName q), (''genesisUID'', QIGenesisUID q), (''generation'', QIGeneration q),
      (''activeLedgerUID'', QIActiveLedgerUID q), (''queueLedgerUID'', QIQueueLedgerUID q),
      (''buildName'', QIBuildName q), (''requesterName'', QIRequesterName q),
      (''requesterHash'', QIRequesterHash q), (''requesterUID'', QIRequesterUID q),
      (''requestDigest'', QIRequestDigest q), (''sourceDigest'', QISourceDigest q),
      (''queueNonce'', QIQueueNonce q)] []"

definition QueueIntent_validate :: "'x ext_scheme \<Rightarrow> QueueIntent \<Rightarrow> goerr option" where
  "QueueIntent_validate x q =
    (if \<not> IsDNS1123Label x (QINamespace q) \<or> \<not> IsDNS1123Label x (QIReceiptNamespace q) \<or>
        QIReceiptNamespace q = QINamespace q \<or> \<not> opaqueUID (QIReceiptNamespaceUID q) \<or>
        \<not> IsDNS1123Subdomain x (QIGenesisName q) \<or> \<not> IsDNS1123Subdomain x (QIBuildName q) \<or>
        \<not> opaqueUID (QINamespaceUID q) \<or> \<not> opaqueUID (QIGenesisUID q) \<or>
        \<not> opaqueUID (QIActiveLedgerUID q) \<or> \<not> opaqueUID (QIQueueLedgerUID q) \<or>
        \<not> lowerHex (QIGeneration q) 32 \<or> \<not> lowerHex (QIQueueNonce q) 32 \<or>
        QIRequesterName q = [] \<or> \<not> ValidString (QIRequesterName q) \<or>
        253 < RuneCountInString (QIRequesterName q) \<or>
        \<not> lowerHex (QIRequesterHash q) 64 \<or> \<not> lowerHex (QIRequestDigest q) 64 \<or>
        \<not> ValidString (QIRequesterUID q) \<or> 253 < RuneCountInString (QIRequesterUID q) \<or>
        \<not> HasPrefix (QISourceDigest q) ''sha256:'' \<or>
        \<not> lowerHex (TrimPrefix (QISourceDigest q) ''sha256:'') 64
     then Some ErrReceiptInvalid
     else if sha256_hex (QIRequesterName q) \<noteq> QIRequesterHash q then Some ErrReceiptInvalid
     else if 16384 < length (print_json (marshal_strings (QueueIntent_data q))) then Some ErrReceiptInvalid
     else None)"

definition QueueIntent_name :: "QueueIntent \<Rightarrow> string" where
  "QueueIntent_name q = queueReceiptPrefix @ QIQueueNonce q"

definition NewQueueConfigMap :: "'x ext_scheme \<Rightarrow> QueueIntent \<Rightarrow> goerr + configmap" where
  "NewQueueConfigMap x q =
    (case QueueIntent_validate x q of
       Some e \<Rightarrow> Inl e
     | None \<Rightarrow> Inr \<lparr>cm_meta = empty_meta\<lparr>Namespace := QIReceiptNamespace q, Name := QueueIntent_name q,
           Labels := [(queueReceiptLabel, queueReceiptData)]\<rparr>,
         Immutable = Some True, Data = QueueIntent_data q, BinaryData = []\<rparr>)"

definition QualifyQueue :: "'x ext_scheme \<Rightarrow> QueueIntent \<Rightarrow> configmap option \<Rightarrow> goerr + ObservedQueueIntent" where
  "QualifyQueue x q observed =
    (case QueueIntent_validate x q of
       Some e \<Rightarrow> Inl e
     | None \<Rightarrow>
         (case observed of
            None \<Rightarrow> Inl ErrReceiptChanged
          | Some cm \<Rightarrow>
              if Namespace (cm_meta cm) \<noteq> QIReceiptNamespace q \<or> Name (cm_meta cm) \<noteq> QueueIntent_name q \<or>
                 \<not> opaqueUID (UID (cm_meta cm)) \<or> ResourceVersion (cm_meta cm) = [] \<or>
                 DeletionTimestamp (cm_meta cm) \<noteq> None \<or> Immutable cm \<noteq> Some True \<or>
                 length (BinaryData cm) \<noteq> 0 \<or> length (OwnerReferences (cm_meta cm)) \<noteq> 0 \<or>
                 length (Data cm) \<noteq> length (QueueIntent_data q) \<or>
                 mget (Labels (cm_meta cm)) queueReceiptLabel \<noteq> queueReceiptData
              then Inl ErrReceiptChanged
              else if \<not> list_all (\<lambda>(key, want). mget (Data cm) key = want) (QueueIntent_data q)
              then Inl ErrReceiptChanged
              else (case DigestData (Data cm) of
                  Inl e \<Rightarrow> Inl ErrReceiptChanged
                | Inr digest \<Rightarrow> Inr \<lparr>ObservedIntent = q, ObservedReceiptName = Name (cm_meta cm),
                    ObservedReceiptUID = UID (cm_meta cm), ObservedResourceVersion = ResourceVersion (cm_meta cm),
                    ObservedDataDigest = digest\<rparr>)))"

text \<open>The typed ConfigMap client of one namespace; the nil interface is \<open>None\<close>.\<close>

record 'w configmaps =
  CM_Create :: "configmap \<Rightarrow> ('w, configmap option \<times> goerr option) op"
  CM_Get :: "string \<Rightarrow> ('w, goerr + configmap) op"
  CM_Delete :: "string \<Rightarrow> string option \<Rightarrow> ('w, goerr option) op"

text \<open>A Create error that says this call did not create the object.\<close>

definition definitive :: "goerr option \<Rightarrow> bool" where
  "definitive err = (case err of None \<Rightarrow> False | Some e \<Rightarrow>
     reason_for e \<in> {Some AlreadyExists, Some Forbidden, Some Unprocessable, Some BadRequest, Some Unauthorized})"

definition RecordQueueOnce ::
  "'x ext_scheme \<Rightarrow> 'w configmaps option \<Rightarrow> QueueIntent \<Rightarrow> ('w, goerr + ObservedQueueIntent) op" where
  "RecordQueueOnce x api q =
    (case api of
       None \<Rightarrow> ret (Inl (Wrap ''direct ConfigMap API is missing'' ErrReceiptInvalid))
     | Some a \<Rightarrow>
         attempt (ret (NewQueueConfigMap x q)) (\<lambda>cm. do {
           (created, createErr) \<leftarrow> CM_Create a cm;
           back \<leftarrow> CM_Get a (Name (cm_meta cm));
           case back of
             Inl e \<Rightarrow> ret (Inl (Wrap ''Create result; direct read'' ErrReceiptUnconfirmed))
           | Inr readback \<Rightarrow>
               attempt (ret (QualifyQueue x q (Some readback))) (\<lambda>observed.
               ret (case created of
                  Some c \<Rightarrow>
                    (case QualifyQueue x q (Some c) of
                       Inl _ \<Rightarrow> Inl ErrReceiptChanged
                     | Inr w \<Rightarrow>
                         if ObservedReceiptUID w \<noteq> ObservedReceiptUID observed then Inl ErrReceiptChanged
                         else if definitive createErr then Inl ErrReceiptUnconfirmed else Inr observed)
                | None \<Rightarrow>
                    if createErr = None \<or> definitive createErr then Inl ErrReceiptUnconfirmed
                    else Inr observed)) }))"

definition ObserveQueue ::
  "'x ext_scheme \<Rightarrow> 'w configmaps option \<Rightarrow> QueueIntent \<Rightarrow> ('w, goerr + ObservedQueueIntent) op" where
  "ObserveQueue x api q =
    (case api of
       None \<Rightarrow> ret (Inl (Wrap ''direct ConfigMap API is missing'' ErrReceiptInvalid))
     | Some a \<Rightarrow>
         guard (ret (QueueIntent_validate x q)) (do {
           back \<leftarrow> CM_Get a (QueueIntent_name q);
           case back of
             Inl e \<Rightarrow> ret (Inl (Wrap ''direct read'' ErrReceiptUnconfirmed))
           | Inr cm \<Rightarrow> ret (QualifyQueue x q (Some cm)) }))"

section \<open>Grant and Pod receipts\<close>

abbreviation grantReceiptPrefix :: string where "grantReceiptPrefix \<equiv> ''kova-grant-intent-''"
abbreviation podReceiptPrefix :: string where "podReceiptPrefix \<equiv> ''kova-pod-create-intent-''"
abbreviation effectReceiptLabel :: string where "effectReceiptLabel \<equiv> ''kova.cofy.dev/recovery-receipt''"

record PinnedBuild =
  PBNamespace :: string
  PBNamespaceUID :: string
  PBReceiptNamespace :: string
  PBReceiptNamespaceUID :: string
  PBGenesisName :: string
  PBGenesisUID :: string
  PBGeneration :: string
  PBActiveLedgerUID :: string
  PBQueueLedgerUID :: string
  PBBuildName :: string
  PBBuildUID :: string
  PBRequesterName :: string
  PBRequesterUID :: string
  PBRequesterHash :: string
  PBRequestDigest :: string
  PBSourceDigest :: string
  PBWorkerPoolID :: string

definition PinnedBuild_validate :: "'x ext_scheme \<Rightarrow> PinnedBuild \<Rightarrow> goerr option" where
  "PinnedBuild_validate x b =
    (if \<not> IsDNS1123Label x (PBNamespace b) \<or> \<not> IsDNS1123Label x (PBReceiptNamespace b) \<or>
        PBReceiptNamespace b = PBNamespace b \<or> \<not> opaqueUID (PBReceiptNamespaceUID b) \<or>
        \<not> IsDNS1123Subdomain x (PBGenesisName b) \<or> \<not> IsDNS1123Subdomain x (PBBuildName b) \<or>
        \<not> opaqueUID (PBNamespaceUID b) \<or> \<not> opaqueUID (PBGenesisUID b) \<or>
        \<not> opaqueUID (PBActiveLedgerUID b) \<or> \<not> opaqueUID (PBQueueLedgerUID b) \<or> \<not> opaqueUID (PBBuildUID b) \<or>
        \<not> lowerHex (PBGeneration b) 32 \<or> \<not> lowerHex (PBRequesterHash b) 64 \<or> \<not> lowerHex (PBRequestDigest b) 64 \<or>
        PBRequesterName b = [] \<or> \<not> ValidString (PBRequesterName b) \<or> 253 < RuneCountInString (PBRequesterName b) \<or>
        \<not> ValidString (PBRequesterUID b) \<or> 253 < RuneCountInString (PBRequesterUID b) \<or>
        \<not> HasPrefix (PBSourceDigest b) ''sha256:'' \<or> \<not> lowerHex (TrimPrefix (PBSourceDigest b) ''sha256:'') 64 \<or>
        \<not> safeEffectID (PBWorkerPoolID b) 128
     then Some ErrReceiptInvalid
     else if sha256_hex (PBRequesterName b) \<noteq> PBRequesterHash b then Some ErrReceiptInvalid
     else None)"

record ReceiptLink =
  LinkName :: string
  LinkUID :: string
  LinkDataDigest :: string

definition ReceiptLink_validate :: "string \<Rightarrow> ReceiptLink \<Rightarrow> goerr option" where
  "ReceiptLink_validate prefix l =
    (if \<not> HasPrefix (LinkName l) prefix \<or> \<not> lowerHex (TrimPrefix (LinkName l) prefix) 32 \<or>
        \<not> opaqueUID (LinkUID l) \<or> \<not> HasPrefix (LinkDataDigest l) ''sha256:'' \<or>
        \<not> lowerHex (TrimPrefix (LinkDataDigest l) ''sha256:'') 64
     then Some ErrReceiptInvalid else None)"

record GrantIntent =
  GrantBuild :: PinnedBuild
  AdmissionMode :: string
  QueueReceipt :: "ReceiptLink option"
  GrantNonce :: string
  ActiveLedgerFence :: nat
  ActiveLedgerRV :: string
  AllocatedWorkerSlots :: int

record PodCreateIntent =
  PodBuild :: PinnedBuild
  GrantReceipt :: ReceiptLink
  PodName :: string
  PodAttemptNonce :: string
  PodTemplateDigest :: string
  RunnerImageDigest :: string
  BuildRequestID :: string

definition marshal_PinnedBuild :: "PinnedBuild \<Rightarrow> json" where
  "marshal_PinnedBuild b = JObj
     [(''namespace'', JStr (PBNamespace b)), (''namespaceUid'', JStr (PBNamespaceUID b)),
      (''receiptNamespace'', JStr (PBReceiptNamespace b)), (''receiptNamespaceUid'', JStr (PBReceiptNamespaceUID b)),
      (''genesisName'', JStr (PBGenesisName b)), (''genesisUid'', JStr (PBGenesisUID b)),
      (''generation'', JStr (PBGeneration b)), (''activeLedgerUid'', JStr (PBActiveLedgerUID b)),
      (''queueLedgerUid'', JStr (PBQueueLedgerUID b)), (''buildName'', JStr (PBBuildName b)),
      (''buildUid'', JStr (PBBuildUID b)), (''requesterName'', JStr (PBRequesterName b)),
      (''requesterUid'', JStr (PBRequesterUID b)), (''requesterHash'', JStr (PBRequesterHash b)),
      (''requestDigest'', JStr (PBRequestDigest b)), (''sourceDigest'', JStr (PBSourceDigest b)),
      (''workerPoolId'', JStr (PBWorkerPoolID b))]"

definition marshal_ReceiptLink :: "ReceiptLink \<Rightarrow> json" where
  "marshal_ReceiptLink l = JObj
     [(''name'', JStr (LinkName l)), (''uid'', JStr (LinkUID l)), (''dataDigest'', JStr (LinkDataDigest l))]"

definition marshal_GrantIntent :: "GrantIntent \<Rightarrow> json" where
  "marshal_GrantIntent g = JObj (
     [(''build'', marshal_PinnedBuild (GrantBuild g)), (''admissionMode'', JStr (AdmissionMode g))] @
     (case QueueReceipt g of None \<Rightarrow> [] | Some l \<Rightarrow> [(''queueReceipt'', marshal_ReceiptLink l)]) @
     [(''grantNonce'', JStr (GrantNonce g)), (''activeLedgerFence'', JNum (dec (ActiveLedgerFence g))),
      (''activeLedgerResourceVersion'', JStr (ActiveLedgerRV g)),
      (''allocatedWorkerSlots'', JNum (dec_int (AllocatedWorkerSlots g)))])"

definition marshal_PodCreateIntent :: "PodCreateIntent \<Rightarrow> json" where
  "marshal_PodCreateIntent p = JObj
     [(''build'', marshal_PinnedBuild (PodBuild p)), (''grantReceipt'', marshal_ReceiptLink (GrantReceipt p)),
      (''podName'', JStr (PodName p)), (''podAttemptNonce'', JStr (PodAttemptNonce p)),
      (''podTemplateDigest'', JStr (PodTemplateDigest p)), (''runnerImageDigest'', JStr (RunnerImageDigest p)),
      (''buildRequestId'', JStr (BuildRequestID p))]"

definition boundedEffect :: "json \<Rightarrow> goerr option" where
  "boundedEffect j = (if 16384 < length (print_json j) then Some ErrReceiptInvalid else None)"

definition GrantIntent_validate :: "'x ext_scheme \<Rightarrow> GrantIntent \<Rightarrow> goerr option" where
  "GrantIntent_validate x g =
    (case PinnedBuild_validate x (GrantBuild g) of
       Some e \<Rightarrow> Some e
     | None \<Rightarrow>
         if \<not> lowerHex (GrantNonce g) 32 \<or> ActiveLedgerFence g = 0 \<or> \<not> safeEffectID (ActiveLedgerRV g) 256 \<or>
            AllocatedWorkerSlots g < 1 \<or> 65535 < AllocatedWorkerSlots g
         then Some ErrReceiptInvalid
         else if AdmissionMode g = ''queued'' then
           (case QueueReceipt g of
              None \<Rightarrow> Some ErrReceiptInvalid
            | Some l \<Rightarrow> if ReceiptLink_validate queueReceiptPrefix l \<noteq> None then Some ErrReceiptInvalid
                else boundedEffect (marshal_GrantIntent g))
         else if AdmissionMode g = ''direct'' then
           (if QueueReceipt g \<noteq> None then Some ErrReceiptInvalid else boundedEffect (marshal_GrantIntent g))
         else Some ErrReceiptInvalid)"

definition PodCreateIntent_validate :: "'x ext_scheme \<Rightarrow> PodCreateIntent \<Rightarrow> goerr option" where
  "PodCreateIntent_validate x p =
    (case PinnedBuild_validate x (PodBuild p) of
       Some e \<Rightarrow> Some e
     | None \<Rightarrow>
         (case ReceiptLink_validate grantReceiptPrefix (GrantReceipt p) of
            Some e \<Rightarrow> Some e
          | None \<Rightarrow>
              if \<not> IsDNS1123Subdomain x (PodName p) \<or> \<not> lowerHex (PodAttemptNonce p) 32 \<or>
                 \<not> digestSHA256 (PodTemplateDigest p) \<or> \<not> digestSHA256 (RunnerImageDigest p) \<or>
                 BuildRequestID p \<noteq> PBBuildUID (PodBuild p)
              then Some ErrReceiptInvalid else boundedEffect (marshal_PodCreateIntent p)))"

record EffectWitness =
  WitnessKind :: string
  EffectReceiptName :: string
  EffectReceiptUID :: string
  EffectResourceVersion :: string
  EffectDataDigest :: string

definition effectData :: "string \<Rightarrow> json \<Rightarrow> goerr + (string, string) gomap" where
  "effectData kind j =
    (let raw = print_json j in
     if 16384 < length raw then Inl ErrReceiptInvalid
     else Inr (mput ''version'' ''1'' (mput ''kind'' kind (mput ''payload'' raw []))))"

definition newEffectConfigMap :: "string \<Rightarrow> string \<Rightarrow> string \<Rightarrow> json \<Rightarrow> goerr + configmap" where
  "newEffectConfigMap ns nm kind j =
    (case effectData kind j of
       Inl e \<Rightarrow> Inl e
     | Inr data \<Rightarrow> Inr \<lparr>cm_meta = empty_meta\<lparr>Namespace := ns, Name := nm, Labels := [(effectReceiptLabel, kind)]\<rparr>,
         Immutable = Some True, Data = data, BinaryData = []\<rparr>)"

definition NewGrantConfigMap :: "'x ext_scheme \<Rightarrow> GrantIntent \<Rightarrow> goerr + configmap" where
  "NewGrantConfigMap x g =
    (case GrantIntent_validate x g of
       Some e \<Rightarrow> Inl e
     | None \<Rightarrow> newEffectConfigMap (PBReceiptNamespace (GrantBuild g)) (grantReceiptPrefix @ GrantNonce g)
         ''grant'' (marshal_GrantIntent g))"

definition NewPodCreateConfigMap :: "'x ext_scheme \<Rightarrow> PodCreateIntent \<Rightarrow> goerr + configmap" where
  "NewPodCreateConfigMap x p =
    (case PodCreateIntent_validate x p of
       Some e \<Rightarrow> Inl e
     | None \<Rightarrow> newEffectConfigMap (PBReceiptNamespace (PodBuild p)) (podReceiptPrefix @ PodAttemptNonce p)
         ''pod-create'' (marshal_PodCreateIntent p))"

definition qualifyEffect :: "configmap \<Rightarrow> configmap option \<Rightarrow> string \<Rightarrow> goerr + EffectWitness" where
  "qualifyEffect expected observed kind =
    (case observed of
       None \<Rightarrow> Inl ErrReceiptChanged
     | Some cm \<Rightarrow>
         if Namespace (cm_meta cm) \<noteq> Namespace (cm_meta expected) \<or> Name (cm_meta cm) \<noteq> Name (cm_meta expected) \<or>
            \<not> opaqueUID (UID (cm_meta cm)) \<or> ResourceVersion (cm_meta cm) = [] \<or>
            DeletionTimestamp (cm_meta cm) \<noteq> None \<or> Immutable cm \<noteq> Some True \<or>
            length (OwnerReferences (cm_meta cm)) \<noteq> 0 \<or> length (BinaryData cm) \<noteq> 0 \<or>
            length (Data cm) \<noteq> length (Data expected) \<or> length (Labels (cm_meta cm)) \<noteq> 1 \<or>
            mget (Labels (cm_meta cm)) effectReceiptLabel \<noteq> kind
         then Inl ErrReceiptChanged
         else if \<not> list_all (\<lambda>(key, want). mget (Data cm) key = want) (Data expected)
         then Inl ErrReceiptChanged
         else (case DigestData (Data cm) of
             Inl e \<Rightarrow> Inl e
           | Inr digest \<Rightarrow> Inr \<lparr>WitnessKind = kind, EffectReceiptName = Name (cm_meta cm),
               EffectReceiptUID = UID (cm_meta cm), EffectResourceVersion = ResourceVersion (cm_meta cm),
               EffectDataDigest = digest\<rparr>))"

definition QualifyGrant :: "'x ext_scheme \<Rightarrow> GrantIntent \<Rightarrow> configmap option \<Rightarrow> goerr + EffectWitness" where
  "QualifyGrant x g observed =
    (case NewGrantConfigMap x g of Inl e \<Rightarrow> Inl e | Inr expected \<Rightarrow> qualifyEffect expected observed ''grant'')"

definition QualifyPodCreate :: "'x ext_scheme \<Rightarrow> PodCreateIntent \<Rightarrow> configmap option \<Rightarrow> goerr + EffectWitness" where
  "QualifyPodCreate x p observed =
    (case NewPodCreateConfigMap x p of Inl e \<Rightarrow> Inl e | Inr expected \<Rightarrow> qualifyEffect expected observed ''pod-create'')"

definition recordEffectOnce ::
  "'w configmaps option \<Rightarrow> configmap \<Rightarrow> string \<Rightarrow> ('w, goerr + EffectWitness) op" where
  "recordEffectOnce api expected kind =
    (case api of
       None \<Rightarrow> ret (Inl (Wrap ''direct ConfigMap API is missing'' ErrReceiptInvalid))
     | Some a \<Rightarrow> do {
         (created, createErr) \<leftarrow> CM_Create a expected;
         back \<leftarrow> CM_Get a (Name (cm_meta expected));
         case back of
           Inl e \<Rightarrow> ret (Inl (Wrap ''Create result; direct read'' ErrReceiptUnconfirmed))
         | Inr readback \<Rightarrow>
             attempt (ret (qualifyEffect expected (Some readback) kind)) (\<lambda>observed.
             ret (case created of
                Some c \<Rightarrow>
                  (case qualifyEffect expected (Some c) kind of
                     Inl _ \<Rightarrow> Inl ErrReceiptChanged
                   | Inr w \<Rightarrow>
                       if EffectReceiptUID w \<noteq> EffectReceiptUID observed then Inl ErrReceiptChanged
                       else if definitive createErr then Inl ErrReceiptUnconfirmed else Inr observed)
              | None \<Rightarrow>
                  if createErr = None \<or> definitive createErr then Inl ErrReceiptUnconfirmed
                  else Inr observed)) })"

definition RecordGrantOnce ::
  "'x ext_scheme \<Rightarrow> 'w configmaps option \<Rightarrow> GrantIntent \<Rightarrow> ('w, goerr + EffectWitness) op" where
  "RecordGrantOnce x api g =
    attempt (ret (NewGrantConfigMap x g)) (\<lambda>expected. recordEffectOnce api expected ''grant'')"

definition RecordPodCreateOnce ::
  "'x ext_scheme \<Rightarrow> 'w configmaps option \<Rightarrow> PodCreateIntent \<Rightarrow> ('w, goerr + EffectWitness) op" where
  "RecordPodCreateOnce x api p =
    attempt (ret (NewPodCreateConfigMap x p)) (\<lambda>expected. recordEffectOnce api expected ''pod-create'')"

definition observeEffect ::
  "'w configmaps option \<Rightarrow> configmap \<Rightarrow> string \<Rightarrow> ('w, goerr + EffectWitness) op" where
  "observeEffect api expected kind =
    (case api of
       None \<Rightarrow> ret (Inl (Wrap ''direct ConfigMap API is missing'' ErrReceiptInvalid))
     | Some a \<Rightarrow> do {
         back \<leftarrow> CM_Get a (Name (cm_meta expected));
         case back of
           Inl e \<Rightarrow> ret (Inl (Wrap ''direct read'' ErrReceiptUnconfirmed))
         | Inr cm \<Rightarrow> ret (qualifyEffect expected (Some cm) kind) })"

definition ObserveGrant ::
  "'x ext_scheme \<Rightarrow> 'w configmaps option \<Rightarrow> GrantIntent \<Rightarrow> ('w, goerr + EffectWitness) op" where
  "ObserveGrant x api g =
    attempt (ret (NewGrantConfigMap x g)) (\<lambda>expected. observeEffect api expected ''grant'')"

definition ObservePodCreate ::
  "'x ext_scheme \<Rightarrow> 'w configmaps option \<Rightarrow> PodCreateIntent \<Rightarrow> ('w, goerr + EffectWitness) op" where
  "ObservePodCreate x api p =
    attempt (ret (NewPodCreateConfigMap x p)) (\<lambda>expected. observeEffect api expected ''pod-create'')"

section \<open>An inexact match\<close>

text \<open>
  The comment above \<open>QualifyQueue\<close> promises the exact original data. Go reads a missing member as the
  empty string, and only the numbers of members are compared: with an empty \<open>requesterUID\<close> that
  member may be missing when any other member stands in for it.
\<close>

definition swapped_data :: "QueueIntent \<Rightarrow> (string, string) gomap" where
  "swapped_data q = mput ''unexpected'' ''anything'' (mdel ''requesterUID'' (QueueIntent_data q))"

lemma QueueIntent_data_map: "go_map (QueueIntent_data q)" "map_of (QueueIntent_data q) ''requesterUID'' = Some (QIRequesterUID q)"
  "map_of (QueueIntent_data q) ''unexpected'' = None"
  by (simp_all add: QueueIntent_data_def gomap_simps del: mput.simps)

lemma mget_swap:
  assumes "go_map m" and "map_of m a = Some []" and "map_of m b = None" and "(k, want) \<in> set m"
  shows "mget (mput b v (mdel a m)) k = want"
proof -
  have "map_of m k = Some want"
    using assms(1,4) by (simp add: go_map_def strict_sorted_iff)
  then show ?thesis
    using assms by (auto simp: mget_def gomap_simps)
qed

lemma QualifyQueue_inexact:
  assumes "QueueIntent_validate x q = None" and "QIRequesterUID q = []" and "NewQueueConfigMap x q = Inr cm"
    and "opaqueUID u" and "v \<noteq> []" and "DigestData (swapped_data q) = Inr d"
  defines "observed \<equiv> cm\<lparr>cm_meta := (cm_meta cm)\<lparr>UID := u, ResourceVersion := v\<rparr>, Data := swapped_data q\<rparr>"
  shows "(\<exists>w. QualifyQueue x q (Some observed) = Inr w) \<and> Data observed \<noteq> QueueIntent_data q"
proof -
  note data = QueueIntent_data_map [of q]
  have swapped: "map_of (swapped_data q) = (map_of (QueueIntent_data q))(''requesterUID'' := None, ''unexpected'' \<mapsto> ''anything'')"
    using data(1) by (simp add: swapped_data_def gomap_simps)
  have "QueueIntent_data q \<noteq> []" using data(2) by auto
  then have size: "length (swapped_data q) = length (QueueIntent_data q)"
    using data by (simp add: swapped_data_def length_mput length_mdel gomap_simps)
  have all: "list_all (\<lambda>(key, want). mget (swapped_data q) key = want) (QueueIntent_data q)"
    using mget_swap [OF data(1) data(2) [unfolded assms(2)] data(3)] by (auto simp: list_all_iff swapped_data_def)
  have "swapped_data q \<noteq> QueueIntent_data q" using swapped data(3) by (metis fun_upd_same option.distinct(1))
  then show ?thesis
    using assms size all by (auto simp: QualifyQueue_def NewQueueConfigMap_def empty_meta_def mget_def)
qed

end
