(* ===== verification/Queue_Store.thy ===== *)
theory Queue_Store
  imports Queue_State Recovery_Receipt
begin

text \<open>
  The operations of the queue ledger (\<open>internal/service/queueadmission/ledger.go\<close>) against the
  Kubernetes API. A context that a caller may leave nil is the flag \<open>ctx\<close>; the observation token is
  an option. The operations that take no observation pass \<open>True\<close> and \<open>None\<close>.
\<close>

section \<open>The store\<close>

abbreviation ConfigMapName :: string where "ConfigMapName \<equiv> ''kova-service-queue-admission''"
abbreviation IntentAnnotation :: string where "IntentAnnotation \<equiv> ''kova.cofy.dev/queue-intent''"
abbreviation ReceiptUIDAnnotation :: string where "ReceiptUIDAnnotation \<equiv> ''kova.cofy.dev/queue-receipt-uid''"
abbreviation ReceiptDigestAnnotation :: string where
  "ReceiptDigestAnnotation \<equiv> ''kova.cofy.dev/queue-receipt-digest''"
abbreviation ReceiptSettledAnnotation :: string where
  "ReceiptSettledAnnotation \<equiv> ''kova.cofy.dev/queue-receipt-settled-uid''"
abbreviation dataKey :: string where "dataKey \<equiv> ''queue.json''"
abbreviation maxCASAttempts :: nat where "maxCASAttempts \<equiv> 16"

record 'w Store =
  Client :: "'w client option"
  Reader :: "'w reader option"
  Genesis :: "'w Guard option"
  StoreNamespace :: string
  StoreGlobalLimit :: int
  StoreRequesterLimit :: int

definition reader :: "'w Store \<Rightarrow> 'w reader option" where
  "reader s = (case Reader s of Some r \<Rightarrow> Some r | None \<Rightarrow> map_option reader.truncate (Client s))"

definition rd_Get_cm :: "'w Store \<Rightarrow> string \<Rightarrow> string \<Rightarrow> ('w, goerr + configmap) op" where
  "rd_Get_cm s ns n = (case reader s of None \<Rightarrow> ret (Inl nil_deref) | Some r \<Rightarrow> Get_cm r ns n)"

definition rd_Get_build :: "'w Store \<Rightarrow> string \<Rightarrow> string \<Rightarrow> ('w, goerr + KovaBuild) op" where
  "rd_Get_build s ns n = (case reader s of None \<Rightarrow> ret (Inl nil_deref) | Some r \<Rightarrow> Get_build r ns n)"

definition rd_List_builds :: "'w Store \<Rightarrow> string \<Rightarrow> nat \<Rightarrow> ('w, goerr + KovaBuild list) op" where
  "rd_List_builds s ns n = (case reader s of None \<Rightarrow> ret (Inl nil_deref) | Some r \<Rightarrow> List_builds r ns n)"

definition cl_Create_cm :: "'w Store \<Rightarrow> configmap \<Rightarrow> ('w, goerr option) op" where
  "cl_Create_cm s cm = (case Client s of None \<Rightarrow> ret (Some nil_deref) | Some c \<Rightarrow> Create_cm c cm)"

definition cl_Update_cm :: "'w Store \<Rightarrow> configmap \<Rightarrow> ('w, goerr option) op" where
  "cl_Update_cm s cm = (case Client s of None \<Rightarrow> ret (Some nil_deref) | Some c \<Rightarrow> Update_cm c cm)"

definition cl_Delete_cm :: "'w Store \<Rightarrow> string \<Rightarrow> string \<Rightarrow> string option \<Rightarrow> ('w, goerr option) op" where
  "cl_Delete_cm s ns n u = (case Client s of None \<Rightarrow> ret (Some nil_deref) | Some c \<Rightarrow> Delete_cm c ns n u)"

definition cl_Update_build :: "'w Store \<Rightarrow> KovaBuild \<Rightarrow> ('w, goerr + KovaBuild) op" where
  "cl_Update_build s b = (case Client s of None \<Rightarrow> ret (Inl nil_deref) | Some c \<Rightarrow> Update_build c b)"

definition store_key :: "'w Store \<Rightarrow> okey" where
  "store_key s = (KConfigMap, StoreNamespace s, ConfigMapName)"

definition guarded :: "'w Store \<Rightarrow> bool" where
  "guarded s \<longleftrightarrow> \<not> Option.is_none (Genesis s)"

text \<open>Reading the nil map gives no entries.\<close>

definition the_intents :: "queue_state \<Rightarrow> (string, Intent) gomap" where
  "the_intents c = (case Intents c of None \<Rightarrow> [] | Some m \<Rightarrow> m)"

definition freshState :: "'w Store \<Rightarrow> queue_state" where
  "freshState s = \<lparr>Version = 1, GlobalLimit = StoreGlobalLimit s, RequesterLimit = StoreRequesterLimit s,
     Intents = Some []\<rparr>"

text \<open>\<open>DigestBuild\<close>: the spec with the requester's UID cleared. A nil slice encodes as \<open>null\<close>.\<close>

definition marshal_options :: "KovaBuildOptions \<Rightarrow> json" where
  "marshal_options b = JObj (
     omitempty ''format'' (Format b) @
     (if Concurrency b = 0 then [] else [(''concurrency'', JNum (dec_int (Concurrency b)))]) @
     (if Timeout b = 0 then [] else [(''timeout'', JNum (dec_int (Timeout b)))]) @
     omitempty ''oomCooldown'' (OOMCooldown b) @
     (if FailFast b then [(''failFast'', JBool True)] else []) @
     (if Verbose b then [(''verbose'', JBool True)] else []) @
     (if Vars b = [] then [] else [(''vars'', JArr (map JStr (Vars b)))]))"

definition marshal_spec :: "KovaBuildSpec \<Rightarrow> json" where
  "marshal_spec s = JObj (
     [(''requester'', JObj ((''username'', JStr (Username (Requester s))) #
        omitempty ''uid'' (RequesterUID (Requester s)))),
      (''targets'', if Targets s = [] then JNull
        else JArr (map (\<lambda>t. JObj [(''target'', JStr (Target t)), (''platform'', JStr (Platform t))]) (Targets s))),
      (''source'', JObj [(''uri'', JStr (URI (Source s))), (''digest'', JStr (SourceDigest (Source s)))]),
      (''build'', marshal_options (Build s))] @
     omitempty ''idempotencyKey'' (IdempotencyKey s))"

definition DigestBuild :: "KovaBuild \<Rightarrow> string" where
  "DigestBuild build =
    sha256_hex (print_json (marshal_spec ((Spec build)\<lparr>Requester := (Requester (Spec build))\<lparr>RequesterUID := []\<rparr>\<rparr>)))"

definition GenesisEmptyQueueData :: "'x ext_scheme \<Rightarrow> int \<Rightarrow> int \<Rightarrow> goerr + string" where
  "GenesisEmptyQueueData x globalLimit requesterLimit =
    encodeState x \<lparr>Version = 2, GlobalLimit = globalLimit, RequesterLimit = requesterLimit, Intents = Some []\<rparr>"

definition ValidateQueueLedgerForGenesis :: "'x ext_scheme \<Rightarrow> configmap option \<Rightarrow> int \<Rightarrow> int \<Rightarrow> goerr option" where
  "ValidateQueueLedgerForGenesis x ledger globalLimit requesterLimit =
    (case ledger of
       None \<Rightarrow> Some (ErrMsg ''queue admission ledger is missing'')
     | Some cm \<Rightarrow>
         if length (Data cm) \<noteq> 1 \<or> length (mget (Data cm) dataKey) = 0 \<or>
            maxLedgerBytes < int (length (mget (Data cm) dataKey)) \<or> length (BinaryData cm) \<noteq> 0
         then Some (ErrMsg ''queue admission ledger has invalid data keys or size'')
         else (case decode_state (mget (Data cm) dataKey) of
             Inl e \<Rightarrow> Some e
           | Inr now \<Rightarrow>
               if GlobalLimit now \<noteq> globalLimit \<or> RequesterLimit now \<noteq> requesterLimit
               then Some (ErrMsg ''queue admission ledger limits differ from receipt'')
               else if Version now \<noteq> 2 then Some (ErrMsg ''queue admission Genesis requires version 2'')
               else validateState x now))"

section \<open>Reading\<close>

definition fetch_ledger :: "'x ext_scheme \<Rightarrow> 'w Store \<Rightarrow> ('w, goerr + configmap) op" where
  "fetch_ledger x s =
    attempt (rd_Get_cm s (StoreNamespace s) ConfigMapName) (\<lambda>cm.
    guard (ret (if guarded s then CheckLedger x (Genesis s) (Some cm) Queue else None)) (
    ret (Inr cm)))"

text \<open>The checks of \<open>readWithObservation\<close> on the data of the ledger.\<close>

definition decode_data :: "'x ext_scheme \<Rightarrow> 'w Store \<Rightarrow> string \<Rightarrow> goerr + queue_state" where
  "decode_data x s raw =
    (case decode_state raw of
       Inl e \<Rightarrow> Inl (Wrap ''queue ledger is invalid'' e)
     | Inr result \<Rightarrow>
         if GlobalLimit result \<noteq> StoreGlobalLimit s \<or> RequesterLimit result \<noteq> StoreRequesterLimit s
         then Inl (ErrMsg ''queue ledger has invalid state or mismatched replica limits'')
         else if (guarded s \<and> Version result \<noteq> 2) \<or> (\<not> guarded s \<and> Version result \<noteq> 1)
         then Inl (ErrMsg ''queue ledger has the wrong receipt protocol version'')
         else (case validateState x result of
             Some e \<Rightarrow> Inl (Wrap ''queue ledger has unsupported state'' e)
           | None \<Rightarrow> Inr result))"

definition decode_ledger :: "'x ext_scheme \<Rightarrow> 'w Store \<Rightarrow> configmap \<Rightarrow> goerr + configmap \<times> queue_state" where
  "decode_ledger x s cm =
    (if length (Data cm) \<noteq> 1 \<or> length (mget (Data cm) dataKey) = 0 \<or>
        maxLedgerBytes < int (length (mget (Data cm) dataKey)) \<or> length (BinaryData cm) \<noteq> 0
     then Inl (ErrMsg ''queue ledger has invalid data keys or size'')
     else (case decode_data x s (mget (Data cm) dataKey) of Inl e \<Rightarrow> Inl e | Inr c \<Rightarrow> Inr (cm, c)))"

definition readWithObservation ::
  "'x ext_scheme \<Rightarrow> 'w runtime \<Rightarrow> 'w Store \<Rightarrow> bool \<Rightarrow> Observation option \<Rightarrow> ('w, goerr + configmap \<times> queue_state) op" where
  "readWithObservation x rt s ctx obs =
    guard
      (if guarded s then
         (if Option.is_none (Reader s)
          then ret (Some (ErrMsg ''Genesis queue admission requires a direct API reader''))
          else if obs = None then Check x (Genesis s)
          else ret (AssertNoOrdinaryContext obs (Genesis s) ctx))
       else if obs \<noteq> None then ret (Some (ErrMsg ''read-only observation requires a Genesis guard''))
       else ret None)
     (attempt (if obs \<noteq> None then Observation_Read rt obs (Genesis s) (fetch_ledger x s) else fetch_ledger x s) (\<lambda>cm.
      ret (decode_ledger x s cm)))"

definition read_ledger :: "'x ext_scheme \<Rightarrow> 'w runtime \<Rightarrow> 'w Store \<Rightarrow> ('w, goerr + configmap \<times> queue_state) op" where
  "read_ledger x rt s = readWithObservation x rt s True None"

definition CheckReady :: "'x ext_scheme \<Rightarrow> 'w runtime \<Rightarrow> 'w Store \<Rightarrow> ('w, goerr option) op" where
  "CheckReady x rt s = attemptE (read_ledger x rt s) (\<lambda>_. ret None)"

definition CheckReadyObserved ::
  "'x ext_scheme \<Rightarrow> 'w runtime \<Rightarrow> 'w Store \<Rightarrow> Observation option \<Rightarrow> ('w, goerr option) op" where
  "CheckReadyObserved x rt s obs =
    (if obs = None then ret (Some (ErrMsg ''read-only queue observation is missing''))
     else attemptE (readWithObservation x rt s False obs) (\<lambda>_. ret None))"

definition lookupWithObservation ::
  "'x ext_scheme \<Rightarrow> 'w runtime \<Rightarrow> 'w Store \<Rightarrow> bool \<Rightarrow> string \<Rightarrow> Observation option \<Rightarrow> ('w, goerr + Intent option) op" where
  "lookupWithObservation x rt s ctx ident obs =
    attempt (readWithObservation x rt s ctx obs) (\<lambda>(cm, now).
    ret (Inr (map_of (the_intents now) ident)))"

definition Lookup :: "'x ext_scheme \<Rightarrow> 'w runtime \<Rightarrow> 'w Store \<Rightarrow> string \<Rightarrow> ('w, goerr + Intent option) op" where
  "Lookup x rt s ident = lookupWithObservation x rt s True ident None"

definition LookupObserved ::
  "'x ext_scheme \<Rightarrow> 'w runtime \<Rightarrow> 'w Store \<Rightarrow> string \<Rightarrow> Observation option \<Rightarrow> ('w, goerr + Intent option) op" where
  "LookupObserved x rt s ident obs =
    (if obs = None then ret (Inl (ErrMsg ''read-only queue observation is missing''))
     else lookupWithObservation x rt s False ident obs)"

section \<open>Initialisation\<close>

definition PreflightInitialization :: "'x ext_scheme \<Rightarrow> 'w runtime \<Rightarrow> 'w Store \<Rightarrow> ('w, goerr option) op" where
  "PreflightInitialization x rt s =
    (if guarded s then CheckReady x rt s
     else if validateLimits (StoreGlobalLimit s) (StoreRequesterLimit s) \<noteq> None
     then ret (Some (ErrMsg ''queue ledger has invalid replica limits''))
     else do {
       r \<leftarrow> read_ledger x rt s;
       case r of
         Inr _ \<Rightarrow> ret None
       | Inl e \<Rightarrow>
           if \<not> IsNotFound e then ret (Some e)
           else attemptE (rd_List_builds s (StoreNamespace s) 1) (\<lambda>builds.
             if builds = [] then ret None
             else do {
               r2 \<leftarrow> read_ledger x rt s;
               case r2 of
                 Inr _ \<Rightarrow> ret None
               | Inl e2 \<Rightarrow>
                   if \<not> IsNotFound e2 then ret (Some e2)
                   else ret (Some (ErrMsg ''queue ledger is absent while KovaBuilds exist'')) }) })"

definition initialize :: "'x ext_scheme \<Rightarrow> 'w runtime \<Rightarrow> 'w Store \<Rightarrow> ('w, goerr option) op" where
  "initialize x rt s =
    guardE (PreflightInitialization x rt s) (
    attemptE (ret (encodeState x (freshState s))) (\<lambda>data.
    cl_Create_cm s \<lparr>cm_meta = empty_meta\<lparr>Name := ConfigMapName, Namespace := StoreNamespace s\<rparr>,
      Immutable = None, Data = [(dataKey, data)], BinaryData = []\<rparr>))"

definition write_ledger :: "'x ext_scheme \<Rightarrow> 'w Store \<Rightarrow> configmap \<Rightarrow> queue_state \<Rightarrow> ('w, goerr option) op" where
  "write_ledger x s cm nxt =
    (if length (Data cm) \<noteq> 1 \<or> length (mget (Data cm) dataKey) = 0 \<or> length (BinaryData cm) \<noteq> 0
     then ret (Some (ErrMsg ''queue ledger has unsupported data keys''))
     else (case encodeState x nxt of
         Inl e \<Rightarrow> ret (Some e)
       | Inr data \<Rightarrow>
           if guarded s then PatchLedgerData x (Genesis s) cm Queue data
           else cl_Update_cm s (cm\<lparr>Data := [(dataKey, data)]\<rparr>)))"

definition randomNonce :: "'w runtime \<Rightarrow> ('w, goerr + string) op" where
  "randomNonce rt = attempt (Rand16 rt) (\<lambda>raw. ret (Inr (hex_encode raw)))"

definition waitCAS :: "'w runtime \<Rightarrow> nat \<Rightarrow> ('w, goerr option) op" where
  "waitCAS rt att = Sleep rt (2 ^ min att 5)"

definition EnsureInitialized :: "'x ext_scheme \<Rightarrow> 'w runtime \<Rightarrow> 'w Store \<Rightarrow> ('w, goerr option) op" where
  "EnsureInitialized x rt s =
    (if guarded s then CheckReady x rt s
     else for_retry maxCASAttempts (\<lambda>retry.
       rguardE (Ctx_Err rt) (do {
         r \<leftarrow> read_ledger x rt s;
         case r of
           Inr _ \<Rightarrow> ret (Return None)
         | Inl e \<Rightarrow>
             if \<not> IsNotFound e then ret (Return (Some e))
             else do {
               i \<leftarrow> initialize x rt s;
               case i of
                 None \<Rightarrow> ret (Return None)
               | Some err \<Rightarrow>
                   if IsAlreadyExists err \<or> IsTooManyRequests err
                   then rguardE (waitCAS rt retry) (ret Continue)
                   else do {
                     back \<leftarrow> read_ledger x rt s;
                     case back of Inr _ \<Rightarrow> ret (Return None) | Inl _ \<Rightarrow> ret (Return (Some err)) } } }))
       (ret (Some ErrBusy)))"

section \<open>Reservation\<close>

definition put_intent :: "string \<Rightarrow> Intent \<Rightarrow> queue_state \<Rightarrow> queue_state" where
  "put_intent ident e c = c\<lparr>Intents := Some (mput ident e (the_intents c))\<rparr>"

definition del_intent :: "string \<Rightarrow> queue_state \<Rightarrow> queue_state" where
  "del_intent ident c = c\<lparr>Intents := Some (mdel ident (the_intents c))\<rparr>"

text \<open>The parts of \<open>Reserve\<close>: the write of the proposal with what follows it, and one round.\<close>

definition reserve_write ::
  "'x ext_scheme \<Rightarrow> 'w runtime \<Rightarrow> 'w Store \<Rightarrow> nat \<Rightarrow> string \<Rightarrow> Intent \<Rightarrow> configmap \<Rightarrow> queue_state \<Rightarrow>
     ('w, (goerr + Intent \<times> bool) round) op" where
  "reserve_write x rt s retry ident proposed cm c = do {
    w \<leftarrow> write_ledger x s cm (put_intent ident proposed c);
    case w of
      None \<Rightarrow> ret (Return (Inr (proposed, True)))
    | Some err \<Rightarrow>
        if IsConflict err then rguard (waitCAS rt retry) (ret Continue)
        else do {
          observed \<leftarrow> Lookup x rt s ident;
          if observed = Inr (Some proposed) then ret (Return (Inr (proposed, True)))
          else if IsTooManyRequests err then ret (Return (Inl ErrBusy))
          else ret (Return (Inl err)) } }"

definition reserve_round ::
  "'x ext_scheme \<Rightarrow> 'w runtime \<Rightarrow> 'w Store \<Rightarrow> nat \<Rightarrow> string \<Rightarrow> Intent \<Rightarrow> configmap \<Rightarrow> queue_state \<Rightarrow>
     ('w, (goerr + Intent \<times> bool) round) op" where
  "reserve_round x rt s retry ident proposed cm c =
    (case map_of (the_intents c) ident of
       Some existing \<Rightarrow>
         if RequesterHash existing \<noteq> RequesterHash proposed \<or> RequestDigest existing \<noteq> RequestDigest proposed
         then ret (Return (Inl ErrConflict))
         else ret (Return (Inr (existing, False)))
     | None \<Rightarrow>
         if StoreGlobalLimit s \<le> int (length (the_intents c)) then ret (Return (Inl ErrFull))
         else if StoreRequesterLimit s \<le> int (held_by (RequesterHash proposed) (the_intents c))
         then ret (Return (Inl ErrFull))
         else reserve_write x rt s retry ident proposed cm c)"

definition Reserve ::
  "'x ext_scheme \<Rightarrow> 'w runtime \<Rightarrow> 'w Store \<Rightarrow> KovaBuild \<Rightarrow> ('w, goerr + Intent \<times> bool) op" where
  "Reserve x rt s build =
    attempt (randomNonce rt) (\<lambda>nonce. do {
    now \<leftarrow> Now rt;
    let proposed = \<lparr>RequesterHash = HashRequester (Username (Requester (Spec build))),
      RequestDigest = DigestBuild build, Nonce = nonce, CreatedAtUnix = now,
      ReceiptUID = [], ReceiptDigest = [], CleanupKind = []\<rparr>;
    for_retry maxCASAttempts (\<lambda>retry.
      rguard (Ctx_Err rt) (
      rtry (read_ledger x rt s) (\<lambda>(cm, c).
      reserve_round x rt s retry (Name (build_meta build)) proposed cm c)))
      (ret (Inl ErrBusy)) })"

section \<open>Receipts\<close>

definition receiptNamespace :: "'w Store \<Rightarrow> string" where
  "receiptNamespace s =
    (case Genesis s of None \<Rightarrow> [] | Some g \<Rightarrow> ReceiptNamespace (ReceiptContract (BReceipt (Bootstrap g))))"

definition ReceiptIntent :: "'x ext_scheme \<Rightarrow> 'w Store \<Rightarrow> KovaBuild \<Rightarrow> Intent \<Rightarrow> goerr + QueueIntent" where
  "ReceiptIntent x s build entry =
    (case Genesis s of
       None \<Rightarrow> Inl ErrDrift
     | Some g \<Rightarrow>
         let receipt = BReceipt (Bootstrap g); binding = Original g; contract = ReceiptContract receipt in
         if Namespace (build_meta build) \<noteq> StoreNamespace s \<or> Name (build_meta build) = [] \<or> Nonce entry = []
         then Inl ErrDrift
         else if ReceiptTarget receipt \<noteq> StoreNamespace s \<or>
            NamespaceUID contract \<noteq> BoundNamespaceUID binding \<or>
            ReceiptNamespace contract = StoreNamespace s \<or> ReceiptNamespace contract = [] \<or>
            ReceiptNamespaceUID contract = [] \<or> GenesisUID receipt \<noteq> BoundGenesisUID binding \<or>
            BoundActiveLedgerUID binding = [] \<or> BoundQueueLedgerUID binding = []
         then Inl ErrDrift
         else if RequesterHash entry \<noteq> HashRequester (Username (Requester (Spec build))) \<or>
            RequestDigest entry \<noteq> DigestBuild build
         then Inl ErrDrift
         else let intent = \<lparr>QINamespace = StoreNamespace s, QINamespaceUID = BoundNamespaceUID binding,
                QIReceiptNamespace = ReceiptNamespace contract,
                QIReceiptNamespaceUID = ReceiptNamespaceUID contract,
                QIGenesisName = GenesisName receipt, QIGenesisUID = BoundGenesisUID binding,
                QIGeneration = ContractGeneration contract,
                QIActiveLedgerUID = BoundActiveLedgerUID binding, QIQueueLedgerUID = BoundQueueLedgerUID binding,
                QIBuildName = Name (build_meta build), QIRequesterName = Username (Requester (Spec build)),
                QIRequesterHash = RequesterHash entry, QIRequesterUID = RequesterUID (Requester (Spec build)),
                QIRequestDigest = RequestDigest entry, QISourceDigest = SourceDigest (Source (Spec build)),
                QIQueueNonce = Nonce entry\<rparr> in
           (case NewQueueConfigMap x intent of Inl e \<Rightarrow> Inl e | Inr _ \<Rightarrow> Inr intent))"

definition checkReceiptNamespaceWithObservation ::
  "'x ext_scheme \<Rightarrow> 'w runtime \<Rightarrow> 'w Store \<Rightarrow> bool \<Rightarrow> Observation option \<Rightarrow> ('w, goerr option) op" where
  "checkReceiptNamespaceWithObservation x rt s ctx obs =
    (case Genesis s of
       None \<Rightarrow> ret (Some ErrDrift)
     | Some g \<Rightarrow>
         if Option.is_none (API (Bootstrap g)) then ret (Some ErrDrift)
         else guardE (ret (if obs \<noteq> None then AssertNoOrdinaryContext obs (Genesis s) ctx else None)) (
           attemptE (if obs = None then api_GetNamespace (Bootstrap g) (receiptNamespace s)
                     else Observation_Read rt obs (Genesis s) (api_GetNamespace (Bootstrap g) (receiptNamespace s)))
             (\<lambda>ns.
           ret (if QualifyReceiptNamespace x (BReceipt (Bootstrap g)) (Some ns) \<noteq> None
                then Some (Wrap ''receipt namespace'' ErrDrift) else None))))"

definition CheckReceiptNamespace :: "'x ext_scheme \<Rightarrow> 'w runtime \<Rightarrow> 'w Store \<Rightarrow> ('w, goerr option) op" where
  "CheckReceiptNamespace x rt s = checkReceiptNamespaceWithObservation x rt s True None"

definition CheckReceiptNamespaceObserved ::
  "'x ext_scheme \<Rightarrow> 'w runtime \<Rightarrow> 'w Store \<Rightarrow> Observation option \<Rightarrow> ('w, goerr option) op" where
  "CheckReceiptNamespaceObserved x rt s obs =
    (if obs = None then ret (Some (ErrMsg ''read-only queue observation is missing''))
     else checkReceiptNamespaceWithObservation x rt s False obs)"

definition pinned_as :: "Intent \<Rightarrow> goerr + Intent option \<Rightarrow> bool" where
  "pinned_as entry r =
    (case r of
       Inr (Some ob) \<Rightarrow> Nonce ob = Nonce entry \<and> ReceiptUID ob = ReceiptUID entry \<and>
         ReceiptDigest ob = ReceiptDigest entry \<and> CleanupKind ob = []
     | _ \<Rightarrow> False)"

definition PinReceipt ::
  "'x ext_scheme \<Rightarrow> 'w runtime \<Rightarrow> 'w Store \<Rightarrow> KovaBuild \<Rightarrow> Intent \<Rightarrow> ObservedQueueIntent \<Rightarrow> ('w, goerr option) op" where
  "PinReceipt x rt s build reserved witness =
    guardE (CheckReceiptNamespace x rt s) (
    attemptE (ret (ReceiptIntent x s build reserved)) (\<lambda>expected.
    if ObservedIntent witness \<noteq> expected \<or> \<not> validReceiptUID (ObservedReceiptUID witness) \<or>
       \<not> HasPrefix (ObservedDataDigest witness) ''sha256:'' \<or>
       \<not> validLowerHex (TrimPrefix (ObservedDataDigest witness) ''sha256:'') 64
    then ret (Some ErrDrift)
    else for_retry maxCASAttempts (\<lambda>retry.
      rtryE (read_ledger x rt s) (\<lambda>(cm, c).
      case map_of (the_intents c) (Name (build_meta build)) of
        None \<Rightarrow> ret (Return (Some ErrDrift))
      | Some entry \<Rightarrow>
          if Nonce entry \<noteq> Nonce reserved \<or> RequestDigest entry \<noteq> RequestDigest reserved \<or>
             RequesterHash entry \<noteq> RequesterHash reserved \<or> CleanupKind entry \<noteq> []
          then ret (Return (Some ErrDrift))
          else if ReceiptUID entry \<noteq> [] then
            (if ReceiptUID entry = ObservedReceiptUID witness \<and> ReceiptDigest entry = ObservedDataDigest witness
             then do { e \<leftarrow> CheckReceiptNamespace x rt s; ret (Return e) }
             else ret (Return (Some ErrDrift)))
          else do {
            let entry' = entry\<lparr>ReceiptUID := ObservedReceiptUID witness, ReceiptDigest := ObservedDataDigest witness\<rparr>;
            w \<leftarrow> write_ledger x s cm (put_intent (Name (build_meta build)) entry' c);
            case w of
              Some err \<Rightarrow>
                if IsConflict err then rguardE (waitCAS rt retry) (ret Continue)
                else do {
                  observed \<leftarrow> Lookup x rt s (Name (build_meta build));
                  if pinned_as entry' observed
                  then do { e \<leftarrow> CheckReceiptNamespace x rt s; ret (Return e) }
                  else ret (Return (Some err)) }
            | None \<Rightarrow> do {
                observed \<leftarrow> Lookup x rt s (Name (build_meta build));
                case observed of
                  Inl e \<Rightarrow> ret (Return (Some e))
                | Inr _ \<Rightarrow>
                    if \<not> pinned_as entry' observed then ret (Return (Some ErrDrift))
                    else do { e \<leftarrow> CheckReceiptNamespace x rt s; ret (Return e) } } }))
      (ret (Some ErrBusy))))"

definition observePinnedReceiptWithObservation ::
  "'x ext_scheme \<Rightarrow> 'w runtime \<Rightarrow> 'w Store \<Rightarrow> bool \<Rightarrow> KovaBuild \<Rightarrow> Intent \<Rightarrow> Observation option \<Rightarrow> ('w, goerr option) op" where
  "observePinnedReceiptWithObservation x rt s ctx build entry obs =
    guardE (ret (if obs \<noteq> None then AssertNoOrdinaryContext obs (Genesis s) ctx else None)) (
    guardE (checkReceiptNamespaceWithObservation x rt s ctx obs) (
    if ReceiptUID entry = [] \<or> ReceiptDigest entry = [] \<or> CleanupKind entry \<noteq> [] \<or>
       mget (Annotations (build_meta build)) ReceiptUIDAnnotation \<noteq> ReceiptUID entry \<or>
       mget (Annotations (build_meta build)) ReceiptDigestAnnotation \<noteq> ReceiptDigest entry
    then ret (Some ErrDrift)
    else attemptE (ret (ReceiptIntent x s build entry)) (\<lambda>intent.
    attemptE (ret (NewQueueConfigMap x intent)) (\<lambda>expected. do {
      r \<leftarrow> (let get = rd_Get_cm s (receiptNamespace s) (Name (cm_meta expected)) in
            if obs = None then get else Observation_Read rt obs (Genesis s) get);
      case r of
        Inl e \<Rightarrow> ret (Some (Wrap ''pinned queue receipt is unavailable'' ErrDrift))
      | Inr observed \<Rightarrow>
          (case QualifyQueue x intent (Some observed) of
             Inl e \<Rightarrow> ret (Some ErrDrift)
           | Inr witness \<Rightarrow>
               if ObservedReceiptUID witness \<noteq> ReceiptUID entry \<or> ObservedDataDigest witness \<noteq> ReceiptDigest entry
               then ret (Some ErrDrift)
               else if obs \<noteq> None then ret (Assert obs (Genesis s))
               else Check x (Genesis s)) }))))"

definition observePinnedReceipt ::
  "'x ext_scheme \<Rightarrow> 'w runtime \<Rightarrow> 'w Store \<Rightarrow> KovaBuild \<Rightarrow> Intent \<Rightarrow> ('w, goerr option) op" where
  "observePinnedReceipt x rt s build entry = observePinnedReceiptWithObservation x rt s True build entry None"

section \<open>Cleanup\<close>

definition markReceiptCleanupReady ::
  "'x ext_scheme \<Rightarrow> 'w runtime \<Rightarrow> 'w Store \<Rightarrow> string \<Rightarrow> Intent \<Rightarrow> string \<Rightarrow> ('w, goerr option) op" where
  "markReceiptCleanupReady x rt s ident expected kind =
    (if kind \<noteq> cleanupRejected \<and> kind \<noteq> cleanupTerminal then ret (Some ErrDrift)
     else for_retry maxCASAttempts (\<lambda>retry.
       rtryE (read_ledger x rt s) (\<lambda>(cm, c).
       case map_of (the_intents c) ident of
         None \<Rightarrow> ret (Return (Some ErrDrift))
       | Some entry \<Rightarrow>
           if Nonce entry \<noteq> Nonce expected \<or> RequestDigest entry \<noteq> RequestDigest expected \<or>
              RequesterHash entry \<noteq> RequesterHash expected \<or> ReceiptUID entry \<noteq> ReceiptUID expected \<or>
              ReceiptDigest entry \<noteq> ReceiptDigest expected \<or> ReceiptUID entry = []
           then ret (Return (Some ErrDrift))
           else if CleanupKind entry = kind then ret (Return None)
           else if CleanupKind entry \<noteq> [] then ret (Return (Some ErrDrift))
           else do {
             let entry' = entry\<lparr>CleanupKind := kind\<rparr>;
             w \<leftarrow> write_ledger x s cm (put_intent ident entry' c);
             case w of
               None \<Rightarrow> ret (Return None)
             | Some err \<Rightarrow>
                 if IsConflict err then rguardE (waitCAS rt retry) (ret Continue)
                 else do {
                   observed \<leftarrow> Lookup x rt s ident;
                   if (case observed of
                         Inr (Some ob) \<Rightarrow> Nonce ob = Nonce entry' \<and> ReceiptUID ob = ReceiptUID entry' \<and>
                           ReceiptDigest ob = ReceiptDigest entry' \<and> CleanupKind ob = kind
                       | _ \<Rightarrow> False)
                   then ret (Return None) else ret (Return (Some err)) } }))
       (ret (Some ErrBusy)))"

definition receipt_name :: "Intent \<Rightarrow> string" where
  "receipt_name entry = ''kova-admission-intent-'' @ Nonce entry"

definition deletePinnedReceipt ::
  "'x ext_scheme \<Rightarrow> 'w runtime \<Rightarrow> 'w Store \<Rightarrow> Intent \<Rightarrow> ('w, goerr option) op" where
  "deletePinnedReceipt x rt s entry =
    (if \<not> guarded s \<or> Option.is_none (Client s) \<or> CleanupKind entry = [] \<or> \<not> validReceiptUID (ReceiptUID entry)
     then ret (Some ErrDrift)
     else guardE (CheckReceiptNamespace x rt s) (do {
       r \<leftarrow> rd_Get_cm s (receiptNamespace s) (receipt_name entry);
       case r of
         Inl e \<Rightarrow> if IsNotFound e then Check x (Genesis s) else ret (Some e)
       | Inr now \<Rightarrow>
           if DigestData (Data now) \<noteq> Inr (ReceiptDigest entry) \<or>
              Name (cm_meta now) \<noteq> receipt_name entry \<or> Namespace (cm_meta now) \<noteq> receiptNamespace s \<or>
              UID (cm_meta now) \<noteq> ReceiptUID entry \<or> Immutable now \<noteq> Some True \<or>
              DeletionTimestamp (cm_meta now) \<noteq> None \<or> length (OwnerReferences (cm_meta now)) \<noteq> 0 \<or>
              length (BinaryData now) \<noteq> 0
           then ret (Some ErrDrift)
           else guardE (Check x (Genesis s)) (do {
             deleteErr \<leftarrow> cl_Delete_cm s (Namespace (cm_meta now)) (Name (cm_meta now)) (Some (UID (cm_meta now)));
             after \<leftarrow> rd_Get_cm s (receiptNamespace s) (receipt_name entry);
             case after of
               Inl e \<Rightarrow> if IsNotFound e then Check x (Genesis s) else ret (Some e)
             | Inr a \<Rightarrow>
                 if UID (cm_meta a) \<noteq> UID (cm_meta now) then ret (Some ErrDrift)
                 else if deleteErr \<noteq> None then ret deleteErr
                 else ret (Some (ErrMsg ''queue receipt remains after UID-preconditioned Delete'')) }) }))"

definition terminalOrDeleting :: "KovaBuild \<Rightarrow> bool" where
  "terminalOrDeleting build \<longleftrightarrow> DeletionTimestamp (build_meta build) \<noteq> None \<or>
     Phase (Status build) \<in> {PhaseSucceeded, PhaseFailed, PhaseCancelled}"

definition markReceiptSettled ::
  "'x ext_scheme \<Rightarrow> 'w runtime \<Rightarrow> 'w Store \<Rightarrow> KovaBuild \<Rightarrow> Intent \<Rightarrow> ('w, goerr option) op" where
  "markReceiptSettled x rt s build entry =
    (let get = rd_Get_build s (Namespace (build_meta build)) (Name (build_meta build)) in
     for_retry maxCASAttempts (\<lambda>retry.
       rtryE get (\<lambda>now.
       let a = Annotations (build_meta now) in
       if UID (build_meta now) = [] \<or> UID (build_meta now) \<noteq> UID (build_meta build) \<or> \<not> terminalOrDeleting now \<or>
          mget a IntentAnnotation \<noteq> Nonce entry \<or> mget a ReceiptUIDAnnotation \<noteq> ReceiptUID entry \<or>
          mget a ReceiptDigestAnnotation \<noteq> ReceiptDigest entry
       then ret (Return (Some ErrDrift))
       else if mget a ReceiptSettledAnnotation = ReceiptUID entry then ret (Return None)
       else if mget a ReceiptSettledAnnotation \<noteq> [] then ret (Return (Some ErrDrift))
       else rguardE (Check x (Genesis s)) (do {
         w \<leftarrow> cl_Update_build s (now\<lparr>build_meta := (build_meta now)\<lparr>Annotations :=
                mput ReceiptSettledAnnotation (ReceiptUID entry) a\<rparr>\<rparr>);
         r \<leftarrow> get;
         if (case r of Inr ob \<Rightarrow> UID (build_meta ob) = UID (build_meta build) \<and>
               mget (Annotations (build_meta ob)) ReceiptSettledAnnotation = ReceiptUID entry | Inl _ \<Rightarrow> False)
         then do { e \<leftarrow> Check x (Genesis s); ret (Return e) }
         else (case w of
             Inl err \<Rightarrow> if IsConflict err then rguardE (waitCAS rt retry) (ret Continue)
                        else ret (Return (Some err))
           | Inr _ \<Rightarrow> (case r of Inl e \<Rightarrow> ret (Return (Some e)) | Inr _ \<Rightarrow> ret (Return (Some ErrDrift)))) })))
       (ret (Some ErrBusy)))"

section \<open>Verification and release\<close>

definition verifyForBuildWithObservation ::
  "'x ext_scheme \<Rightarrow> 'w runtime \<Rightarrow> 'w Store \<Rightarrow> bool \<Rightarrow> KovaBuild \<Rightarrow> Observation option \<Rightarrow> ('w, goerr + Intent option) op" where
  "verifyForBuildWithObservation x rt s ctx build obs =
    guard (ret (if obs \<noteq> None then AssertNoOrdinaryContext obs (Genesis s) ctx else None)) (
    let nonce = mget (Annotations (build_meta build)) IntentAnnotation in
    if nonce = [] then
      (if guarded s then
         guard (if obs \<noteq> None then CheckReadyObserved x rt s obs else CheckReady x rt s) (ret (Inr None))
       else if obs \<noteq> None then ret (Inl (ErrMsg ''read-only queue observation requires Genesis''))
       else ret (Inr None))
    else do {
      r \<leftarrow> lookupWithObservation x rt s ctx (Name (build_meta build)) obs;
      case r of
        Inl e \<Rightarrow> ret (Inl (if IsNotFound e then Wrap ''queue ledger is absent for KovaBuild'' ErrDrift else e))
      | Inr None \<Rightarrow> ret (Inl (Wrap ''KovaBuild has no matching queue intent'' ErrDrift))
      | Inr (Some entry) \<Rightarrow>
          if Nonce entry \<noteq> nonce \<or> RequesterHash entry \<noteq> HashRequester (Username (Requester (Spec build)))
          then ret (Inl (Wrap ''KovaBuild has no matching queue intent'' ErrDrift))
          else if RequestDigest entry \<noteq> DigestBuild build
          then ret (Inl (Wrap ''KovaBuild request digest differs from queue intent'' ErrDrift))
          else guard (if guarded s then observePinnedReceiptWithObservation x rt s ctx build entry obs else ret None) (
            ret (Inr (Some entry))) })"

definition VerifyForBuildSnapshot ::
  "'x ext_scheme \<Rightarrow> 'w runtime \<Rightarrow> 'w Store \<Rightarrow> KovaBuild \<Rightarrow> ('w, goerr + Intent option) op" where
  "VerifyForBuildSnapshot x rt s build = verifyForBuildWithObservation x rt s True build None"

definition VerifyForBuild :: "'x ext_scheme \<Rightarrow> 'w runtime \<Rightarrow> 'w Store \<Rightarrow> KovaBuild \<Rightarrow> ('w, goerr option) op" where
  "VerifyForBuild x rt s build = attemptE (VerifyForBuildSnapshot x rt s build) (\<lambda>_. ret None)"

definition VerifyForBuildObserved ::
  "'x ext_scheme \<Rightarrow> 'w runtime \<Rightarrow> 'w Store \<Rightarrow> KovaBuild \<Rightarrow> Observation option \<Rightarrow> ('w, goerr + Intent option) op" where
  "VerifyForBuildObserved x rt s build obs =
    (if obs = None then ret (Inl (ErrMsg ''read-only queue observation is missing''))
     else verifyForBuildWithObservation x rt s False build obs)"

text \<open>The end of a release round: remove the slot, and treat an entry that is gone as released.\<close>

definition remove_slot ::
  "'x ext_scheme \<Rightarrow> 'w runtime \<Rightarrow> 'w Store \<Rightarrow> nat \<Rightarrow> configmap \<Rightarrow> queue_state \<Rightarrow> string \<Rightarrow> ('w, goerr option round) op" where
  "remove_slot x rt s retry cm c ident = do {
    w \<leftarrow> write_ledger x s cm (del_intent ident c);
    case w of
      None \<Rightarrow> ret (Return None)
    | Some err \<Rightarrow>
        if IsConflict err then rguardE (waitCAS rt retry) (ret Continue)
        else do {
          observed \<leftarrow> Lookup x rt s ident;
          if observed = Inr None then ret (Return None) else ret (Return (Some err)) } }"

definition releaseRejected ::
  "'x ext_scheme \<Rightarrow> 'w runtime \<Rightarrow> 'w Store \<Rightarrow> string \<Rightarrow> string \<Rightarrow> ('w, goerr option) op" where
  "releaseRejected x rt s ident nonce =
    for_retry maxCASAttempts (\<lambda>retry.
      rtryE (read_ledger x rt s) (\<lambda>(cm, c).
      case map_of (the_intents c) ident of
        None \<Rightarrow> ret (Return None)
      | Some entry \<Rightarrow>
          if Nonce entry \<noteq> nonce then ret (Return (Some (Wrap ''queue intent changed'' ErrDrift)))
          else if guarded s \<and> (CleanupKind entry \<noteq> cleanupRejected \<or> ReceiptUID entry = [])
          then ret (Return (Some ErrDrift))
          else remove_slot x rt s retry cm c ident))
      (ret (Some ErrBusy))"

text \<open>The branch of \<open>releaseReceiptedBuild\<close> for an entry that is already gone.\<close>

definition settled_release ::
  "'x ext_scheme \<Rightarrow> 'w runtime \<Rightarrow> 'w Store \<Rightarrow> KovaBuild \<Rightarrow> string \<Rightarrow> ('w, goerr option) op" where
  "settled_release x rt s build nonce =
    attemptE (rd_Get_build s (Namespace (build_meta build)) (Name (build_meta build))) (\<lambda>persisted.
    let a = Annotations (build_meta persisted) in
    if UID (build_meta persisted) \<noteq> UID (build_meta build) \<or> \<not> terminalOrDeleting persisted \<or>
       mget a IntentAnnotation \<noteq> nonce \<or> mget a ReceiptSettledAnnotation = [] \<or>
       mget a ReceiptSettledAnnotation \<noteq> mget a ReceiptUIDAnnotation
    then ret (Some ErrDrift)
    else guardE (CheckReceiptNamespace x rt s) (do {
      r \<leftarrow> rd_Get_cm s (receiptNamespace s) (''kova-admission-intent-'' @ nonce);
      case r of
        Inl e \<Rightarrow> if \<not> IsNotFound e then ret (Some e) else Check x (Genesis s)
      | Inr _ \<Rightarrow> ret (Some ErrDrift) }))"

definition releaseReceiptedBuild ::
  "'x ext_scheme \<Rightarrow> 'w runtime \<Rightarrow> 'w Store \<Rightarrow> KovaBuild \<Rightarrow> ('w, goerr option) op" where
  "releaseReceiptedBuild x rt s build =
    (let nonce = mget (Annotations (build_meta build)) IntentAnnotation;
         ident = Name (build_meta build) in
     if UID (build_meta build) = [] \<or> \<not> terminalOrDeleting build then ret (Some ErrDrift)
     else if nonce = [] then ret None
     else for_retry maxCASAttempts (\<lambda>retry.
       rtryE (read_ledger x rt s) (\<lambda>(cm, c).
       case map_of (the_intents c) ident of
         None \<Rightarrow> do { e \<leftarrow> settled_release x rt s build nonce; ret (Return e) }
       | Some entry \<Rightarrow>
           if Nonce entry \<noteq> nonce \<or> RequesterHash entry \<noteq> HashRequester (Username (Requester (Spec build))) \<or>
              RequestDigest entry \<noteq> DigestBuild build \<or> ReceiptUID entry = [] \<or>
              mget (Annotations (build_meta build)) ReceiptUIDAnnotation \<noteq> ReceiptUID entry \<or>
              mget (Annotations (build_meta build)) ReceiptDigestAnnotation \<noteq> ReceiptDigest entry
           then ret (Return (Some ErrDrift))
           else if CleanupKind entry = [] then
             rguardE (observePinnedReceipt x rt s build entry) (
             rguardE (markReceiptCleanupReady x rt s ident entry cleanupTerminal) (
             ret Continue))
           else if CleanupKind entry \<noteq> cleanupTerminal then ret (Return (Some ErrDrift))
           else rguardE (deletePinnedReceipt x rt s entry) (
             rguardE (markReceiptSettled x rt s build entry) (
             remove_slot x rt s retry cm c ident))))
       (ret (Some ErrBusy)))"

definition ReleaseForBuild :: "'x ext_scheme \<Rightarrow> 'w runtime \<Rightarrow> 'w Store \<Rightarrow> KovaBuild \<Rightarrow> ('w, goerr option) op" where
  "ReleaseForBuild x rt s build =
    (if guarded s then releaseReceiptedBuild x rt s build
     else let nonce = mget (Annotations (build_meta build)) IntentAnnotation;
              ident = Name (build_meta build) in
       if nonce = [] then ret None
       else for_retry maxCASAttempts (\<lambda>retry.
         rtryE (read_ledger x rt s) (\<lambda>(cm, c).
         case map_of (the_intents c) ident of
           None \<Rightarrow> ret (Return None)
         | Some entry \<Rightarrow>
             if Nonce entry \<noteq> nonce \<or> RequesterHash entry \<noteq> HashRequester (Username (Requester (Spec build))) \<or>
                RequestDigest entry \<noteq> DigestBuild build
             then ret (Return (Some (Wrap ''KovaBuild has a different queue intent'' ErrDrift)))
             else remove_slot x rt s retry cm c ident))
         (ret (Some ErrBusy)))"

definition ReleaseRejected ::
  "'x ext_scheme \<Rightarrow> 'w runtime \<Rightarrow> 'w Store \<Rightarrow> string \<Rightarrow> string \<Rightarrow> ('w, goerr option) op" where
  "ReleaseRejected x rt s ident nonce =
    (if guarded s then ret (Some (Wrap ''Genesis rejection cleanup requires its pinned receipt'' ErrDrift))
     else releaseRejected x rt s ident nonce)"

definition ReleaseRejectedReceipt ::
  "'x ext_scheme \<Rightarrow> 'w runtime \<Rightarrow> 'w Store \<Rightarrow> KovaBuild \<Rightarrow> ObservedQueueIntent \<Rightarrow> ('w, goerr option) op" where
  "ReleaseRejectedReceipt x rt s build witness =
    (let ident = Name (build_meta build) in
     if \<not> guarded s \<or> QIBuildName (ObservedIntent witness) \<noteq> ident then ret (Some ErrDrift)
     else attemptE (Lookup x rt s ident) (\<lambda>found.
     case found of
       None \<Rightarrow> ret (Some ErrDrift)
     | Some entry \<Rightarrow>
         if Nonce entry \<noteq> QIQueueNonce (ObservedIntent witness) \<or> ReceiptUID entry \<noteq> ObservedReceiptUID witness \<or>
            ReceiptDigest entry \<noteq> ObservedDataDigest witness \<or> CleanupKind entry \<noteq> []
         then ret (Some ErrDrift)
         else guardE (observePinnedReceipt x rt s build entry) (
           guardE (markReceiptCleanupReady x rt s ident entry cleanupRejected) (
           guardE (deletePinnedReceipt x rt s (entry\<lparr>CleanupKind := cleanupRejected\<rparr>)) (
           releaseRejected x rt s ident (Nonce entry))))))"

definition ResumeRejectedCleanup ::
  "'x ext_scheme \<Rightarrow> 'w runtime \<Rightarrow> 'w Store \<Rightarrow> string \<Rightarrow> string \<Rightarrow> ('w, goerr option) op" where
  "ResumeRejectedCleanup x rt s ident nonce =
    (if \<not> guarded s then ret (Some ErrDrift)
     else attemptE (Lookup x rt s ident) (\<lambda>found.
     case found of
       None \<Rightarrow> ret (Some ErrDrift)
     | Some entry \<Rightarrow>
         if Nonce entry \<noteq> nonce \<or> CleanupKind entry \<noteq> cleanupRejected then ret (Some ErrDrift)
         else do {
           r \<leftarrow> rd_Get_build s (StoreNamespace s) ident;
           case r of
             Inr _ \<Rightarrow> ret (Some ErrDrift)
           | Inl e \<Rightarrow>
               if \<not> IsNotFound e then ret (Some e)
               else guardE (deletePinnedReceipt x rt s entry) (releaseRejected x rt s ident nonce) }))"

end
