(* ===== verification/Queue_Protocol.thy ===== *)
theory Queue_Protocol
  imports Queue_Store
begin

text \<open>
  What the operations of the queue ledger do to it, whatever other processes do at the same time.
  The store is an instance of the compare-and-swap ledger; every commit of every operation is one
  step of an abstract protocol on queue states.
\<close>

section \<open>Decoded states\<close>

definition good_state :: "'w Store \<Rightarrow> queue_state \<Rightarrow> bool" where
  "good_state s c \<longleftrightarrow> GlobalLimit c = StoreGlobalLimit s \<and> RequesterLimit c = StoreRequesterLimit s \<and>
     Version c = (if guarded s then 2 else 1) \<and> go_map (the_intents c) \<and> int64_state c"

lemma ParseInt_int64: "ParseInt s = Some i \<Longrightarrow> int64 i"
  by (auto simp: ParseInt_def Let_def int64_def split: if_splits)

lemma to_int_int64: "to_int j = Some i \<Longrightarrow> int64 i"
  by (cases j) (auto dest: ParseInt_int64)

lemma field_int64: "field kvs k to_int 0 = Some i \<Longrightarrow> int64 i"
  by (auto simp: field_def to_int_int64 int64_def split: option.splits dest: to_int_int64)

lemma unmarshal_entries_go_map: "unmarshal_entries f kvs = Some m \<Longrightarrow> go_map m"
  by (induction kvs arbitrary: m) (auto split: bind_splits intro: go_map_mput)

lemma unmarshal_entries_values:
  "unmarshal_entries f kvs = Some m \<Longrightarrow> e \<in> snd ` set m \<Longrightarrow> \<exists>j. f j = Some e"
proof (induction kvs arbitrary: m)
  case (Cons kv kvs)
  then obtain v m' where "f (snd kv) = Some v" "unmarshal_entries f kvs = Some m'" "m = mput (fst kv) v m'"
    by (auto split: bind_splits)
  with Cons show ?case
    using unmarshal_entries_go_map [of f kvs m'] by (auto simp: set_mput)
qed simp

lemma unmarshal_Intent_int64: "unmarshal_Intent j = Some e \<Longrightarrow> int64 (CreatedAtUnix e)"
  by (cases j) (auto split: bind_splits dest: field_int64)

lemma field_unmarshal_map:
  assumes "field kvs k (unmarshal_map f) None = Some (Some m)"
  shows "\<exists>kvs'. unmarshal_entries f kvs' = Some m"
proof -
  from assms obtain j where "unmarshal_map f j = Some (Some m)" by (auto simp: field_def split: option.splits)
  then show ?thesis by (cases j) auto
qed

lemma unmarshal_state_good:
  assumes "unmarshal_state j = Some c"
  shows "go_map (the_intents c) \<and> int64_state c"
proof (cases "Intents c")
  case None
  then show ?thesis by (simp add: the_intents_def int64_state_def)
next
  case (Some es)
  with assms obtain kvs where "unmarshal_entries unmarshal_Intent kvs = Some es"
    by (cases j) (auto split: bind_splits dest!: field_unmarshal_map)
  then show ?thesis
    using Some unmarshal_entries_go_map unmarshal_entries_values [of unmarshal_Intent kvs es] unmarshal_Intent_int64
    by (fastforce simp: the_intents_def int64_state_def)
qed

lemma decode_data_Inr:
  assumes "decode_data x s raw = Inr c"
  shows "decode_state raw = Inr c" "validateState x c = None" "good_state s c" "ValidString raw"
proof -
  show d: "decode_state raw = Inr c" and "validateState x c = None"
    using assms by (auto simp: decode_data_def split: sum.splits if_splits option.splits)
  from d obtain j where "unmarshal_state j = Some c" "ValidString raw"
    by (auto simp: decode_state_def Decode_Inr)
  then show "good_state s c" "ValidString raw"
    using unmarshal_state_good assms
    by (auto simp: good_state_def decode_data_def split: sum.splits if_splits option.splits)
qed

lemma the_intents_Some: "validateState x c = None \<Longrightarrow> Intents c = Some (the_intents c)"
  by (auto simp: validateState_def the_intents_def split: option.splits)

lemma encodeState_Inr:
  assumes "encodeState x c = Inr raw"
  shows "validateState x c = None" "raw = print_json (marshal_state c)"
  using assms by (auto simp: encodeState_def Let_def split: option.splits if_splits)

lemma decode_data_encode:
  assumes "dns_names x" and "good_state s c" and "encodeState x c = Inr raw"
  shows "decode_data x s raw = Inr c"
proof -
  note e = encodeState_Inr [OF assms(3)]
  have "decode_state raw = Inr c"
    using decode_marshal_state [OF e(1) assms(1) _ the_intents_Some [OF e(1)]] assms(2) e(2)
    by (simp add: good_state_def)
  then show ?thesis using assms(2) e(1) by (auto simp: decode_data_def good_state_def)
qed

lemma encodeState_text:
  assumes "dns_names x" and "good_state s c" and "encodeState x c = Inr raw"
  shows "ValidString raw"
  using decode_data_Inr(4) [OF decode_data_encode [OF assms]] .

section \<open>The store as a compare-and-swap ledger\<close>

definition lawful_store :: "('w \<Rightarrow> event list) \<Rightarrow> 'x ext_scheme \<Rightarrow> 'w runtime \<Rightarrow> 'w Store \<Rightarrow> bool" where
  "lawful_store log x rt s \<longleftrightarrow> dns_names x \<and> lawful_runtime log rt \<and>
     (\<forall>c. Client s = Some c \<longrightarrow> lawful_client log c) \<and> (\<forall>r. Reader s = Some r \<longrightarrow> lawful_reader log r) \<and>
     (\<forall>g. Genesis s = Some g \<longrightarrow> lawful_guard log g \<and> DataKey (QueueTemplate (Bootstrap g)) = dataKey)"

lemma lawful_reader_truncate: "lawful_reader log c \<Longrightarrow> lawful_reader log (reader.truncate c)"
  by (simp add: lawful_reader_def reader.truncate_def)

lemma lawful_store_reader: "lawful_store log x rt s \<Longrightarrow> reader s = Some r \<Longrightarrow> lawful_reader log r"
  by (auto simp: lawful_store_def reader_def lawful_client_def intro: lawful_reader_truncate split: option.splits)

lemma calm_rd_Get_cm: "lawful_store log x rt s \<Longrightarrow> calm log (rd_Get_cm s ns n)"
  using lawful_store_reader [of log x rt s]
  by (auto simp: rd_Get_cm_def lawful_reader_def intro: calm_intros split: option.split)

lemma calm_rd_Get_build: "lawful_store log x rt s \<Longrightarrow> calm log (rd_Get_build s ns n)"
  using lawful_store_reader [of log x rt s]
  by (auto simp: rd_Get_build_def lawful_reader_def intro: calm_intros split: option.split)

lemma calm_rd_List_builds: "lawful_store log x rt s \<Longrightarrow> calm log (rd_List_builds s ns n)"
  using lawful_store_reader [of log x rt s]
  by (auto simp: rd_List_builds_def lawful_reader_def intro: calm_intros split: option.split)

lemma rd_Get_cm_stored:
  assumes "lawful_store log x rt s"
  shows "wp (rd_Get_cm s ns n) (\<lambda>r w'. \<forall>cm. r = Inr cm \<longrightarrow>
    Namespace (cm_meta cm) = ns \<and> Name (cm_meta cm) = n \<and> ValidString (ResourceVersion (cm_meta cm)) \<and>
    stored (log w') (KConfigMap, ns, n) (OConfigMap cm)) w"
  using lawful_store_reader [OF assms]
  by (auto simp: rd_Get_cm_def wp_ret lawful_reader_def split: option.split)

lemma calmE_Check_store: "lawful_store log x rt s \<Longrightarrow> calmE log (Check x (Genesis s))"
  by (intro calmE_Check) (auto simp: lawful_store_def)

lemma Assert_no_conflict: "Assert obs gd = Some e \<Longrightarrow> \<not> IsConflict e"
  by (auto simp: Assert_def split: option.splits if_splits)

lemma AssertNoOrdinaryContext_no_conflict: "AssertNoOrdinaryContext obs gd c = Some e \<Longrightarrow> \<not> IsConflict e"
  by (auto simp: AssertNoOrdinaryContext_def dest: Assert_no_conflict split: if_splits)

lemma validate_intents_no_conflict:
  "validate_intents x v l cs es = Some e \<Longrightarrow> \<not> IsConflict e"
  by (induction x v l cs es rule: validate_intents.induct) (auto simp: Let_def split: if_splits)

lemma validateState_no_conflict: "validateState x c = Some e \<Longrightarrow> \<not> IsConflict e"
  by (auto simp: validateState_def dest: validate_intents_no_conflict split: option.splits if_splits)

lemma decode_ledger_no_conflict: "decode_ledger x s cm = Inl e \<Longrightarrow> \<not> IsConflict e"
  by (auto simp: decode_ledger_def decode_data_def decode_state_def split: sum.splits if_splits option.splits
      dest: Decode_no_conflict validateState_no_conflict)

lemma calm_Observation_Read:
  assumes "lawful_runtime log rt" and "calm log m"
  shows "calm log (Observation_Read rt obs gd m)"
proof -
  have "calm log (do { e \<leftarrow> Ctx_Err rt; case e of Some e \<Rightarrow> ret (Inl e) | None \<Rightarrow> m })"
    using calm_guard [of log "Ctx_Err rt" m] assms by (simp add: lawful_runtime_def guard_def)
  then show ?thesis
    unfolding Observation_Read_def by (auto intro: calm_ret dest: Assert_no_conflict split: option.split)
qed

lemma calm_fetch_ledger: "lawful_store log x rt s \<Longrightarrow> calm log (fetch_ledger x s)"
  unfolding fetch_ledger_def
  by (intro calm_intros calm_rd_Get_cm) (auto dest: CheckLedger_no_conflict split: if_splits)

lemma calm_readWithObservation:
  assumes "lawful_store log x rt s"
  shows "calm log (readWithObservation x rt s ctx obs)"
proof -
  have "lawful_runtime log rt" using assms by (simp add: lawful_store_def)
  with assms show ?thesis
    unfolding readWithObservation_def
    by (intro calm_intros calmE_Check_store calm_Observation_Read calm_fetch_ledger)
      (auto dest: AssertNoOrdinaryContext_no_conflict decode_ledger_no_conflict)
qed

lemma calm_read_ledger: "lawful_store log x rt s \<Longrightarrow> calm log (read_ledger x rt s)"
  unfolding read_ledger_def by (rule calm_readWithObservation)

lemma read_ledger_stored:
  assumes "lawful_store log x rt s"
  shows "wp (read_ledger x rt s) (\<lambda>r w'. \<forall>cm c. r = Inr (cm, c) \<longrightarrow>
    cm_key cm = store_key s \<and> stored (log w') (store_key s) (OConfigMap cm) \<and>
    ValidString (ResourceVersion (cm_meta cm)) \<and> decode_data x s (mget (Data cm) dataKey) = Inr c) w"
proof -
  have fetch: "wp (fetch_ledger x s) (\<lambda>r w'. \<forall>cm. r = Inr cm \<longrightarrow>
      cm_key cm = store_key s \<and> stored (log w') (store_key s) (OConfigMap cm) \<and>
      ValidString (ResourceVersion (cm_meta cm))) w" for w
    unfolding fetch_ledger_def wp_attempt
    by (rule wp_mono [OF rd_Get_cm_stored [OF assms]])
      (auto simp: wp_guard wp_ret cm_key_def store_key_def split: sum.split option.split)
  have decode: "decode_ledger x s cm = Inr (cm', c) \<Longrightarrow> cm' = cm \<and> decode_data x s (mget (Data cm) dataKey) = Inr c" for cm cm' c
    by (auto simp: decode_ledger_def split: if_splits sum.splits)
  have main: "wp (attempt (fetch_ledger x s) (\<lambda>cm. ret (decode_ledger x s cm))) (\<lambda>r w'. \<forall>cm c. r = Inr (cm, c) \<longrightarrow>
      cm_key cm = store_key s \<and> stored (log w') (store_key s) (OConfigMap cm) \<and>
      ValidString (ResourceVersion (cm_meta cm)) \<and> decode_data x s (mget (Data cm) dataKey) = Inr c) w" for w
    unfolding wp_attempt
    by (rule wp_mono [OF fetch]) (auto simp: wp_ret dest: decode split: sum.split)
  show ?thesis
    unfolding read_ledger_def readWithObservation_def wp_guard
    by (rule wpI) (auto simp: main split: option.split)
qed

lemma QueueTemplate_key:
  assumes "Bootstrapper_validate x b = None"
  shows "DataKey (QueueTemplate b) = dataKey"
  using assms by (auto simp: Bootstrapper_validate_def split: if_splits option.splits)

lemma valid_dataKey: "ValidString dataKey"
  by (rule ValidString_ascii) simp

lemma write_ledger_cas:
  assumes "lawful_store log x rt s" and "cm_key cm = store_key s"
    and "stored (log w) (store_key s) (OConfigMap cm)" and "ValidString (ResourceVersion (cm_meta cm))"
    and "decode_data x s (mget (Data cm) dataKey) = Inr c" and "good_state s t"
  shows "wp (write_ledger x s cm t) (\<lambda>r w'. still (log w) (log w') \<and> r \<noteq> None \<or>
    (\<exists>raw. encodeState x t = Inr raw \<and>
       cas_post (store_key s) dataKey (mget (Data cm) dataKey) raw (log w) (log w') r)) w"
proof (cases "encodeState x t")
  case (Inl e)
  then show ?thesis by (auto simp: write_ledger_def wp_ret grows.refl)
next
  case (Inr raw)
  have dns: "dns_names x" using assms(1) by (simp add: lawful_store_def)
  have vraw: "ValidString raw" by (rule encodeState_text [OF dns assms(6) Inr])
  have post: "wp m (\<lambda>r w'. cas_post (store_key s) dataKey (mget (Data cm) dataKey) raw (log w) (log w') r) w \<Longrightarrow>
      wp m (\<lambda>r w'. still (log w) (log w') \<and> (\<exists>e. r = Some e) \<or>
        cas_post (store_key s) dataKey (mget (Data cm) dataKey) raw (log w) (log w') r) w" for m
    by (erule wp_mono) auto
  have patch: "wp (PatchLedgerData x (Genesis s) cm Queue raw)
      (\<lambda>r w'. cas_post (store_key s) dataKey (mget (Data cm) dataKey) raw (log w) (log w') r) w"
    if g: "Genesis s = Some g" for g
    using PatchLedgerData_cas [of log g Queue "QueueTemplate (Bootstrap g)" cm raw x w]
      assms(1,2,4) decode_data_Inr(4) [OF assms(5)] g vraw valid_dataKey
    by (auto simp: lawful_store_def role_template_def)
  have update: "wp (cl_Update_cm s (cm\<lparr>Data := [(dataKey, raw)]\<rparr>))
      (\<lambda>r w'. cas_post (store_key s) dataKey (mget (Data cm) dataKey) raw (log w) (log w') r) w"
    using update_cas [of log _ w cm dataKey raw] assms(1-3)
    by (auto simp: cl_Update_cm_def lawful_store_def wp_ret cas_post_failed grows.refl split: option.split)
  show ?thesis
    unfolding write_ledger_def Inr sum.case
    using patch update by (auto simp: wp_ret grows.refl guarded_def Option.is_none_def intro!: post)
qed

interpretation queue: cas_ledger "lawful_store log x rt s" "encodeState x" "decode_data x s" "good_state s"
  log "store_key s" dataKey "read_ledger x rt s" "write_ledger x s"
  for log :: "'w \<Rightarrow> event list" and x :: "'x ext_scheme" and rt :: "'w runtime" and s :: "'w Store"
proof
  show "decode_data x s raw = Inr c \<Longrightarrow> ValidString raw" for raw c by (rule decode_data_Inr(4))
  show "decode_data x s raw = Inr c \<Longrightarrow> good_state s c" for raw c by (rule decode_data_Inr(3))
  assume ok: "lawful_store log x rt s"
  then have dns: "dns_names x" by (simp add: lawful_store_def)
  show "good_state s c \<Longrightarrow> encodeState x c = Inr raw \<Longrightarrow> decode_data x s raw = Inr c" for c raw
    by (rule decode_data_encode [OF dns])
  show "good_state s c \<Longrightarrow> encodeState x c = Inr raw \<Longrightarrow> ValidString raw" for c raw
    by (rule encodeState_text [OF dns])
  show "wp (read_ledger x rt s) (\<lambda>r w'. still (log w) (log w') \<and> (\<forall>e. r = Inl e \<longrightarrow> \<not> IsConflict e) \<and>
      (\<forall>cm c. r = Inr (cm, c) \<longrightarrow> cm_key cm = store_key s \<and> stored (log w') (store_key s) (OConfigMap cm) \<and>
        ValidString (ResourceVersion (cm_meta cm)) \<and> decode_data x s (mget (Data cm) dataKey) = Inr c)) w" for w
    using wp_conj [OF calmD [OF calm_read_ledger [OF ok]] read_ledger_stored [OF ok]]
    by (rule wp_mono) blast
  show "cm_key cm = store_key s \<Longrightarrow> stored (log w) (store_key s) (OConfigMap cm) \<Longrightarrow>
      ValidString (ResourceVersion (cm_meta cm)) \<Longrightarrow> decode_data x s (mget (Data cm) dataKey) = Inr c \<Longrightarrow>
      good_state s t \<Longrightarrow> wp (write_ledger x s cm t) (\<lambda>r w'. still (log w) (log w') \<and> r \<noteq> None \<or>
        (\<exists>raw. encodeState x t = Inr raw \<and>
          cas_post (store_key s) dataKey (mget (Data cm) dataKey) raw (log w) (log w') r)) w" for cm w c t
    by (rule write_ledger_cas [OF ok])
qed

section \<open>The abstract protocol\<close>

text \<open>
  One commit of the ledger: a new intent within both limits, the pin of its receipt, the decision to
  clean up, the release of the slot. Under a guard a slot is released only after the receipt was
  pinned and cleanup decided.
\<close>

datatype queue_label = LReserve string Intent | LPin string | LMark string string | LRelease string

inductive queue_step :: "bool \<Rightarrow> queue_label \<Rightarrow> queue_state \<Rightarrow> queue_state \<Rightarrow> bool" for g :: bool where
  reserve: "map_of (the_intents c) i = None \<Longrightarrow> int (length (the_intents c)) < GlobalLimit c \<Longrightarrow>
    int (held_by (RequesterHash e) (the_intents c)) < RequesterLimit c \<Longrightarrow> ReceiptUID e = [] \<Longrightarrow>
    CleanupKind e = [] \<Longrightarrow> queue_step g (LReserve i e) c (put_intent i e c)"
| pin: "g \<Longrightarrow> map_of (the_intents c) i = Some e \<Longrightarrow> ReceiptUID e = [] \<Longrightarrow> CleanupKind e = [] \<Longrightarrow> u \<noteq> [] \<Longrightarrow>
    queue_step g (LPin i) c (put_intent i (e\<lparr>ReceiptUID := u, ReceiptDigest := d\<rparr>) c)"
| mark: "map_of (the_intents c) i = Some e \<Longrightarrow> ReceiptUID e \<noteq> [] \<Longrightarrow> CleanupKind e = [] \<Longrightarrow>
    k = cleanupRejected \<or> k = cleanupTerminal \<Longrightarrow>
    queue_step g (LMark i k) c (put_intent i (e\<lparr>CleanupKind := k\<rparr>) c)"
| release: "map_of (the_intents c) i = Some e \<Longrightarrow> (g \<Longrightarrow> ReceiptUID e \<noteq> [] \<and> CleanupKind e \<noteq> []) \<Longrightarrow>
    queue_step g (LRelease i) c (del_intent i c)"

definition queue_event ::
  "'x ext_scheme \<Rightarrow> 'w Store \<Rightarrow> (queue_label \<Rightarrow> bool) \<Rightarrow> event list \<Rightarrow> event \<Rightarrow> bool" where
  "queue_event x s L = ledger_event (decode_data x s) (store_key s) dataKey
     (\<lambda>c c'. \<exists>l. L l \<and> queue_step (guarded s) l c c')"

lemma queue_event_mono: "queue_event x s L h e \<Longrightarrow> (\<And>l. L l \<Longrightarrow> M l) \<Longrightarrow> queue_event x s M h e"
  unfolding queue_event_def by (erule ledger_event_mono) blast

abbreviation queue_commit ::
  "'x ext_scheme \<Rightarrow> 'w Store \<Rightarrow> queue_state \<Rightarrow> queue_state \<Rightarrow> event list \<Rightarrow> event list \<Rightarrow> bool" where
  "queue_commit x s \<equiv> state_commit (decode_data x s) (store_key s) dataKey"

lemma the_intents_simps [simp]:
  "the_intents (put_intent i e c) = mput i e (the_intents c)" "the_intents (del_intent i c) = mdel i (the_intents c)"
  by (simp_all add: the_intents_def put_intent_def del_intent_def)

lemma int64_state_iff: "int64_state c \<longleftrightarrow> (\<forall>e \<in> snd ` set (the_intents c). int64 (CreatedAtUnix e))"
  by (cases "Intents c") (auto simp: int64_state_def the_intents_def)

lemma good_state_put: "good_state s c \<Longrightarrow> int64 (CreatedAtUnix e) \<Longrightarrow> good_state s (put_intent i e c)"
  by (auto simp: good_state_def int64_state_iff gomap_simps set_mput) (simp_all add: put_intent_def)

lemma good_state_del: "good_state s c \<Longrightarrow> good_state s (del_intent i c)"
  by (auto simp: good_state_def int64_state_iff gomap_simps set_mdel) (simp_all add: del_intent_def)

lemma good_state_int64: "good_state s c \<Longrightarrow> map_of (the_intents c) i = Some e \<Longrightarrow> int64 (CreatedAtUnix e)"
  by (force simp: good_state_def int64_state_iff dest: map_of_SomeD)

section \<open>Reading one entry\<close>

definition seen_intent :: "'x ext_scheme \<Rightarrow> 'w Store \<Rightarrow> string \<Rightarrow> Intent option \<Rightarrow> event list \<Rightarrow> bool" where
  "seen_intent x s ident r l \<longleftrightarrow> (\<exists>a c. stored l (store_key s) a \<and>
     ledger_state (decode_data x s) dataKey a = Some c \<and> map_of (the_intents c) ident = r)"

lemma has_read_seen:
  "has_read (decode_data x s) (store_key s) dataKey l cm c \<Longrightarrow> seen_intent x s ident (map_of (the_intents c) ident) l"
  unfolding has_read_def seen_intent_def ledger_state_def
  by (intro exI [of _ "OConfigMap cm"] exI [of _ c]) auto

lemma seen_intent_grows: "seen_intent x s i r l \<Longrightarrow> grows R l l' \<Longrightarrow> seen_intent x s i r l'"
  unfolding seen_intent_def by (blast intro: grows_stored)

lemma wp_Lookup:
  assumes "lawful_store log x rt s"
    and "\<And>w' e. still (log w) (log w') \<Longrightarrow> Q (Inl e) w'"
    and "\<And>w' r. still (log w) (log w') \<Longrightarrow> seen_intent x s ident r (log w') \<Longrightarrow> Q (Inr r) w'"
  shows "wp (Lookup x rt s ident) Q w"
  unfolding Lookup_def lookupWithObservation_def wp_attempt
  by (fold read_ledger_def, rule queue.wp_read [OF assms(1)])
    (auto simp: wp_ret intro: assms(2,3) has_read_seen)

lemma quiet_Lookup: "lawful_store log x rt s \<Longrightarrow> quiet log (Lookup x rt s ident)"
  unfolding keeps_given_def by (intro allI impI wp_Lookup)

lemma quiet_runtime:
  assumes "lawful_store log x rt s"
  shows "quiet log (Ctx_Err rt)" "quiet log (waitCAS rt i)" "quiet log (Now rt)" "quiet log (randomNonce rt)"
  using assms
  by (auto simp: lawful_store_def lawful_runtime_def waitCAS_def randomNonce_def intro: keeps_intros calm_quiet calmE_quiet)

end
