(* ===== verification/Queue_Steps.thy ===== *)
theory Queue_Steps
  imports Queue_Protocol
begin

text \<open>
  Every operation of the queue ledger keeps to the protocol: whatever other processes do in between,
  each version of the ledger that the operation stores is one step of \<open>queue_step\<close> from the version
  it replaces, with the labels that belong to the operation.
\<close>

section \<open>Reads\<close>

lemma quiet_CheckReceiptNamespace:
  assumes "lawful_store log x rt s"
  shows "quiet log (checkReceiptNamespaceWithObservation x rt s ctx obs)"
proof -
  have get: "calm log (api_GetNamespace (Bootstrap g) n)" if "Genesis s = Some g" for g n
    using assms that by (auto simp: lawful_store_def lawful_guard_def intro: calm_api_GetNamespace)
  have "lawful_runtime log rt" using assms by (simp add: lawful_store_def)
  then show ?thesis
    unfolding checkReceiptNamespaceWithObservation_def
    by (intro keeps_intros calm_quiet [OF get] calm_quiet [OF calm_Observation_Read [OF _ get]])
qed

lemma quiet_Check: "lawful_store log x rt s \<Longrightarrow> quiet log (Check x (Genesis s))"
  by (intro calmE_quiet calmE_Check_store)

lemma quiet_observePinnedReceipt:
  assumes "lawful_store log x rt s"
  shows "quiet log (observePinnedReceipt x rt s build entry)"
proof -
  have "lawful_runtime log rt" using assms by (simp add: lawful_store_def)
  then show ?thesis
    unfolding observePinnedReceipt_def observePinnedReceiptWithObservation_def
    by (intro keeps_intros quiet_CheckReceiptNamespace [OF assms] quiet_Check [OF assms]
        calm_quiet [OF calm_rd_Get_cm [OF assms]] calm_quiet [OF calm_Observation_Read] calm_rd_Get_cm [OF assms])
qed

lemma quiet_settled_release:
  assumes "lawful_store log x rt s"
  shows "quiet log (settled_release x rt s build nonce)"
  unfolding settled_release_def CheckReceiptNamespace_def
  by (intro keeps_intros quiet_CheckReceiptNamespace [OF assms] quiet_Check [OF assms]
      calm_quiet [OF calm_rd_Get_cm [OF assms]] calm_quiet [OF calm_rd_Get_build [OF assms]])

section \<open>Writes\<close>

definition touches :: "okey \<Rightarrow> event list \<Rightarrow> event \<Rightarrow> bool" where
  "touches k h e \<longleftrightarrow> sent_to k h e \<or> (\<exists>v. e = Own k v)"

lemma keeps_requests:
  assumes "requests log q fails commits m" and "\<And>n e r. commits n e r \<Longrightarrow> touches (req_key q) n e"
  shows "keeps log (touches (req_key q)) m"
  unfolding keeps_given_def
proof (intro allI impI)
  fix w
  have sent: "grows (touches (req_key q)) (log w) n" if "still (log w) l" "still (l @ [Sent q]) n" for l n
    by (rule grows_mono [OF grows_sent [OF that(1) HOL.refl that(2)]]) (simp add: touches_def)
  have own: "grows (touches (req_key q)) (log w) (n @ [e])"
    if "still (log w) l" "still (l @ [Sent q]) n" "is_own e" "commits n e r" for l n e r
    by (rule grows.own [OF sent [OF that(1,2)]]) (use that assms(2) in \<open>auto elim!: is_own.elims\<close>)
  show "wp m (\<lambda>_ w'. grows (touches (req_key q)) (log w) (log w')) w"
    by (rule wp_mono [OF requestsD [OF assms(1)]]) (auto intro: sent own)
qed

lemma keeps_cl_Delete_cm:
  assumes "lawful_store log x rt s"
  shows "keeps log (touches (KConfigMap, ns, n)) (cl_Delete_cm s ns n u)"
proof -
  have "keeps log (touches (req_key (ReqDelete (KConfigMap, ns, n) u))) (Delete_cm c ns n u)" if "Client s = Some c" for c
    by (rule keeps_requests [where commits = "delete_commits (KConfigMap, ns, n) u" and fails = "\<lambda>r. r \<noteq> None"])
      (use assms that in \<open>auto simp: lawful_store_def lawful_client_def delete_commits_def touches_def\<close>)
  then show ?thesis unfolding cl_Delete_cm_def by (intro keeps_intros) auto
qed

lemma keeps_cl_Update_build:
  assumes "lawful_store log x rt s"
  shows "keeps log (touches (build_key b)) (cl_Update_build s b)"
proof -
  have "keeps log (touches (req_key (ReqUpdate (build_key b) (OBuild b)))) (Update_build c b)" if "Client s = Some c" for c
    by (rule keeps_requests [where commits = "update_build_commits b" and fails = is_err])
      (use assms that in \<open>auto simp: lawful_store_def lawful_client_def update_build_commits_def touches_def\<close>)
  then show ?thesis unfolding cl_Update_build_def by (intro keeps_intros) auto
qed

definition receipt_key :: "'w Store \<Rightarrow> Intent \<Rightarrow> okey" where
  "receipt_key s entry = (KConfigMap, receiptNamespace s, receipt_name entry)"

lemma keeps_deletePinnedReceipt:
  assumes "lawful_store log x rt s"
  shows "keeps log (touches (receipt_key s entry)) (deletePinnedReceipt x rt s entry)"
  unfolding deletePinnedReceipt_def CheckReceiptNamespace_def
  by (intro keeps_intros quiet_keeps [OF quiet_CheckReceiptNamespace [OF assms]] quiet_keeps [OF quiet_Check [OF assms]]
      quiet_keeps [OF calm_quiet [OF calm_rd_Get_cm [OF assms]]])
    (use keeps_cl_Delete_cm [OF assms] in \<open>auto simp: receipt_key_def\<close>)

lemma rd_Get_build_key:
  assumes "lawful_store log x rt s"
  shows "wp (rd_Get_build s ns n) (\<lambda>r _. \<forall>b. r = Inr b \<longrightarrow> build_key b = (KBuild, ns, n)) w"
proof (cases "reader s")
  case (Some r)
  then have "wp (Get_build r ns n) (\<lambda>r w'. \<forall>b. r = Inr b \<longrightarrow> Namespace (build_meta b) = ns \<and>
      Name (build_meta b) = n \<and> stored (log w') (KBuild, ns, n) (OBuild b)) w"
    using lawful_store_reader [OF assms] by (auto simp: lawful_reader_def)
  then show ?thesis
    unfolding rd_Get_build_def Some option.case by (rule wp_mono) (auto simp: build_key_def)
qed (simp add: rd_Get_build_def wp_ret)

lemma keeps_markReceiptSettled:
  assumes "lawful_store log x rt s"
  shows "keeps log (touches (build_key build)) (markReceiptSettled x rt s build entry)"
proof -
  note get = quiet_keeps [OF calm_quiet [OF calm_rd_Get_build [OF assms]]]
  note upd = keeps_cl_Update_build [OF assms]
  show ?thesis
    unfolding markReceiptSettled_def Let_def
    by (intro keeps_for_retry keeps_ret keeps_rtryE_post [OF get rd_Get_build_key [OF assms]])
      (intro keeps_intros get quiet_keeps [OF quiet_Check [OF assms]] quiet_keeps [OF quiet_runtime(2) [OF assms]]
        keeps_mono [OF upd], auto simp: build_key_def)
qed

section \<open>Steps of the ledger\<close>

text \<open>The facts every proof below uses: the read and the write of the ledger, and the quiet calls.\<close>

lemma keeps_write:
  assumes "lawful_store log x rt s" and "carries (decode_data x s) (store_key s) dataKey cm c"
    and "(store_key s, OConfigMap cm) \<in> K" and "good_state s c'" and "queue_step (guarded s) l c c'" and "L l"
  shows "keeps_given K log (queue_event x s L) (write_ledger x s cm c')"
  by (rule queue.keeps_save [OF assms(1-4), where S = "\<lambda>c c'. \<exists>l. L l \<and> queue_step (guarded s) l c c'"])
    (use assms(5,6) in \<open>auto simp: queue_event_def\<close>)

lemma keeps_Lookup: "lawful_store log x rt s \<Longrightarrow> keeps_given K log R (Lookup x rt s ident)"
  by (rule quiet_keeps, rule quiet_Lookup)

lemma keeps_waitCAS: "lawful_store log x rt s \<Longrightarrow> keeps_given K log R (waitCAS rt i)"
  by (rule quiet_keeps, rule quiet_runtime(2))

lemma carries_good_state: "carries (decode_data x s) k dataKey cm c \<Longrightarrow> good_state s c"
  by (auto simp: carries_def dest: decode_data_Inr(3))

abbreviation removal_of :: "string \<Rightarrow> queue_state \<Rightarrow> queue_state \<Rightarrow> queue_state \<Rightarrow> bool" where
  "removal_of ident c \<equiv> \<lambda>a b. a = c \<and> b = del_intent ident c"

lemma keeps_remove_slot_exact:
  assumes "lawful_store log x rt s" and "carries (decode_data x s) (store_key s) dataKey cm c"
    and "(store_key s, OConfigMap cm) \<in> K"
  shows "keeps_given K log (ledger_event (decode_data x s) (store_key s) dataKey (removal_of ident c))
    (remove_slot x rt s retry cm c ident)"
  unfolding remove_slot_def
  by (intro keeps_intros keeps_Lookup [OF assms(1)] keeps_waitCAS [OF assms(1)]
      queue.keeps_save [OF assms, where S = "removal_of ident c"] good_state_del carries_good_state [OF assms(2)]) auto

lemma keeps_remove_slot:
  assumes "lawful_store log x rt s" and "carries (decode_data x s) (store_key s) dataKey cm c"
    and "map_of (the_intents c) ident = Some entry"
    and "guarded s \<Longrightarrow> ReceiptUID entry \<noteq> [] \<and> CleanupKind entry \<noteq> []"
    and "(store_key s, OConfigMap cm) \<in> K" and "L (LRelease ident)"
  shows "keeps_given K log (queue_event x s L) (remove_slot x rt s retry cm c ident)"
  by (rule keeps_mono [OF keeps_remove_slot_exact [OF assms(1,2,5)]])
    (use queue_step.release [OF assms(3,4)] assms(6) in
      \<open>auto simp: queue_event_def elim!: ledger_event_mono\<close>)

lemma keeps_releaseRejected:
  assumes "lawful_store log x rt s"
  shows "keeps log (queue_event x s (\<lambda>l. l = LRelease ident)) (releaseRejected x rt s ident nonce)"
  unfolding releaseRejected_def
  by (intro keeps_for_retry keeps_ret queue.keeps_rtryE_load [OF assms])
    (auto intro!: keeps_intros keeps_remove_slot [OF assms])

lemma keeps_write_reserve:
  assumes "lawful_store log x rt s" and "carries (decode_data x s) (store_key s) dataKey cm c"
    and "(store_key s, OConfigMap cm) \<in> K" and "int64 (CreatedAtUnix e)" and "map_of (the_intents c) i = None"
    and "\<not> StoreGlobalLimit s \<le> int (length (the_intents c))"
    and "\<not> StoreRequesterLimit s \<le> int (held_by (RequesterHash e) (the_intents c))"
    and "ReceiptUID e = []" and "CleanupKind e = []" and "L (LReserve i e)"
  shows "keeps_given K log (queue_event x s L) (write_ledger x s cm (put_intent i e c))"
proof (rule keeps_write [where L = L, OF assms(1-3) _ _ assms(10)])
  have good: "good_state s c" by (rule carries_good_state [OF assms(2)])
  then show "good_state s (put_intent i e c)" using assms(4) by (rule good_state_put)
  show "queue_step (guarded s) (LReserve i e) c (put_intent i e c)"
    by (rule queue_step.reserve) (use good assms in \<open>auto simp: good_state_def\<close>)
qed

lemma keeps_Reserve:
  assumes "lawful_store log x rt s"
  shows "keeps log (queue_event x s (\<lambda>l. \<exists>e. l = LReserve (Name (build_meta build)) e)) (Reserve x rt s build)"
proof -
  note rt = quiet_runtime [OF assms, THEN quiet_keeps]
  have now: "wp (Now rt) (\<lambda>t _. int64 t) w" for w
    using assms by (simp add: lawful_store_def lawful_runtime_def)
  show ?thesis
    unfolding Reserve_def reserve_round_def reserve_write_def
    by (intro keeps_attempt rt keeps_bind_post [OF rt(3) now] keeps_Let keeps_for_retry keeps_rguard keeps_ret
        queue.keeps_rtry_load [OF assms])
      (intro keeps_intros keeps_Lookup [OF assms] keeps_waitCAS [OF assms] keeps_write_reserve [OF assms], auto)
qed

lemma keeps_write_entry:
  assumes "lawful_store log x rt s" and "carries (decode_data x s) (store_key s) dataKey cm c"
    and "(store_key s, OConfigMap cm) \<in> K" and "map_of (the_intents c) i = Some old"
    and "CreatedAtUnix e = CreatedAtUnix old" and "queue_step (guarded s) l c (put_intent i e c)" and "L l"
  shows "keeps_given K log (queue_event x s L) (write_ledger x s cm (put_intent i e c))"
proof (rule keeps_write [where L = L, OF assms(1-3) _ assms(6,7)])
  have "good_state s c" by (rule carries_good_state [OF assms(2)])
  then show "good_state s (put_intent i e c)"
    using good_state_int64 [OF _ assms(4)] assms(5) by (intro good_state_put) auto
qed

lemma keeps_PinReceipt:
  assumes "lawful_store log x rt s"
  shows "keeps log (queue_event x s (\<lambda>l. l = LPin (Name (build_meta build)))) (PinReceipt x rt s build reserved witness)"
proof (cases "guarded s")
  case True
  show ?thesis
    unfolding PinReceipt_def CheckReceiptNamespace_def
    by (intro keeps_guardE keeps_attemptE keeps_if keeps_ret keeps_for_retry queue.keeps_rtryE_load [OF assms]
        quiet_keeps [OF quiet_CheckReceiptNamespace [OF assms]])
      (intro keeps_intros keeps_Lookup [OF assms] keeps_waitCAS [OF assms]
        quiet_keeps [OF quiet_CheckReceiptNamespace [OF assms]]
        keeps_write_entry [OF assms, where l = "LPin (Name (build_meta build))"] queue_step.pin,
        use True in \<open>auto simp: validReceiptUID_def\<close>)
next
  case False
  then have "ReceiptIntent x s build reserved = Inl ErrDrift"
    by (simp add: ReceiptIntent_def guarded_def Option.is_none_def split: option.splits)
  then show ?thesis
    unfolding PinReceipt_def CheckReceiptNamespace_def
    by (intro keeps_guardE quiet_keeps [OF quiet_CheckReceiptNamespace [OF assms]])
      (simp add: attemptE_def keeps_ret)
qed

lemma keeps_markReceiptCleanupReady:
  assumes "lawful_store log x rt s"
  shows "keeps log (queue_event x s (\<lambda>l. l = LMark ident kind)) (markReceiptCleanupReady x rt s ident expected kind)"
  unfolding markReceiptCleanupReady_def
  by (intro keeps_if keeps_ret keeps_for_retry queue.keeps_rtryE_load [OF assms])
    (intro keeps_intros keeps_Lookup [OF assms] keeps_waitCAS [OF assms]
        keeps_write_entry [OF assms, where l = "LMark ident kind"] queue_step.mark, auto)

end
