(* ===== verification/Queue_Release.thy ===== *)
theory Queue_Release
  imports Queue_Steps
begin

text \<open>
  The order of effects when a guarded queue slot is released: the slot is removed from the ledger
  only after its receipt was seen to be gone, and only for an entry that was marked for cleanup.
\<close>

section \<open>The deletion of the receipt\<close>

definition direct_store :: "('w \<Rightarrow> event list) \<Rightarrow> 'w Store \<Rightarrow> bool" where
  "direct_store log s \<longleftrightarrow> (\<forall>r. reader s = Some r \<longrightarrow> direct_reader log r)"

lemma rd_Get_cm_absent:
  assumes "direct_store log s"
  shows "wp (rd_Get_cm s ns n) (\<lambda>r w'. \<forall>e. r = Inl e \<and> IsNotFound e \<longrightarrow> current (log w') (KConfigMap, ns, n) = None) w"
proof (cases "reader s")
  case (Some r)
  then have "wp (Get_cm r ns n) (\<lambda>r w'. (\<forall>cm. r = Inr cm \<longrightarrow> current (log w') (KConfigMap, ns, n) = Some (OConfigMap cm)) \<and>
      (\<forall>e. r = Inl e \<and> IsNotFound e \<longrightarrow> current (log w') (KConfigMap, ns, n) = None)) w"
    using assms by (simp add: direct_store_def direct_reader_def)
  then show ?thesis
    unfolding rd_Get_cm_def Some option.case by (rule wp_mono) blast
qed (simp add: rd_Get_cm_def wp_ret)

definition gone_if_ok :: "okey \<Rightarrow> event list \<Rightarrow> event list \<Rightarrow> goerr option \<Rightarrow> bool" where
  "gone_if_ok k l m r \<longleftrightarrow> (r = None \<longrightarrow> absent_between k l m)"

text \<open>A named read of the receipt, followed by a check of the installation where it is absent.\<close>

lemma wp_absent_then_Check:
  assumes "lawful_store log x rt s" and "direct_store log s" and "grows R l (log w)"
    and "\<And>cm w'. still (log w) (log w') \<Longrightarrow> wp (f cm) (\<lambda>r w''. gone_if_ok (KConfigMap, ns, n) l (log w'') r) w'"
  shows "wp (do { r \<leftarrow> rd_Get_cm s ns n;
      case r of Inl e \<Rightarrow> if IsNotFound e then Check x (Genesis s) else ret (Some e) | Inr cm \<Rightarrow> f cm })
    (\<lambda>r w'. gone_if_ok (KConfigMap, ns, n) l (log w') r) w"
  unfolding wp_bind
proof (rule wp_mono [OF wp_conj [OF calmD [OF calm_rd_Get_cm [OF assms(1)]] rd_Get_cm_absent [OF assms(2)]]], elim conjE)
  fix r :: "goerr + configmap" and w'
  assume st: "still (log w) (log w')"
    and absent: "\<forall>e. r = Inl e \<and> IsNotFound e \<longrightarrow> current (log w') (KConfigMap, ns, n) = None"
  have l: "grows R l (log w')" by (rule grows_trans [OF still_grows [OF st] assms(3)])
  have check: "wp (Check x (Genesis s)) (\<lambda>r w''. gone_if_ok (KConfigMap, ns, n) l (log w'') r) w'"
    if "current (log w') (KConfigMap, ns, n) = None"
    by (rule wp_mono [OF calmED [OF calmE_Check_store [OF assms(1)]]])
      (auto simp: gone_if_ok_def intro: absent_between_mono [OF absent_between_now [OF l that] grows.refl])
  show "wp (case r of Inl e \<Rightarrow> if IsNotFound e then Check x (Genesis s) else ret (Some e) | Inr cm \<Rightarrow> f cm)
      (\<lambda>r w''. gone_if_ok (KConfigMap, ns, n) l (log w'') r) w'"
    using absent st
    by (cases r) (auto simp: wp_ret gone_if_ok_def [of _ _ _ "Some _"] intro: check assms(4))
qed

lemma deletePinnedReceipt_gone:
  assumes "lawful_store log x rt s" and "direct_store log s"
  shows "wp (deletePinnedReceipt x rt s entry) (\<lambda>r w'. gone_if_ok (receipt_key s entry) (log w) (log w') r) w"
proof -
  let ?k = "(KConfigMap, receiptNamespace s, receipt_name entry)"
  have err: "gone_if_ok k l m (Some e)" for k l m e by (simp add: gone_if_ok_def)
  have step: "wp (guardE m k) (\<lambda>r w'. gone_if_ok ?k (log w) (log w') r) w'"
    if "quiet log m" "grows (touches ?k) (log w) (log w')"
      "\<And>w''. grows (touches ?k) (log w) (log w'') \<Longrightarrow> wp k (\<lambda>r w'. gone_if_ok ?k (log w) (log w') r) w''" for m k w'
    unfolding wp_guardE
    by (rule wp_mono [OF keepsD [OF that(1)]])
      (auto intro: err that(3) grows_trans [OF still_grows that(2)] split: option.split)
  have delete: "wp (do { deleteErr \<leftarrow> cl_Delete_cm s (receiptNamespace s) (receipt_name entry) u;
        after \<leftarrow> rd_Get_cm s (receiptNamespace s) (receipt_name entry);
        case after of Inl e \<Rightarrow> if IsNotFound e then Check x (Genesis s) else ret (Some e)
        | Inr a \<Rightarrow> if UID (cm_meta a) \<noteq> i then ret (Some ErrDrift)
                   else if deleteErr \<noteq> None then ret deleteErr else ret (Some msg) })
      (\<lambda>r w'. gone_if_ok ?k (log w) (log w') r) w'"
    if "grows (touches ?k) (log w) (log w')" for w' u i msg
    unfolding wp_bind [of "cl_Delete_cm s (receiptNamespace s) (receipt_name entry) u"]
    by (rule wp_mono [OF keepsD [OF keeps_cl_Delete_cm [OF assms(1)]]], simp)
      (rule wp_absent_then_Check [OF assms grows_trans [OF _ that]], auto simp: wp_ret err)
  show ?thesis
    unfolding deletePinnedReceipt_def CheckReceiptNamespace_def receipt_key_def wp_if
    using quiet_CheckReceiptNamespace [OF assms(1)] quiet_Check [OF assms(1)]
    by (intro conjI impI step wp_absent_then_Check [OF assms])
      (auto simp: wp_ret err grows.refl intro!: step delete intro: grows_trans still_grows)
qed

section \<open>The order of a release\<close>

text \<open>
  An event of a release that began at the log \<open>l0\<close>: on a receipt, on the build, a mark of the slot,
  or the removal of a slot whose receipt was absent at some time since \<open>l0\<close>.
\<close>

definition removal_event :: "'x ext_scheme \<Rightarrow> 'w Store \<Rightarrow> string \<Rightarrow> event list \<Rightarrow> event list \<Rightarrow> event \<Rightarrow> bool" where
  "removal_event x s ident l0 h e \<longleftrightarrow> (\<exists>c entry. map_of (the_intents c) ident = Some entry \<and>
     ReceiptUID entry \<noteq> [] \<and> CleanupKind entry \<noteq> [] \<and> absent_between (receipt_key s entry) l0 h \<and>
     ledger_event (decode_data x s) (store_key s) dataKey (removal_of ident c) h e)"

definition release_event ::
  "'x ext_scheme \<Rightarrow> 'w Store \<Rightarrow> okey \<Rightarrow> string \<Rightarrow> event list \<Rightarrow> event list \<Rightarrow> event \<Rightarrow> bool" where
  "release_event x s bk ident l0 h e \<longleftrightarrow>
     (\<exists>entry. touches (receipt_key s entry) h e) \<or> touches bk h e \<or>
     queue_event x s (\<lambda>l. \<exists>k. l = LMark ident k) h e \<or> removal_event x s ident l0 h e"

lemma removal_event_mono: "removal_event x s ident l h e \<Longrightarrow> grows R l0 l \<Longrightarrow> removal_event x s ident l0 h e"
  unfolding removal_event_def by (blast intro: absent_between_mono grows.refl)

lemma release_event_mono: "release_event x s bk i l h e \<Longrightarrow> grows R l0 l \<Longrightarrow> release_event x s bk i l0 h e"
  unfolding release_event_def by (blast intro: removal_event_mono)

text \<open>The removal of a slot after its receipt was gone.\<close>

lemma remove_slot_after:
  assumes "lawful_store log x rt s" and "has_read (decode_data x s) (store_key s) dataKey (log w) cm c"
    and "map_of (the_intents c) ident = Some entry" and "ReceiptUID entry \<noteq> []" and "CleanupKind entry \<noteq> []"
    and "absent_between (receipt_key s entry) l0 (log w)"
  shows "wp (remove_slot x rt s retry cm c ident) (\<lambda>_ w'. grows (removal_event x s ident l0) (log w) (log w')) w"
proof -
  have carries: "carries (decode_data x s) (store_key s) dataKey cm c" and K: "knows {(store_key s, OConfigMap cm)} (log w)"
    using assms(2) by (auto simp: has_read_carries)
  show ?thesis
  proof (rule wp_mono [OF keepsD [OF keeps_remove_slot_exact [OF assms(1) carries insertI1] K]])
    fix w'
    assume g: "grows (ledger_event (decode_data x s) (store_key s) dataKey (removal_of ident c)) (log w) (log w')"
    show "grows (removal_event x s ident l0) (log w) (log w')"
    proof (rule grows_mono_prefix [OF g])
      fix h e
      assume "\<exists>a. h = log w @ a" and ev: "ledger_event (decode_data x s) (store_key s) dataKey (removal_of ident c) h e"
      then have "absent_between (receipt_key s entry) l0 h"
        using absent_between_append [OF assms(6)] by blast
      with ev assms(3-5) show "removal_event x s ident l0 h e" unfolding removal_event_def by blast
    qed
  qed
qed

lemma releaseRejected_after:
  assumes "lawful_store log x rt s" and "guarded s" and "Nonce e0 = nonce"
    and "absent_between (receipt_key s e0) l0 (log w)"
  shows "runs_to log (removal_event x s ident l0) (log w) w (releaseRejected x rt s ident nonce)"
  unfolding releaseRejected_def
proof (rule runs_to_for_retry [OF grows.refl], rule queue.runs_to_rtryE_load [OF assms(1)])
  fix i w2 cm c
  assume g: "grows (removal_event x s ident l0) (log w) (log w2)"
    and rd: "has_read (decode_data x s) (store_key s) dataKey (log w2) cm c"
  have rem: "runs_to log (removal_event x s ident l0) (log w) w2 (remove_slot x rt s i cm c ident)"
    if "map_of (the_intents c) ident = Some entry" "ReceiptUID entry \<noteq> []" "CleanupKind entry = cleanupRejected"
      "Nonce entry = nonce" for entry
    by (rule runs_to_grows [OF remove_slot_after [OF assms(1) rd that(1,2)] g])
      (use that assms(3) absent_between_mono [OF assms(4) grows.refl g] in \<open>auto simp: receipt_key_def receipt_name_def\<close>)
  show "runs_to log (removal_event x s ident l0) (log w) w2 (case (cm, c) of (cm, c) \<Rightarrow>
      case map_of (the_intents c) ident of
        None \<Rightarrow> ret (Return None)
      | Some entry \<Rightarrow>
          if Nonce entry \<noteq> nonce then ret (Return (Some (Wrap ''queue intent changed'' ErrDrift)))
          else if guarded s \<and> (CleanupKind entry \<noteq> cleanupRejected \<or> ReceiptUID entry = [])
          then ret (Return (Some ErrDrift)) else remove_slot x rt s i cm c ident)"
    using assms(2) g by (auto simp: wp_ret intro: rem split: option.split)
qed (auto simp: wp_ret)

lemma removal_release: "grows (removal_event x s i l0) l m \<Longrightarrow> grows (release_event x s bk i l0) l m"
  by (erule grows_mono) (simp add: release_event_def)

lemma keeps_release_mark:
  assumes "lawful_store log x rt s"
  shows "keeps_given K log (release_event x s bk i l0) (markReceiptCleanupReady x rt s i entry kind)"
  by (rule keeps_weaken, rule keeps_mono [OF keeps_markReceiptCleanupReady [OF assms]])
    (auto simp: release_event_def intro: queue_event_mono)

lemma keeps_release_quiet:
  assumes "lawful_store log x rt s"
  shows "keeps_given K log (release_event x s bk i l0) (observePinnedReceipt x rt s build entry)"
    and "keeps_given K log (release_event x s bk i l0) (settled_release x rt s build nonce)"
    and "keeps_given K log (release_event x s bk i l0) (Lookup x rt s i)"
    and "keeps_given K log (release_event x s bk i l0) (rd_Get_build s ns i)"
  by (rule quiet_keeps, rule quiet_observePinnedReceipt quiet_settled_release quiet_Lookup
      calm_quiet [OF calm_rd_Get_build], rule assms)+

text \<open>What follows the deletion of the receipt runs in a log where the receipt was absent.\<close>

lemma runs_to_after_delete:
  assumes "lawful_store log x rt s" and "direct_store log s" and g: "grows (release_event x s bk i l0) l0 (log w)"
    and k: "\<And>w'. grows (release_event x s bk i l0) l0 (log w') \<Longrightarrow> grows (release_event x s bk i l0) (log w) (log w') \<Longrightarrow>
      absent_between (receipt_key s entry) l0 (log w') \<Longrightarrow> runs_to log (release_event x s bk i l0) l0 w' k"
  shows "wp (deletePinnedReceipt x rt s entry) (\<lambda>r w'. case r of None \<Rightarrow> runs_to log (release_event x s bk i l0) l0 w' k
      | Some e \<Rightarrow> grows (release_event x s bk i l0) l0 (log w')) w"
proof (rule wp_mono [OF wp_conj [OF keepsD [OF keeps_deletePinnedReceipt [OF assms(1)]]
        deletePinnedReceipt_gone [OF assms(1,2)]]], simp, elim conjE)
  fix r w'
  assume t: "grows (touches (receipt_key s entry)) (log w) (log w')"
    and gone: "gone_if_ok (receipt_key s entry) (log w) (log w') r"
  have t': "grows (release_event x s bk i l0) (log w) (log w')"
    by (rule grows_mono [OF t]) (auto simp: release_event_def)
  have g': "grows (release_event x s bk i l0) l0 (log w')" by (rule grows_trans [OF t' g])
  show "case r of None \<Rightarrow> runs_to log (release_event x s bk i l0) l0 w' k
      | Some e \<Rightarrow> grows (release_event x s bk i l0) l0 (log w')"
  proof (cases r)
    case None
    then have "absent_between (receipt_key s entry) l0 (log w')"
      using gone absent_between_mono [OF _ g grows.refl] by (simp add: gone_if_ok_def)
    then show ?thesis using None k [OF g' t'] by simp
  qed (use g' in simp)
qed

lemma releaseReceiptedBuild_order:
  assumes "lawful_store log x rt s" and "direct_store log s"
  shows "runs_to log (release_event x s (build_key build) (Name (build_meta build)) (log w)) (log w) w
    (releaseReceiptedBuild x rt s build)"
proof -
  let ?i = "Name (build_meta build)"
  let ?R = "release_event x s (build_key build) ?i (log w)"
  have round: "runs_to log ?R (log w) w2 (rguardE (deletePinnedReceipt x rt s entry) (
      rguardE (markReceiptSettled x rt s build entry) (remove_slot x rt s retry cm c ?i)))"
    if g: "grows ?R (log w) (log w2)" and rd: "has_read (decode_data x s) (store_key s) dataKey (log w2) cm c"
      and e: "map_of (the_intents c) ?i = Some entry" "ReceiptUID entry \<noteq> []" "CleanupKind entry \<noteq> []"
    for w2 cm c entry retry
    unfolding wp_rguardE [of "deletePinnedReceipt x rt s entry"]
  proof (rule runs_to_after_delete [OF assms g], unfold wp_rguardE)
    fix w3
    assume g3: "grows ?R (log w) (log w3)" and g23: "grows ?R (log w2) (log w3)"
      and abs: "absent_between (receipt_key s entry) (log w) (log w3)"
    show "wp (markReceiptSettled x rt s build entry) (\<lambda>r w'. case r of
        None \<Rightarrow> runs_to log ?R (log w) w' (remove_slot x rt s retry cm c ?i)
      | Some e \<Rightarrow> grows ?R (log w) (log w')) w3"
    proof (rule wp_mono [OF keepsD [OF keeps_markReceiptSettled [OF assms(1)]]], simp)
      fix r w4
      assume t: "grows (touches (build_key build)) (log w3) (log w4)"
      have t': "grows ?R (log w3) (log w4)" by (rule grows_mono [OF t]) (auto simp: release_event_def)
      have g4: "grows ?R (log w) (log w4)" by (rule grows_trans [OF t' g3])
      have rem: "runs_to log ?R (log w4) w4 (remove_slot x rt s retry cm c ?i)"
        by (rule wp_mono [OF remove_slot_after [OF assms(1) has_read_grows [OF rd grows_trans [OF t' g23]] e]])
          (auto intro: removal_release absent_between_mono [OF abs grows.refl t'])
      show "case r of None \<Rightarrow> runs_to log ?R (log w) w4 (remove_slot x rt s retry cm c ?i)
          | Some e \<Rightarrow> grows ?R (log w) (log w4)"
        using runs_to_grows [OF rem g4] g4 by (simp split: option.split)
    qed
  qed
  note quiet = keeps_release_quiet [OF assms(1)] keeps_release_mark [OF assms(1)]
  have mark: "runs_to log ?R (log w) w2 (rguardE (observePinnedReceipt x rt s build entry) (
      rguardE (markReceiptCleanupReady x rt s ?i entry cleanupTerminal) (ret Continue)))"
    if "grows ?R (log w) (log w2)" for w2 entry
    by (intro runs_to_rguardE quiet that) (auto simp: wp_ret)
  have settled: "runs_to log ?R (log w) w2 (do { e \<leftarrow> settled_release x rt s build nonce; ret (Return e) })"
    if "grows ?R (log w) (log w2)" for w2 nonce
    by (rule runs_to_keeps [where K = "{}", OF keeps_bind]) (auto intro: quiet keeps_ret that)
  show ?thesis
    unfolding releaseReceiptedBuild_def Let_def
    by (simp only: wp_if wp_ret grows.refl simp_thms, intro impI runs_to_for_retry [OF grows.refl]
        queue.runs_to_rtryE_load [OF assms(1)])
      (auto simp: wp_ret intro: round mark settled split: option.split)
qed

lemma runs_to_rejected:
  assumes "lawful_store log x rt s" and "direct_store log s" and "guarded s" and "Nonce entry = nonce"
    and g: "grows (release_event x s bk i l0) l0 (log w)"
  shows "runs_to log (release_event x s bk i l0) l0 w
    (guardE (deletePinnedReceipt x rt s entry) (releaseRejected x rt s i nonce))"
  unfolding wp_guardE
proof (rule runs_to_after_delete [OF assms(1,2) g], rule runs_to_grows)
  fix w'
  assume "absent_between (receipt_key s entry) l0 (log w')"
  then show "runs_to log (release_event x s bk i l0) (log w') w' (releaseRejected x rt s i nonce)"
    by (intro wp_mono [OF releaseRejected_after [OF assms(1,3,4)]] removal_release)
qed

lemma ReleaseRejectedReceipt_order:
  assumes "lawful_store log x rt s" and "direct_store log s"
  shows "runs_to log (release_event x s bk (Name (build_meta build)) (log w)) (log w) w
    (ReleaseRejectedReceipt x rt s build witness)"
proof -
  note quiet = keeps_release_quiet [OF assms(1)] keeps_release_mark [OF assms(1)]
  show ?thesis
    unfolding ReleaseRejectedReceipt_def Let_def
    by (simp only: wp_if wp_ret grows.refl simp_thms, intro impI runs_to_attemptE quiet grows.refl)
      (auto simp: wp_ret split: option.split
        intro!: runs_to_guardE [OF quiet(1)] runs_to_guardE [OF quiet(5)] runs_to_rejected [OF assms])
qed

lemma ResumeRejectedCleanup_order:
  assumes "lawful_store log x rt s" and "direct_store log s"
  shows "runs_to log (release_event x s bk ident (log w)) (log w) w (ResumeRejectedCleanup x rt s ident nonce)"
proof -
  note quiet = keeps_release_quiet [OF assms(1)]
  show ?thesis
    unfolding ResumeRejectedCleanup_def
    apply (simp only: wp_if wp_ret grows.refl simp_thms, intro impI runs_to_attemptE quiet grows.refl)
    apply (auto simp: wp_ret split: option.split)
    apply (subst wp_bind, rule wp_mono [OF runs_to_keeps [OF quiet(4), where K = "{}"]])
    apply (auto simp: wp_ret split: sum.split intro!: runs_to_rejected [OF assms])
    done
qed

end
