(* ===== verification/Queue_Reserve.thy ===== *)
theory Queue_Reserve
  imports Queue_Steps
begin

text \<open>What a caller of \<open>Reserve\<close> may conclude from its result.\<close>

definition proposed_intent :: "KovaBuild \<Rightarrow> Intent \<Rightarrow> bool" where
  "proposed_intent build i \<longleftrightarrow> RequesterHash i = HashRequester (Username (Requester (Spec build))) \<and>
     RequestDigest i = DigestBuild build \<and> ReceiptUID i = [] \<and> ReceiptDigest i = [] \<and> CleanupKind i = []"

definition reserve_commit ::
  "'x ext_scheme \<Rightarrow> 'w Store \<Rightarrow> string \<Rightarrow> Intent \<Rightarrow> event list \<Rightarrow> event list \<Rightarrow> bool" where
  "reserve_commit x s ident i l l' \<longleftrightarrow>
     (\<exists>c. queue_commit x s c (put_intent ident i c) l l' \<and>
        queue_step (guarded s) (LReserve ident i) c (put_intent ident i c))"

text \<open>
  The result against the log. A result that is not fresh reports an entry some version of the
  ledger held for the same request, and nothing was stored. A fresh one was stored by this call in
  one commit, or a version holds it after a write whose response was lost. An error leaves at most
  one commit of the proposal behind.
\<close>

definition reserve_post ::
  "'x ext_scheme \<Rightarrow> 'w Store \<Rightarrow> KovaBuild \<Rightarrow> event list \<Rightarrow> event list \<Rightarrow> goerr + Intent \<times> bool \<Rightarrow> bool" where
  "reserve_post x s build l l' r \<longleftrightarrow>
     (let ident = Name (build_meta build) in
      case r of
        Inr (i, fresh) \<Rightarrow>
          RequesterHash i = HashRequester (Username (Requester (Spec build))) \<and> RequestDigest i = DigestBuild build \<and>
          (if fresh then proposed_intent build i \<and> (reserve_commit x s ident i l l' \<or>
             grows (sent_to (store_key s)) l l' \<and> seen_intent x s ident (Some i) l')
           else grows (sent_to (store_key s)) l l' \<and> seen_intent x s ident (Some i) l')
      | Inl e \<Rightarrow> grows (sent_to (store_key s)) l l' \<or>
          (\<exists>i. proposed_intent build i \<and> reserve_commit x s ident i l l' \<and> \<not> IsConflict e))"

lemma reserve_commit_still: "reserve_commit x s ident i l m \<Longrightarrow> still m l' \<Longrightarrow> reserve_commit x s ident i l l'"
  unfolding reserve_commit_def by (blast intro: state_commit_still)

lemma reserve_commit_sent:
  "grows (sent_to (store_key s)) l m \<Longrightarrow> reserve_commit x s ident i m l' \<Longrightarrow> reserve_commit x s ident i l l'"
  unfolding reserve_commit_def by (blast intro: state_commit_sent)

lemma wp_reserve_write:
  assumes ok: "lawful_store log x rt s" and rd: "has_read (decode_data x s) (store_key s) dataKey (log w) cm c"
    and good: "good_state s (put_intent ident p c)"
    and step: "queue_step (guarded s) (LReserve ident p) c (put_intent ident p c)"
    and ident: "ident = Name (build_meta build)" and p: "proposed_intent build p"
    and l: "grows (sent_to (store_key s)) l (log w)"
  shows "wp (reserve_write x rt s retry ident p cm c) (\<lambda>r w'. case r of
      Continue \<Rightarrow> grows (sent_to (store_key s)) l (log w')
    | Return r \<Rightarrow> reserve_post x s build l (log w') r) w"
proof -
  let ?Q = "\<lambda>r w'. case r of Continue \<Rightarrow> grows (sent_to (store_key s)) l (log w')
    | Return r \<Rightarrow> reserve_post x s build l (log w') r"
  have wait: "wp (rguard (waitCAS rt retry) (ret Continue)) ?Q w'"
    if "grows (sent_to (store_key s)) l (log w')" for w'
    unfolding wp_rguard
    by (rule wp_mono [OF keepsD [OF quiet_runtime(2) [OF ok]]])
      (auto simp: wp_ret reserve_post_def intro: grows_trans [OF still_grows that] split: option.split)
  have look: "wp (do { observed \<leftarrow> Lookup x rt s ident;
          if observed = Inr (Some p) then ret (Return (Inr (p, True)))
          else if IsTooManyRequests err then ret (Return (Inl ErrBusy))
          else ret (Return (Inl err)) }) ?Q w'"
    if "\<not> IsConflict err" and "grows (sent_to (store_key s)) l (log w') \<or> reserve_commit x s ident p l (log w')" for w' err
    unfolding wp_bind
    by (rule wp_Lookup [OF ok])
      (use that p ident in \<open>auto simp: wp_ret reserve_post_def proposed_intent_def
        intro: grows_trans [OF still_grows] reserve_commit_still\<close>)
  have commit: "reserve_commit x s ident p l (log w')"
    if "queue_commit x s c (put_intent ident p c) (log w) (log w')" for w'
    using that step by (intro reserve_commit_sent [OF l]) (auto simp: reserve_commit_def)
  have fresh: "reserve_post x s build l (log w') (Inr (p, True))" if "reserve_commit x s ident p l (log w')" for w'
    using that p ident by (simp add: reserve_post_def proposed_intent_def)
  show ?thesis
    unfolding reserve_write_def wp_bind [of "write_ledger x s cm (put_intent ident p c)"]
  proof (rule queue.wp_write [OF ok rd good])
    fix w' e
    assume "grows (sent_to (store_key s)) (log w) (log w')"
    then have "grows (sent_to (store_key s)) l (log w')" by (rule grows_trans [OF _ l])
    then show "wp (case Some e of None \<Rightarrow> ret (Return (Inr (p, True)))
        | Some err \<Rightarrow> if IsConflict err then rguard (waitCAS rt retry) (ret Continue)
            else do { observed \<leftarrow> Lookup x rt s ident;
              if observed = Inr (Some p) then ret (Return (Inr (p, True)))
              else if IsTooManyRequests err then ret (Return (Inl ErrBusy))
              else ret (Return (Inl err)) }) ?Q w'"
      unfolding option.case wp_if using wait look by blast
  next
    fix w' r
    assume "queue_commit x s c (put_intent ident p c) (log w) (log w')" and r: "\<forall>e. r = Some e \<longrightarrow> \<not> IsConflict e"
    then have c: "reserve_commit x s ident p l (log w')" by (intro commit)
    show "wp (case r of None \<Rightarrow> ret (Return (Inr (p, True)))
        | Some err \<Rightarrow> if IsConflict err then rguard (waitCAS rt retry) (ret Continue)
            else do { observed \<leftarrow> Lookup x rt s ident;
              if observed = Inr (Some p) then ret (Return (Inr (p, True)))
              else if IsTooManyRequests err then ret (Return (Inl ErrBusy))
              else ret (Return (Inl err)) }) ?Q w'"
    proof (cases r)
      case None
      then show ?thesis using fresh [OF c] by (simp add: wp_ret)
    next
      case (Some e)
      with r have "\<not> IsConflict e" by simp
      then show ?thesis unfolding Some option.case wp_if using look c by blast
    qed
  qed
qed

lemma wp_reserve_round:
  assumes ok: "lawful_store log x rt s" and rd: "has_read (decode_data x s) (store_key s) dataKey (log w) cm c"
    and p: "proposed_intent build p" and now: "int64 (CreatedAtUnix p)"
    and l: "grows (sent_to (store_key s)) l (log w)"
  shows "wp (reserve_round x rt s retry (Name (build_meta build)) p cm c) (\<lambda>r w'. case r of
      Continue \<Rightarrow> grows (sent_to (store_key s)) l (log w')
    | Return r \<Rightarrow> reserve_post x s build l (log w') r) w"
proof -
  let ?ident = "Name (build_meta build)"
  have good: "good_state s c" using rd by (auto simp: has_read_carries intro: carries_good_state)
  have old: "reserve_post x s build l (log w) (Inr (e, False))"
    if "map_of (the_intents c) ?ident = Some e" "RequesterHash e = RequesterHash p" "RequestDigest e = RequestDigest p" for e
    using has_read_seen [OF rd, of ?ident] that l p by (simp add: reserve_post_def proposed_intent_def)
  have new: "wp (reserve_write x rt s retry ?ident p cm c) (\<lambda>r w'. case r of
        Continue \<Rightarrow> grows (sent_to (store_key s)) l (log w')
      | Return r \<Rightarrow> reserve_post x s build l (log w') r) w"
    if "map_of (the_intents c) ?ident = None" "int (length (the_intents c)) < StoreGlobalLimit s"
      "int (held_by (RequesterHash p) (the_intents c)) < StoreRequesterLimit s"
    by (rule wp_reserve_write [OF ok rd good_state_put [OF good now] queue_step.reserve HOL.refl p l])
      (use that good p in \<open>auto simp: good_state_def proposed_intent_def\<close>)
  show ?thesis
    unfolding reserve_round_def using old new l by (auto simp: wp_ret reserve_post_def split: option.split)
qed

lemma Reserve_post:
  assumes "lawful_store log x rt s"
  shows "wp (Reserve x rt s build) (\<lambda>r w'. reserve_post x s build (log w) (log w') r) w"
proof -
  note rt = quiet_runtime [OF assms]
  have now: "wp (Now rt) (\<lambda>t _. int64 t) w" for w
    using assms by (simp add: lawful_store_def lawful_runtime_def)
  have err: "reserve_post x s build l l' (Inl e)" if "grows (sent_to (store_key s)) l l'" for l l' e
    using that by (simp add: reserve_post_def)
  have loop: "wp (for_retry maxCASAttempts (\<lambda>retry. rguard (Ctx_Err rt) (rtry (read_ledger x rt s) (\<lambda>(cm, c).
        reserve_round x rt s retry (Name (build_meta build)) p cm c))) (ret (Inl ErrBusy)))
      (\<lambda>r w'. reserve_post x s build (log w) (log w') r) w1"
    if "still (log w) (log w1)" and p: "proposed_intent build p" "int64 (CreatedAtUnix p)" for p w1
  proof (rule wp_for_retry [where I = "\<lambda>w'. grows (sent_to (store_key s)) (log w) (log w')"])
    fix i w2
    assume g: "grows (sent_to (store_key s)) (log w) (log w2)"
    show "wp (rguard (Ctx_Err rt) (rtry (read_ledger x rt s) (\<lambda>(cm, c).
        reserve_round x rt s i (Name (build_meta build)) p cm c))) (\<lambda>r w'. case r of
          Continue \<Rightarrow> grows (sent_to (store_key s)) (log w) (log w')
        | Return r \<Rightarrow> reserve_post x s build (log w) (log w') r) w2"
      unfolding wp_rguard wp_rtry
      apply (rule wp_mono [OF runs_to_keeps [OF quiet_keeps [OF rt(1), where K = "{}"] _ g]], simp)
      apply (auto split: option.split intro!: err queue.wp_read [OF assms])
       apply (blast intro: grows_trans [OF still_grows] err)
      apply (rule wp_reserve_round [OF assms _ p], assumption)
      apply (blast intro: grows_trans [OF still_grows])
      done
  qed (use that in \<open>auto simp: wp_ret err intro: still_grows\<close>)
  show ?thesis
    unfolding Reserve_def wp_attempt wp_bind Let_def
    apply (rule wp_mono [OF keepsD [OF rt(4)]], simp, split sum.split, intro conjI allI impI)
     apply (rule err, erule still_grows)
    apply (rule wp_mono [OF wp_conj [OF keepsD [OF rt(3)] now]], simp)
    apply (rule loop)
      apply (auto simp: proposed_intent_def intro: grows_trans)
    done
qed

end
