(* ===== verification/Queue_Invariants.thy ===== *)
theory Queue_Invariants
  imports Queue_Protocol
begin

text \<open>
  Invariants of the abstract queue protocol: the quotas, the identity of an entry over its life, and
  the cycle reserve, pin, mark, release that every slot of a guarded ledger goes through.
\<close>

inductive_cases queue_stepE: "queue_step g l c c'"

section \<open>Quotas\<close>

definition quota_ok :: "queue_state \<Rightarrow> bool" where
  "quota_ok c \<longleftrightarrow> go_map (the_intents c) \<and> int (length (the_intents c)) \<le> GlobalLimit c \<and>
     (\<forall>r. int (held_by r (the_intents c)) \<le> RequesterLimit c)"

lemma limits_simps [simp]:
  "GlobalLimit (put_intent i e c) = GlobalLimit c" "RequesterLimit (put_intent i e c) = RequesterLimit c"
  "GlobalLimit (del_intent i c) = GlobalLimit c" "RequesterLimit (del_intent i c) = RequesterLimit c"
  by (simp_all add: put_intent_def del_intent_def)

lemma filter_mput_same:
  assumes "go_map m" and "map_of m k = Some old" and "P (k, v) = P (k, old)"
  shows "length (filter P (mput k v m)) = length (filter P m)"
  using assms
proof (induction k v m rule: mput.induct)
  case (2 k v k' v' m)
  from "2.prems"(1) have less: "\<forall>e \<in> set m. k' < fst e" and "go_map m" by (auto simp: go_map_Cons)
  have "k < k' \<Longrightarrow> map_of ((k', v') # m) k = None"
    using less by (auto simp: map_of_eq_None_iff)
  with 2 \<open>go_map m\<close> show ?case by (auto split: if_splits)
qed simp

lemma held_by_filter: "held_by r es = length (filter (\<lambda>e. RequesterHash (snd e) = r) es)"
  by (simp add: held_by_def case_prod_beta')

lemma step_limits: "queue_step g l c c' \<Longrightarrow> GlobalLimit c' = GlobalLimit c \<and> RequesterLimit c' = RequesterLimit c"
  by (elim queue_stepE) auto

lemma step_quota: "queue_step g l c c' \<Longrightarrow> quota_ok c \<Longrightarrow> quota_ok c'"
proof (induction rule: queue_step.induct)
  case (reserve c i e)
  then have m: "go_map (the_intents c)" by (simp add: quota_ok_def)
  have "length (mput i e (the_intents c)) = length (the_intents c) + 1"
    using filter_mput_length [OF m reserve(1), of "\<lambda>_. True" e] by simp
  moreover have "held_by r (mput i e (the_intents c)) = held_by r (the_intents c) + (if RequesterHash e = r then 1 else 0)" for r
    using filter_mput_length [OF m reserve(1), of "\<lambda>e. RequesterHash (snd e) = r" e] by (simp add: held_by_filter)
  ultimately show ?case
    using reserve by (auto simp: quota_ok_def gomap_simps)
next
  case (release c i e)
  have "length (mdel i (the_intents c)) \<le> length (the_intents c)"
    using filter_mdel_length_le [of "\<lambda>_. True" i "the_intents c"] by simp
  moreover have "held_by r (mdel i (the_intents c)) \<le> held_by r (the_intents c)" for r
    using filter_mdel_length_le by (simp add: held_by_filter)
  ultimately show ?case
    using release by (simp add: quota_ok_def gomap_simps) (meson of_nat_le_iff order_trans)
qed (auto simp: quota_ok_def gomap_simps held_by_filter filter_mput_same [where P = "\<lambda>_. True", simplified] filter_mput_same)

section \<open>Entries\<close>

definition same_identity :: "Intent \<Rightarrow> Intent \<Rightarrow> bool" where
  "same_identity a b \<longleftrightarrow> Nonce a = Nonce b \<and> RequesterHash a = RequesterHash b \<and>
     RequestDigest a = RequestDigest b \<and> CreatedAtUnix a = CreatedAtUnix b \<and>
     (ReceiptUID a \<noteq> [] \<longrightarrow> ReceiptUID b = ReceiptUID a \<and> ReceiptDigest b = ReceiptDigest a) \<and>
     (CleanupKind a \<noteq> [] \<longrightarrow> CleanupKind b = CleanupKind a)"

lemma step_identity:
  assumes "queue_step g l c c'" and "go_map (the_intents c)"
    and "map_of (the_intents c) i = Some a" and "map_of (the_intents c') i = Some b"
  shows "same_identity a b"
  using assms by (elim queue_stepE) (auto simp: gomap_simps same_identity_def split: if_splits)

section \<open>The cycle of a slot\<close>

fun label_id :: "queue_label \<Rightarrow> string" where
  "label_id (LReserve i e) = i"
| "label_id (LPin i) = i"
| "label_id (LMark i k) = i"
| "label_id (LRelease i) = i"

fun label_kind :: "queue_label \<Rightarrow> nat" where
  "label_kind (LReserve i e) = 0"
| "label_kind (LPin i) = 1"
| "label_kind (LMark i k) = 2"
| "label_kind (LRelease i) = 3"

definition stage :: "queue_state \<Rightarrow> string \<Rightarrow> nat" where
  "stage c i = (case map_of (the_intents c) i of
     None \<Rightarrow> 0
   | Some e \<Rightarrow> if CleanupKind e \<noteq> [] then 3 else if ReceiptUID e \<noteq> [] then 2 else 1)"

inductive queue_run :: "bool \<Rightarrow> queue_label list \<Rightarrow> queue_state \<Rightarrow> queue_state \<Rightarrow> bool" for g where
  start: "queue_run g [] c c"
| step: "queue_run g ls c d \<Longrightarrow> queue_step g l d e \<Longrightarrow> queue_run g (ls @ [l]) c e"

lemma run_quota: "queue_run g ls c c' \<Longrightarrow> quota_ok c \<Longrightarrow> quota_ok c'"
  by (induction rule: queue_run.induct) (auto intro: step_quota)

lemma run_limits: "queue_run g ls c c' \<Longrightarrow> GlobalLimit c' = GlobalLimit c \<and> RequesterLimit c' = RequesterLimit c"
  by (induction rule: queue_run.induct) (auto dest: step_limits)

lemma step_stage:
  assumes "queue_step True l c c'" and "go_map (the_intents c)"
  shows "stage c' i = (if label_id l = i then (stage c i + 1) mod 4 else stage c i)"
    and "label_id l = i \<Longrightarrow> label_kind l = stage c i"
  using assms by (auto elim!: queue_stepE simp: gomap_simps stage_def)

lemma run_cycle:
  assumes "queue_run True ls c c'" and "quota_ok c" and "stage c i = 0"
  shows "map label_kind (filter (\<lambda>l. label_id l = i) ls) =
      map (\<lambda>k. k mod 4) [0 ..< length (filter (\<lambda>l. label_id l = i) ls)] \<and>
    stage c' i = length (filter (\<lambda>l. label_id l = i) ls) mod 4"
  using assms
proof (induction rule: queue_run.induct)
  case (step ls c d l e)
  have "go_map (the_intents d)" using run_quota [OF step.hyps(1) step.prems(1)] by (simp add: quota_ok_def)
  then show ?case
    using step step_stage [OF step.hyps(2), of i] by (auto simp: mod_Suc_eq)
qed simp

section \<open>Logs\<close>

text \<open>
  A change of the ledger that follows the protocol, and a log in which every change does: the changes
  of other processes (\<open>Env\<close>) as well as the own ones.
\<close>

definition ledger_change :: "'x ext_scheme \<Rightarrow> 'w Store \<Rightarrow> obj option \<Rightarrow> obj option \<Rightarrow> bool" where
  "ledger_change x s old new \<longleftrightarrow> (\<exists>b c'. new = Some b \<and> ledger_state (decode_data x s) dataKey b = Some c' \<and>
     (case old of
        None \<Rightarrow> the_intents c' = []
      | Some a \<Rightarrow> (\<exists>c l. ledger_state (decode_data x s) dataKey a = Some c \<and> queue_step (guarded s) l c c')))"

definition env_follows :: "'x ext_scheme \<Rightarrow> 'w Store \<Rightarrow> event list \<Rightarrow> bool" where
  "env_follows x s l \<longleftrightarrow>
     (\<forall>p e q. l = p @ e # q \<longrightarrow> (\<forall>v. e = Env (store_key s) v \<longrightarrow> ledger_change x s (current p (store_key s)) v))"

definition own_follows :: "'x ext_scheme \<Rightarrow> 'w Store \<Rightarrow> event list \<Rightarrow> bool" where
  "own_follows x s l \<longleftrightarrow>
     (\<forall>p e q. l = p @ e # q \<longrightarrow> (\<forall>v. e = Own (store_key s) v \<longrightarrow> ledger_change x s (current p (store_key s)) v))"

lemma follows_snoc:
  "env_follows x s (l @ [e]) \<longleftrightarrow> env_follows x s l \<and>
     (\<forall>v. e = Env (store_key s) v \<longrightarrow> ledger_change x s (current l (store_key s)) v)"
  "own_follows x s (l @ [e]) \<longleftrightarrow> own_follows x s l \<and>
     (\<forall>v. e = Own (store_key s) v \<longrightarrow> ledger_change x s (current l (store_key s)) v)"
  unfolding env_follows_def own_follows_def
  by (rule snoc_positions)+

lemma decoded_quota:
  assumes "ledger_state (decode_data x s) dataKey b = Some c"
  shows "go_map (the_intents c) \<and> GlobalLimit c = StoreGlobalLimit s \<and> RequesterLimit c = StoreRequesterLimit s \<and>
    0 < StoreGlobalLimit s \<and> 0 < StoreRequesterLimit s"
proof -
  obtain raw where "decode_data x s raw = Inr c"
    using assms by (auto simp: ledger_state_def split: obj.splits sum.splits)
  note d = decode_data_Inr(2,3) [OF this]
  from d(1) have "validateLimits (GlobalLimit c) (RequesterLimit c) = None"
    by (auto simp: validateState_def split: option.splits if_splits)
  with d(2) show ?thesis by (auto simp: good_state_def validateLimits_def split: if_splits)
qed

lemma follows_quota:
  assumes "env_follows x s l" and "own_follows x s l" and "current l (store_key s) = Some v"
  shows "\<exists>c. ledger_state (decode_data x s) dataKey v = Some c \<and> quota_ok c"
  using assms
proof (induction l arbitrary: v rule: rev_induct)
  case (snoc e l)
  have change: "\<exists>c. ledger_state (decode_data x s) dataKey b = Some c \<and> quota_ok c"
    if "ledger_change x s (current l (store_key s)) (Some b)" for b
  proof (cases "current l (store_key s)")
    case None
    then show ?thesis using that decoded_quota
      by (fastforce simp: ledger_change_def quota_ok_def held_by_def)
  next
    case (Some a)
    then show ?thesis
      using that snoc.IH [OF _ _ Some] snoc.prems(1,2) step_quota by (fastforce simp: ledger_change_def follows_snoc)
  qed
  show ?case
    using snoc change by (cases e) (auto simp: follows_snoc split: if_splits)
qed simp

text \<open>An operation that keeps to the protocol extends such a log to such a log.\<close>

lemma grows_follows:
  assumes "grows R l m" and "own_follows x s l"
    and "\<And>h v. R h (Own (store_key s) v) \<Longrightarrow> ledger_change x s (current h (store_key s)) v"
  shows "own_follows x s m"
  using assms by (induction rule: grows.induct) (auto simp: follows_snoc)

lemma queue_event_change: "queue_event x s L h (Own (store_key s) v) \<Longrightarrow> ledger_change x s (current h (store_key s)) v"
  unfolding queue_event_def ledger_event_def ledger_change_def by (auto simp: sent_to_def)

end
