(* ===== verification/Sample_Server.thy ===== *)
theory Sample_Server
  imports Ledger_Cas
begin

text \<open>
  A small API server on which the hypotheses about the cluster hold: its world is the log itself,
  every read is direct and every request is carried out at once or refused. The witnesses run the
  program's operations against it.
\<close>

type_synonym sample = "event list"

definition sample_get :: "kind \<Rightarrow> (obj \<Rightarrow> 'a option) \<Rightarrow> ('a \<Rightarrow> objmeta) \<Rightarrow> string \<Rightarrow> string \<Rightarrow> (sample, goerr + 'a) op" where
  "sample_get k sel meta ns n = State (\<lambda>l. (case current l (k, ns, n) of
     None \<Rightarrow> Inl (ErrApi NotFound)
   | Some v \<Rightarrow> (case sel v of
       None \<Rightarrow> Inl (ErrApi OtherReason)
     | Some a \<Rightarrow> if Namespace (meta a) = ns \<and> Name (meta a) = n \<and> ValidString (ResourceVersion (meta a))
               then Inr a else Inl (ErrApi OtherReason)), l))"

fun sel_cm :: "obj \<Rightarrow> configmap option" where
  "sel_cm (OConfigMap cm) = Some cm"
| "sel_cm _ = None"

fun sel_build :: "obj \<Rightarrow> KovaBuild option" where
  "sel_build (OBuild b) = Some b"
| "sel_build _ = None"

fun sel_pod :: "obj \<Rightarrow> pod option" where
  "sel_pod (OPod p) = Some p"
| "sel_pod _ = None"

definition sample_fail :: "request \<Rightarrow> 'a \<Rightarrow> (sample, 'a) op" where
  "sample_fail q r = State (\<lambda>l. (r, l @ [Sent q]))"

definition sample_versions :: "sample \<Rightarrow> okey \<Rightarrow> obj list" where
  "sample_versions l k = concat (map (\<lambda>e. case e of Env k' (Some v) \<Rightarrow> if k' = k then [v] else []
     | Own k' (Some v) \<Rightarrow> if k' = k then [v] else [] | _ \<Rightarrow> []) l)"

definition sample_version :: "sample \<Rightarrow> string" where
  "sample_version l = dec (length l)"

definition sample_update :: "configmap \<Rightarrow> (sample, goerr option) op" where
  "sample_update cm = State (\<lambda>l.
     let k = cm_key cm; l' = l @ [Sent (ReqUpdate k (OConfigMap cm))] in
     case current l k of
       Some (OConfigMap old) \<Rightarrow>
         if same_version old cm \<and>
            list_all (\<lambda>v. case v of OConfigMap a \<Rightarrow> same_version a cm \<longrightarrow> a = old | _ \<Rightarrow> True) (sample_versions l k)
         then (None, l' @ [Own k (Some (OConfigMap
                (cm\<lparr>cm_meta := (cm_meta cm)\<lparr>ResourceVersion := sample_version l\<rparr>\<rparr>)))])
         else (Some (ErrApi Conflict), l')
     | _ \<Rightarrow> (Some (ErrApi NotFound), l'))"

definition sample_create :: "configmap \<Rightarrow> (sample, goerr option) op" where
  "sample_create cm = State (\<lambda>l.
     let k = cm_key cm; l' = l @ [Sent (ReqCreate k (OConfigMap cm))] in
     case current l k of
       None \<Rightarrow> (None, l' @ [Own k (Some (OConfigMap (cm\<lparr>cm_meta := (cm_meta cm)\<lparr>UID := ''uid'' @ sample_version l,
         ResourceVersion := sample_version l\<rparr>\<rparr>)))])
     | Some _ \<Rightarrow> (Some (ErrApi AlreadyExists), l'))"

definition sample_delete :: "string \<Rightarrow> string \<Rightarrow> string option \<Rightarrow> (sample, goerr option) op" where
  "sample_delete ns n u = State (\<lambda>l.
     let k = (KConfigMap, ns, n); l' = l @ [Sent (ReqDelete k u)] in
     case current l k of
       Some (OConfigMap old) \<Rightarrow>
         if u = None \<or> u = Some (UID (cm_meta old)) then (None, l' @ [Own k None]) else (Some (ErrApi Conflict), l')
     | _ \<Rightarrow> (Some (ErrApi NotFound), l'))"

definition sample_update_build :: "KovaBuild \<Rightarrow> (sample, goerr + KovaBuild) op" where
  "sample_update_build b = State (\<lambda>l.
     let k = build_key b; l' = l @ [Sent (ReqUpdate k (OBuild b))] in
     case current l k of
       Some (OBuild old) \<Rightarrow>
         if UID (build_meta old) = UID (build_meta b) \<and> ResourceVersion (build_meta old) = ResourceVersion (build_meta b)
         then let new = b\<lparr>build_meta := (build_meta b)\<lparr>ResourceVersion := sample_version l\<rparr>, Status := Status old\<rparr> in
           (Inr new, l' @ [Own k (Some (OBuild new))])
         else (Inl (ErrApi Conflict), l')
     | _ \<Rightarrow> (Inl (ErrApi NotFound), l'))"

definition sample_client :: "sample client" where
  "sample_client = \<lparr>Get_cm = sample_get KConfigMap sel_cm cm_meta, Get_build = sample_get KBuild sel_build build_meta,
     Get_pod = sample_get KPod sel_pod pod_meta, List_builds = (\<lambda>_ _. ret (Inr [])), List_pods = (\<lambda>_ _. ret (Inr [])),
     Create_cm = sample_create, Update_cm = sample_update, Delete_cm = sample_delete,
     Update_build = sample_update_build, Update_status = (\<lambda>_. ret (Inl (ErrApi Forbidden))),
     Create_pod = (\<lambda>_. ret (Inl (ErrApi Forbidden))), Delete_pod = (\<lambda>_ _ _. ret (Some (ErrApi Forbidden)))\<rparr>"

definition sample_runtime :: "sample runtime" where
  "sample_runtime = \<lparr>Ctx_Err = ret None, Sleep = (\<lambda>_. ret None), Now = ret 1700000000, Rand16 = ret (Inr (replicate 16 CHR ''k''))\<rparr>"

section \<open>The laws\<close>

lemma wp_State: "wp (State f) Q w \<longleftrightarrow> (case f w of (r, w') \<Rightarrow> Q r w')"
  by (simp add: wp_def)

lemma calm_sample_get: "calm id (sample_get k sel meta ns n)"
  by (auto simp: calm_def sample_get_def wp_State grows.refl split: option.split)

lemma sample_get_current:
  "wp (sample_get k sel meta ns n) (\<lambda>r w'. \<forall>a. r = Inr a \<longrightarrow> Namespace (meta a) = ns \<and> Name (meta a) = n \<and>
     ValidString (ResourceVersion (meta a)) \<and> (\<exists>v. current w' (k, ns, n) = Some v \<and> sel v = Some a)) w"
  by (auto simp: sample_get_def wp_State split: option.splits)

lemma sample_get_absent:
  "wp (sample_get k sel meta ns n) (\<lambda>r w'. \<forall>e. r = Inl e \<and> IsNotFound e \<longrightarrow> current w' (k, ns, n) = None) w"
  by (auto simp: sample_get_def wp_State split: option.splits)

lemma sel_simps: "sel_cm v = Some cm \<longleftrightarrow> v = OConfigMap cm" "sel_build v = Some b \<longleftrightarrow> v = OBuild b"
  by (cases v; auto)+

lemma sample_direct: "direct_reader id sample_client"
proof -
  have cm: "wp (sample_get KConfigMap sel_cm cm_meta ns n) (\<lambda>r w'. \<forall>cm. r = Inr cm \<longrightarrow>
      Namespace (cm_meta cm) = ns \<and> Name (cm_meta cm) = n \<and> ValidString (ResourceVersion (cm_meta cm)) \<and>
      current (id w') (KConfigMap, ns, n) = Some (OConfigMap cm)) w" for ns n w
    by (rule wp_mono [OF sample_get_current]) (auto simp: sel_simps)
  have build: "wp (sample_get KBuild sel_build build_meta ns n) (\<lambda>r w'. \<forall>b. r = Inr b \<longrightarrow>
      Namespace (build_meta b) = ns \<and> Name (build_meta b) = n \<and> stored (id w') (KBuild, ns, n) (OBuild b)) w" for ns n w
    by (rule wp_mono [OF sample_get_current]) (auto simp: sel_simps intro: current_stored)
  have stored: "wp (sample_get KConfigMap sel_cm cm_meta ns n) (\<lambda>r w'. \<forall>cm. r = Inr cm \<longrightarrow>
      Namespace (cm_meta cm) = ns \<and> Name (cm_meta cm) = n \<and> ValidString (ResourceVersion (cm_meta cm)) \<and>
      stored (id w') (KConfigMap, ns, n) (OConfigMap cm)) w" for ns n w
    by (rule wp_mono [OF cm]) (auto intro: current_stored)
  have both: "wp (sample_get KConfigMap sel_cm cm_meta ns n) (\<lambda>r w'.
      (\<forall>cm. r = Inr cm \<longrightarrow> current (id w') (KConfigMap, ns, n) = Some (OConfigMap cm)) \<and>
      (\<forall>e. r = Inl e \<and> IsNotFound e \<longrightarrow> current (id w') (KConfigMap, ns, n) = None)) w" for ns n w
    by (rule wp_mono [OF wp_conj [OF cm sample_get_absent]]) auto
  show ?thesis
    unfolding direct_reader_def lawful_reader_def
    using build stored both by (auto simp: sample_client_def intro!: calm_sample_get calm_ret)
qed

text \<open>A request that is refused, or carried out at once.\<close>

lemma requests_atonce:
  assumes "\<And>l. (\<exists>r. f l = (r, l @ [Sent q]) \<and> fails r) \<or>
      (\<exists>r e. f l = (r, l @ [Sent q, e]) \<and> is_own e \<and> commits (l @ [Sent q]) e r)"
  shows "requests id q fails commits (State f)"
  unfolding requests_def wp_State
proof
  fix w :: sample
  from assms [of w] show "case f w of (r, w') \<Rightarrow> \<exists>l n. still (id w) l \<and> still (l @ [Sent q]) n \<and>
      (id w' = n \<and> fails r \<or> (\<exists>e. is_own e \<and> id w' = n @ [e] \<and> commits n e r))"
    by (fastforce intro: grows.refl)
qed

lemma stored_versions: "stored l k v \<longleftrightarrow> v \<in> set (sample_versions l k)"
proof (induction l)
  case (Cons e l)
  then show ?case
    by (cases e) (auto simp: stored_def sample_versions_def split: option.splits if_splits)
qed (simp add: stored_def sample_versions_def)

lemma stored_Sent [simp]: "stored (l @ [Sent q]) k v \<longleftrightarrow> stored l k v"
  by (simp add: stored_def)

lemma sample_update_law:
  "requests id (ReqUpdate (cm_key cm) (OConfigMap cm)) (\<lambda>r. r \<noteq> None) (update_commits cm) (sample_update cm)"
  unfolding sample_update_def
  by (rule requests_atonce)
    (auto simp: Let_def update_commits_def stored_as_def stored_versions [symmetric] list_all_iff split: option.splits obj.splits)

lemma sample_create_law:
  "requests id (ReqCreate (cm_key cm) (OConfigMap cm)) (\<lambda>r. r \<noteq> None) (create_commits cm) (sample_create cm)"
  unfolding sample_create_def
  by (rule requests_atonce) (auto simp: Let_def create_commits_def created_as_def cm_key_def split: option.splits)

lemma sample_delete_law:
  "requests id (ReqDelete (KConfigMap, ns, n) u) (\<lambda>r. r \<noteq> None) (delete_commits (KConfigMap, ns, n) u) (sample_delete ns n u)"
  unfolding sample_delete_def
  by (rule requests_atonce) (auto simp: Let_def delete_commits_def split: option.splits obj.splits)

lemma sample_update_build_law:
  "requests id (ReqUpdate (build_key b) (OBuild b)) is_err (update_build_commits b) (sample_update_build b)"
  unfolding sample_update_build_def
  by (rule requests_atonce)
    (auto simp: Let_def update_build_commits_def is_err_def split: option.splits obj.splits)

lemma sample_lawful: "lawful_client id sample_client"
  using sample_direct sample_update_law sample_create_law sample_delete_law sample_update_build_law
  unfolding lawful_client_def direct_reader_def by (simp add: sample_client_def)

lemma sample_runtime_lawful: "lawful_runtime id sample_runtime"
  by (auto simp: lawful_runtime_def sample_runtime_def wp_ret int64_def intro: calm_ret calmE_ret keeps_ret)

section \<open>The direct API\<close>

fun patch_of :: "json \<Rightarrow> patchOp option" where
  "patch_of (JObj [(_, JStr p), (_, JStr q), (_, JStr v)]) = Some \<lparr>Op = p, Path = q, Value = PStr v\<rparr>"
| "patch_of (JObj [(_, JStr p), (_, JStr q), (_, JBool v)]) = Some \<lparr>Op = p, Path = q, Value = PBool v\<rparr>"
| "patch_of _ = None"

definition patches_of :: "string \<Rightarrow> patchOp list option" where
  "patches_of body = (case parse_json body of
     Some (JArr js) \<Rightarrow> those (map patch_of js)
   | _ \<Rightarrow> None)"

lemma patches_of_print: "wf_json (marshal_patch ops) \<Longrightarrow> patches_of (print_json (marshal_patch ops)) = Some ops"
proof -
  have one: "patch_of (JObj [(''op'', JStr (Op p)), (''path'', JStr (Path p)), (''value'', marshal_value (Value p))]) = Some p" for p
    by (cases "Value p") auto
  have "those (map (\<lambda>p. patch_of (JObj [(''op'', JStr (Op p)), (''path'', JStr (Path p)),
      (''value'', marshal_value (Value p))])) ops) = Some ops"
    by (induction ops) (auto simp: one)
  then show "wf_json (marshal_patch ops) \<Longrightarrow> ?thesis"
    by (simp add: patches_of_def parse_print_json) (simp add: marshal_patch_def comp_def)
qed

definition sample_patch :: "string \<Rightarrow> string \<Rightarrow> string \<Rightarrow> (sample, goerr + configmap) op" where
  "sample_patch ns n body = State (\<lambda>l.
     let k = (KConfigMap, ns, n); l' = l @ [Sent (ReqPatch k body)] in
     case (current l k, patches_of body) of
       (Some (OConfigMap old), Some ops) \<Rightarrow> (case apply_ops ops old of
           Some mid \<Rightarrow> let new = mid\<lparr>cm_meta := (cm_meta mid)\<lparr>ResourceVersion := sample_version l\<rparr>\<rparr> in
             (Inr new, l' @ [Own k (Some (OConfigMap new))])
         | None \<Rightarrow> (Inl (ErrApi Unprocessable), l'))
     | _ \<Rightarrow> (Inl (ErrApi NotFound), l'))"

definition sample_core :: "sample core_api" where
  "sample_core = \<lparr>GetNamespace = (\<lambda>n. ret (Inr \<lparr>ns_meta = empty_meta\<lparr>Name := n, UID := ''uid-'' @ n\<rparr>, NsPhase = ''Active''\<rparr>)),
     GetConfigMap = sample_get KConfigMap sel_cm cm_meta,
     CreateConfigMap = (\<lambda>ns cm. ret (None, Some (ErrApi Forbidden))), PatchConfigMap = sample_patch\<rparr>"

lemma sample_patch_law:
  assumes "wf_json (marshal_patch ops)"
  shows "requests id (ReqPatch (KConfigMap, ns, n) (print_json (marshal_patch ops))) is_err
    (patch_commits (KConfigMap, ns, n) ops) (sample_patch ns n (print_json (marshal_patch ops)))"
  unfolding sample_patch_def
  by (rule requests_atonce)
    (auto simp: Let_def patches_of_print [OF assms] patch_commits_def stored_as_def is_err_def
      split: option.splits obj.splits)

lemma sample_core_lawful: "lawful_core id sample_core"
proof -
  have cm: "wp (sample_get KConfigMap sel_cm cm_meta ns n) (\<lambda>r w'. \<forall>cm. r = Inr cm \<longrightarrow>
      Namespace (cm_meta cm) = ns \<and> Name (cm_meta cm) = n \<and> ValidString (ResourceVersion (cm_meta cm)) \<and>
      current (id w') (KConfigMap, ns, n) = Some (OConfigMap cm)) w" for ns n w
    by (rule wp_mono [OF sample_get_current]) (auto simp: sel_simps)
  show ?thesis
    unfolding lawful_core_def
    using cm sample_patch_law by (auto simp: sample_core_def intro!: calm_ret calm_sample_get)
qed

section \<open>A guarded installation\<close>

definition sample_receipt :: Receipt where
  "sample_receipt = \<lparr>ReceiptTarget = ''builds'', GenesisName = ''genesis'', GenesisUID = ''uid-genesis'',
     ReceiptContract = \<lparr>ContractVersion = 1, NamespaceUID = ''uid-builds'', ReceiptNamespace = ''receipts'',
       ReceiptNamespaceUID = ''uid-receipts'', WorkerPoolID = ''pool'', RunnerImage = ''runner'',
       ContractGeneration = ''generation'', ActiveLedgerName = ''active'', ActiveLedgerSchema = 5,
       QueueLedgerName = ''queue'', QueueLedgerSchema = 2,
       ContractLimits = \<lparr>MaxActiveJobs = 4, MaxActiveJobsPerRequester = 2, WorkerSlots = 8, MaxQueuedJobs = 10,
         MaxQueuedJobsPerRequester = 2\<rparr>\<rparr>\<rparr>"

definition sample_guard :: "sample Guard" where
  "sample_guard = \<lparr>GuardId = 0, Bootstrap = \<lparr>API = Some sample_core, BReceipt = sample_receipt,
       ActiveTemplate = \<lparr>TemplateRole = Active, DataKey = ''reservations.json'', EmptyData = ''{}'', Validate = None\<rparr>,
       QueueTemplate = \<lparr>TemplateRole = Queue, DataKey = ''queue.json'', EmptyData = ''{}'', Validate = None\<rparr>,
       Preflight = None, BeforeEffect = None\<rparr>,
     Original = \<lparr>BoundNamespaceUID = ''uid-builds'', BoundGenesisUID = ''uid-genesis'',
       BoundActiveLedgerUID = ''uid-active'', BoundQueueLedgerUID = ''uid-queue''\<rparr>, ReceiptCheck = None\<rparr>"

lemma sample_guard_lawful: "lawful_guard id sample_guard"
  using sample_core_lawful by (auto simp: lawful_guard_def lawful_bootstrap_def sample_guard_def)

end
