(* ===== verification/Queue_Sample.thy ===== *)
theory Queue_Sample
  imports Queue_Release Sample_Server
begin

text \<open>
  Queue stores on the sample server, and a complete run of \<open>Reserve\<close> there: the hypotheses of the
  theorems about the queue ledger hold together, and a reservation succeeds.
\<close>

section \<open>Sample stores\<close>

definition sample_store :: "sample Guard option \<Rightarrow> sample Store" where
  "sample_store g = \<lparr>Client = Some sample_client, Reader = Some (reader.truncate sample_client), Genesis = g,
     StoreNamespace = ''builds'', StoreGlobalLimit = 10, StoreRequesterLimit = 2\<rparr>"

lemma truncate_direct: "direct_reader log c \<Longrightarrow> direct_reader log (reader.truncate c)"
  by (simp add: direct_reader_def lawful_reader_def reader.truncate_def)

lemma sample_store_lawful: "g = None \<or> g = Some sample_guard \<Longrightarrow> lawful_store id rfc1123 sample_runtime (sample_store g)"
  using sample_lawful sample_runtime_lawful sample_guard_lawful dns_names_rfc1123
  by (auto simp: lawful_store_def sample_store_def lawful_client_def intro: lawful_reader_truncate)
    (simp add: sample_guard_def)

lemma sample_store_direct: "direct_store id (sample_store g)"
  by (simp add: direct_store_def reader_def sample_store_def truncate_direct [OF sample_direct])

definition sample_build :: KovaBuild where
  "sample_build = \<lparr>build_meta = empty_meta\<lparr>Namespace := ''builds'', Name := ''build-1'', UID := ''uid-1''\<rparr>,
     Spec = \<lparr>Requester = \<lparr>Username = ''ada'', RequesterUID = []\<rparr>,
       Targets = [\<lparr>Target = ''img'', Platform = ''linux/amd64''\<rparr>],
       Source = \<lparr>URI = ''s3://bundle'', SourceDigest = ''sha256:00''\<rparr>,
       Build = \<lparr>Format = [], Concurrency = 1, Timeout = 60, OOMCooldown = [], FailFast = False, Verbose = False, Vars = []\<rparr>,
       IdempotencyKey = []\<rparr>,
     Status = \<lparr>Phase = PhaseQueued, ObservedGeneration = 0, AllocatedConcurrency = 0, RunnerPodName = [],
       GenesisWitness = None, GenesisStopIntent = None, Reason = [], Message = [], StartedAt = None, FinishedAt = None,
       PollFailureSince = None, PollFailureCount = 0, VerificationStartedAt = None, VerificationDeadlineAt = None,
       VerificationNextAttemptAt = None, VerificationAttempts = 0, VerificationLastError = [], Conditions = []\<rparr>\<rparr>"

section \<open>A run of Reserve\<close>

lemma run_bind: "run_state m w = (r, w1) \<Longrightarrow> run_state (State_Monad.bind m f) w = run_state (f r) w1"
  by simp

definition sample_raw :: "queue_state \<Rightarrow> string" where
  "sample_raw c = print_json (marshal_state c)"

definition sample_ledger :: configmap where
  "sample_ledger = \<lparr>cm_meta = empty_meta\<lparr>Name := ConfigMapName, Namespace := ''builds'', UID := ''uid-queue'',
     ResourceVersion := ''1''\<rparr>, Immutable = None, Data = [(dataKey, sample_raw (freshState (sample_store None)))], BinaryData = []\<rparr>"

definition sample_log :: sample where
  "sample_log = [Env (KConfigMap, ''builds'', ConfigMapName) (Some (OConfigMap sample_ledger))]"

definition sample_nonce :: string where
  "sample_nonce = hex_encode (replicate 16 CHR ''k'')"

definition sample_proposed :: Intent where
  "sample_proposed = \<lparr>RequesterHash = HashRequester ''ada'', RequestDigest = DigestBuild sample_build,
     Nonce = sample_nonce, CreatedAtUnix = 1700000000, ReceiptUID = [], ReceiptDigest = [], CleanupKind = []\<rparr>"

definition sample_next :: queue_state where
  "sample_next = put_intent ''build-1'' sample_proposed (freshState (sample_store None))"

lemma hex_encode_hex: "validLowerHex (hex_encode s) (2 * length s)"
proof -
  have "code c div 16 < 16" for c :: char
    using nat_of_char_less_256 [of c] by (simp add: less_mult_imp_div_less)
  then show ?thesis
    by (induction s) (auto simp: hex_encode_def validLowerHex_def is_lower_hex_hex_digit)
qed

lemma sample_nonce_hex: "validLowerHex sample_nonce 32"
  using hex_encode_hex [of "replicate 16 CHR ''k''"] by (simp add: sample_nonce_def)

lemma sample_next_valid: "validateState rfc1123 (freshState (sample_store None)) = None" "validateState rfc1123 sample_next = None"
proof -
  show "validateState rfc1123 (freshState (sample_store None)) = None"
    by (simp add: validateState_def freshState_def sample_store_def validateLimits_def)
  have "valid_entry rfc1123 1 (''build-1'', sample_proposed)"
    using sample_nonce_hex sha256_hex_lower
    by (simp add: valid_entry_def invalid_intent_def invalid_receipt_link_def sample_proposed_def validLowerHex_def
        HashRequester_def DigestBuild_def rfc1123_def rfc1123_subdomain_def alnum_def byte_class_defs)
  then show "validateState rfc1123 sample_next = None"
    by (simp add: validateState_iff valid_intents_def sample_next_def put_intent_def freshState_def the_intents_def
        sample_store_def validateLimits_def)
qed

lemma sample_encode:
  "encodeState rfc1123 (freshState (sample_store None)) = Inr (sample_raw (freshState (sample_store None)))"
  "encodeState rfc1123 sample_next = Inr (sample_raw sample_next)"
proof -
  have "int64_state (freshState (sample_store None))"
    by (simp add: int64_state_iff freshState_def the_intents_def)
  then show "encodeState rfc1123 (freshState (sample_store None)) = Inr (sample_raw (freshState (sample_store None)))"
    unfolding sample_raw_def by (rule encodeState_valid [OF sample_next_valid(1) dns_names_rfc1123])
  have "int64_state sample_next"
    unfolding int64_state_iff sample_next_def the_intents_simps
    by (simp add: sample_proposed_def freshState_def the_intents_def int64_def)
  then show "encodeState rfc1123 sample_next = Inr (sample_raw sample_next)"
    unfolding sample_raw_def by (rule encodeState_valid [OF sample_next_valid(2) dns_names_rfc1123])
qed

lemma sample_fresh_state: "the_intents (freshState s) = []"
  by (simp add: freshState_def the_intents_def)

lemma sample_unguarded: "guarded (sample_store None) = False"
  by (simp add: guarded_def sample_store_def)

lemma sample_decode:
  "decode_ledger rfc1123 (sample_store None) sample_ledger = Inr (sample_ledger, freshState (sample_store None))"
proof -
  let ?raw = "sample_raw (freshState (sample_store None))"
  have good: "good_state (sample_store None) (freshState (sample_store None))"
    by (simp add: good_state_def sample_unguarded sample_fresh_state int64_state_iff go_map_def)
      (simp add: freshState_def)
  have "decode_data rfc1123 (sample_store None) ?raw = Inr (freshState (sample_store None))"
    by (rule decode_data_encode [OF dns_names_rfc1123 good sample_encode(1)])
  moreover have "?raw \<noteq> []" by (simp add: sample_raw_def marshal_state_def)
  moreover have "int (length ?raw) \<le> maxLedgerBytes"
    using sample_encode(1) by (auto simp: encodeState_def Let_def split: option.splits if_splits)
  ultimately show ?thesis
    by (simp add: decode_ledger_def sample_ledger_def mget_def)
qed

lemma sample_get_ledger:
  "run_state (rd_Get_cm (sample_store None) ''builds'' ConfigMapName) sample_log = (Inr sample_ledger, sample_log)"
proof -
  have "ValidString ''1''" by (rule ValidString_ascii) simp
  then show ?thesis
    by (simp add: rd_Get_cm_def reader_def sample_store_def reader.truncate_def sample_client_def sample_get_def
        sample_log_def current_def sample_ledger_def empty_meta_def)
qed

lemma sample_read:
  "run_state (read_ledger rfc1123 sample_runtime (sample_store None)) sample_log =
     (Inr (sample_ledger, freshState (sample_store None)), sample_log)"
proof -
  have ns: "StoreNamespace (sample_store None) = ''builds''" by (simp add: sample_store_def)
  have "run_state (fetch_ledger rfc1123 (sample_store None)) sample_log = (Inr sample_ledger, sample_log)"
    using sample_get_ledger by (simp add: fetch_ledger_def attempt_def guard_def sample_unguarded ns)
  then show ?thesis
    by (simp add: read_ledger_def readWithObservation_def sample_unguarded guard_def attempt_def sample_decode)
qed

definition sample_updated :: configmap where
  "sample_updated = sample_ledger\<lparr>Data := [(dataKey, sample_raw sample_next)]\<rparr>"

definition sample_after :: sample where
  "sample_after = sample_log @ [Sent (ReqUpdate (KConfigMap, ''builds'', ConfigMapName) (OConfigMap sample_updated)),
     Own (KConfigMap, ''builds'', ConfigMapName) (Some (OConfigMap
       (sample_updated\<lparr>cm_meta := (cm_meta sample_updated)\<lparr>ResourceVersion := sample_version sample_log\<rparr>\<rparr>)))]"

lemma sample_write:
  "run_state (write_ledger rfc1123 (sample_store None) sample_ledger sample_next) sample_log = (None, sample_after)"
proof -
  have "sample_raw (freshState (sample_store None)) \<noteq> []" by (simp add: sample_raw_def marshal_state_def)
  moreover have "cl_Update_cm (sample_store None) = sample_update"
    by (simp add: cl_Update_cm_def sample_store_def sample_client_def fun_eq_iff)
  moreover have "cm_key sample_updated = (KConfigMap, ''builds'', ConfigMapName)"
    by (simp add: cm_key_def sample_updated_def sample_ledger_def empty_meta_def)
  moreover have "run_state (sample_update sample_updated) sample_log = (None, sample_after)"
    if "cm_key sample_updated = (KConfigMap, ''builds'', ConfigMapName)"
    unfolding sample_update_def Let_def that
    by (simp add: sample_log_def current_def sample_versions_def same_version_def sample_updated_def sample_after_def)
  ultimately show ?thesis
    by (simp add: write_ledger_def sample_unguarded sample_encode sample_updated_def)
      (simp add: sample_ledger_def mget_def)
qed

lemma sample_reserve:
  "run_state (Reserve rfc1123 sample_runtime (sample_store None) sample_build) sample_log =
     (Inr (sample_proposed, True), sample_after)"
proof -
  have nonce: "run_state (randomNonce sample_runtime) w = (Inr sample_nonce, w)" for w
    by (simp add: randomNonce_def attempt_def sample_runtime_def sample_nonce_def)
  have proposed: "\<lparr>RequesterHash = HashRequester (Username (Requester (Spec sample_build))),
      RequestDigest = DigestBuild sample_build, Nonce = sample_nonce, CreatedAtUnix = 1700000000,
      ReceiptUID = [], ReceiptDigest = [], CleanupKind = []\<rparr> = sample_proposed"
    by (simp add: sample_proposed_def sample_build_def)
  have name: "Name (build_meta sample_build) = ''build-1''" by (simp add: sample_build_def)
  have limits: "StoreGlobalLimit (sample_store None) = 10" "StoreRequesterLimit (sample_store None) = 2"
    by (simp_all add: sample_store_def)
  have round: "run_state (reserve_round rfc1123 sample_runtime (sample_store None) i ''build-1'' sample_proposed
      sample_ledger (freshState (sample_store None))) sample_log = (Return (Inr (sample_proposed, True)), sample_after)" for i
    using sample_write
    by (simp add: reserve_round_def reserve_write_def sample_fresh_state limits sample_next_def [symmetric])
  have now: "run_state (Now sample_runtime) w = (1700000000, w)" "run_state (Ctx_Err sample_runtime) w = (None, w)" for w
    by (simp_all add: sample_runtime_def)
  have "maxCASAttempts = Suc 15" by simp
  then show ?thesis
    unfolding Reserve_def for_retry_def
    by (simp only: retry_from.simps) (simp add: attempt_def nonce now rguard_def rtry_def sample_read round name proposed Let_def)
qed

end
