(* ===== verification/Queue_Theorems.thy ===== *)
theory Queue_Theorems
  imports Queue_Release Queue_Reserve Queue_Invariants Queue_Sample
begin

text \<open>
  What the queue ledger guarantees: refinement of the protocol by every operation, the meaning of a
  reservation, the order of a release, and the invariants of the protocol itself.
\<close>

section \<open>The remaining operations\<close>







section \<open>Theorems\<close>





text \<open>C5: In a guarded installation with a direct reader a slot is removed from the ledger only for an
  entry with a pinned receipt that was marked for cleanup, and only after that receipt was absent at
  some time since the release began. The other effects of the three releases are the mark of the
  slot, the deletion of a receipt and the annotation of the build.\<close>

theorem release_after_receipt:
  assumes "lawful_store log x rt s" and "direct_store log s" and "guarded s"
  shows "wp (ReleaseForBuild x rt s build) (\<lambda>_ w'.
      grows (release_event x s (build_key build) (Name (build_meta build)) (log w)) (log w) (log w')) w \<and>
    wp (ReleaseRejectedReceipt x rt s build witness) (\<lambda>_ w'.
      grows (release_event x s (build_key build) (Name (build_meta build)) (log w)) (log w) (log w')) w \<and>
    wp (ResumeRejectedCleanup x rt s ident nonce) (\<lambda>_ w'.
      grows (release_event x s (KBuild, StoreNamespace s, ident) ident (log w)) (log w) (log w')) w"
  using releaseReceiptedBuild_order [OF assms(1,2)] ReleaseRejectedReceipt_order [OF assms(1,2)]
    ResumeRejectedCleanup_order [OF assms(1,2)] assms(3)
  by (simp add: ReleaseForBuild_def)

theorem release_after_receipt_witness:
  "guarded (sample_store (Some sample_guard)) \<and>
   wp (ReleaseForBuild rfc1123 sample_runtime (sample_store (Some sample_guard)) sample_build) (\<lambda>_ w'.
      grows (release_event rfc1123 (sample_store (Some sample_guard)) (KBuild, ''builds'', ''build-1'') ''build-1'' []) [] w') []"
proof -
  have law: "lawful_store id rfc1123 sample_runtime (sample_store (Some sample_guard))"
    by (rule sample_store_lawful) simp
  have g: "guarded (sample_store (Some sample_guard))" by (simp add: guarded_def sample_store_def)
  have key: "build_key sample_build = (KBuild, ''builds'', ''build-1'')" "Name (build_meta sample_build) = ''build-1''"
    by (simp_all add: build_key_def sample_build_def)
  from release_after_receipt [OF law sample_store_direct g, of sample_build "[]"] show ?thesis
    unfolding key id_apply using g by blast
qed












end
