(* ===== verification/Reservation_State.thy ===== *)
theory Reservation_State
  imports Queue_State Recovery_Receipt "HOL-Library.Sublist"
begin

text \<open>
  The persisted state of the active admission ledger
  (\<open>internal/service/buildcontroller/reservation.go\<close>): the reservations of the builds that hold
  worker slots, their validation, encoding and decoding. The fence is a 64-bit counter that may
  wrap. The results: a valid ledger never books more than its limits, whatever the order of
  iteration; every valid ledger fits the 768 KiB data guard; decoding inverts encoding.
\<close>

section \<open>Types\<close>

record activeReservation =
  RBuildName :: string
  RRequester :: string
  RSlots :: int
  RGrantNonce :: string
  RGrantFence :: "64 word"
  RGrantObservedRV :: string
  RGrantReceiptUID :: string
  RGrantReceiptDigest :: string
  RGrantCleanupReady :: bool
  RPodAttemptNonce :: string
  RPodTemplateDigest :: string
  RPodReceiptUID :: string
  RPodReceiptDigest :: string
  RPodCleanupReady :: bool
  RClosing :: bool
  RInFlight :: "string list"

record reservationState =
  RVersion :: int
  Fence :: "64 word"
  MaxJobs :: int
  MaxPerRequester :: int
  WorkerSlots :: int
  LastGrantedRequesterHash :: string
  RActive :: "(string, activeReservation) gomap option"  \<comment> \<open>\<open>None\<close> is the nil map\<close>

abbreviation reservationConfigMap :: string where "reservationConfigMap \<equiv> ''kova-service-admission''"
abbreviation reservationDataKey :: string where "reservationDataKey \<equiv> ''reservations.json''"
abbreviation maxReservationCASAttempts :: nat where "maxReservationCASAttempts \<equiv> 16"
abbreviation maxReservationLedgerBytes :: int where "maxReservationLedgerBytes \<equiv> 786432"
abbreviation maxReservationHeaderBytes :: int where "maxReservationHeaderBytes \<equiv> 8192"
abbreviation maxReservationEntryBytes :: int where "maxReservationEntryBytes \<equiv> 6000"

text \<open>The part of \<open>config.Config\<close> that admission uses.\<close>

record config =
  CfgNamespace :: string
  CfgRunnerImage :: string
  CfgRunnerImageDigest :: string
  CfgWorkerPoolID :: string
  MaxActiveJobs :: int
  MaxActiveJobsPerRequester :: int
  MaxQueuedJobs :: int
  MaxQueuedJobsPerRequester :: int
  CfgWorkerSlots :: int

section \<open>Validation\<close>

definition capacity_error :: "int \<Rightarrow> int \<Rightarrow> int \<Rightarrow> bool" where
  "capacity_error jobs per slots \<longleftrightarrow> jobs < 1 \<or> 128 < jobs \<or> per < 1 \<or> jobs < per \<or> slots < 1 \<or> 65535 < slots \<or>
     maxReservationLedgerBytes < maxReservationHeaderBytes + jobs * maxReservationEntryBytes"

definition ValidateReservationCapacity :: "config \<Rightarrow> goerr option" where
  "ValidateReservationCapacity cfg =
    (if capacity_error (MaxActiveJobs cfg) (MaxActiveJobsPerRequester cfg) (CfgWorkerSlots cfg)
     then Some (ErrMsg ''active admission limits exceed the supported encoded capacity'') else None)"

text \<open>A string that is its own lower case and that \<open>hex.DecodeString\<close> accepts.\<close>

definition validReservationHex :: "string \<Rightarrow> nat \<Rightarrow> bool" where
  "validReservationHex s n \<longleftrightarrow> length s = n \<and> even (length s) \<and> list_all is_lower_hex s"

definition validGrantReceiptUID :: "string \<Rightarrow> bool" where
  "validGrantReceiptUID s \<longleftrightarrow> s \<noteq> [] \<and> length s \<le> 64 \<and>
     list_all (\<lambda>c. is_digit c \<or> is_lower c \<or> is_upper c \<or> c = CHR ''-'') s"

definition validGrantObservedRV :: "string \<Rightarrow> bool" where
  "validGrantObservedRV s \<longleftrightarrow> s \<noteq> [] \<and> length s \<le> 256 \<and> ValidString s \<and>
     list_all (\<lambda>r. \<not> (IsSpace r \<or> IsControl r)) (runes s)"

definition validGrantReceiptDigest :: "string \<Rightarrow> bool" where
  "validGrantReceiptDigest s \<longleftrightarrow> HasPrefix s ''sha256:'' \<and> validReservationHex (TrimPrefix s ''sha256:'') 64"

text \<open>The three tests on one entry: its shape, and its receipt fields in version 1 and version 2.\<close>

definition invalid_reservation :: "'x ext_scheme \<Rightarrow> int \<Rightarrow> string \<Rightarrow> activeReservation \<Rightarrow> bool" where
  "invalid_reservation x slots key e \<longleftrightarrow>
     key = [] \<or> 256 < length key \<or> \<not> ValidString key \<or>
     length (RBuildName e) = 0 \<or> 253 < length (RBuildName e) \<or> \<not> IsDNS1123Subdomain x (RBuildName e) \<or>
     RRequester e = [] \<or> \<not> ValidString (RRequester e) \<or> 253 < RuneCountInString (RRequester e) \<or>
     RSlots e < 1 \<or> slots < RSlots e \<or> 1 < length (RInFlight e) \<or>
     (length (RInFlight e) = 1 \<and> \<not> validReservationHex (RInFlight e ! 0) 32)"

definition legacy_with_grant :: "activeReservation \<Rightarrow> bool" where
  "legacy_with_grant e \<longleftrightarrow>
     RGrantNonce e \<noteq> [] \<or> RGrantFence e \<noteq> 0 \<or> RGrantObservedRV e \<noteq> [] \<or>
     RGrantReceiptUID e \<noteq> [] \<or> RGrantReceiptDigest e \<noteq> [] \<or> RGrantCleanupReady e \<or>
     RPodAttemptNonce e \<noteq> [] \<or> RPodTemplateDigest e \<noteq> [] \<or> RPodReceiptUID e \<noteq> [] \<or>
     RPodReceiptDigest e \<noteq> [] \<or> RPodCleanupReady e"

definition invalid_grant_state :: "activeReservation \<Rightarrow> bool" where
  "invalid_grant_state e \<longleftrightarrow>
     \<not> validReservationHex (RGrantNonce e) 32 \<or> RGrantFence e = 0 \<or>
     (RGrantObservedRV e \<noteq> [] \<and> \<not> validGrantObservedRV (RGrantObservedRV e)) \<or>
     (RGrantReceiptUID e = []) \<noteq> (RGrantReceiptDigest e = []) \<or>
     (RGrantReceiptUID e \<noteq> [] \<and> (RGrantObservedRV e = [] \<or>
        \<not> validGrantReceiptUID (RGrantReceiptUID e) \<or> \<not> validGrantReceiptDigest (RGrantReceiptDigest e))) \<or>
     (RGrantCleanupReady e \<and> (\<not> RClosing e \<or> length (RInFlight e) \<noteq> 0 \<or> RGrantReceiptUID e = [] \<or>
        (RPodTemplateDigest e \<noteq> [] \<and> \<not> RPodCleanupReady e))) \<or>
     (RPodAttemptNonce e = [] \<and> (RPodTemplateDigest e \<noteq> [] \<or> RPodReceiptUID e \<noteq> [] \<or>
        RPodReceiptDigest e \<noteq> [] \<or> RPodCleanupReady e \<or> length (RInFlight e) \<noteq> 0)) \<or>
     (RPodAttemptNonce e \<noteq> [] \<and> \<not> validReservationHex (RPodAttemptNonce e) 32) \<or>
     (RPodTemplateDigest e = [] \<and> (RPodReceiptUID e \<noteq> [] \<or> RPodReceiptDigest e \<noteq> [] \<or>
        RPodCleanupReady e \<or> length (RInFlight e) \<noteq> 0)) \<or>
     (RPodTemplateDigest e \<noteq> [] \<and> (\<not> validGrantReceiptDigest (RPodTemplateDigest e) \<or>
        RGrantReceiptUID e = [])) \<or>
     (RPodReceiptUID e = []) \<noteq> (RPodReceiptDigest e = []) \<or>
     (RPodReceiptUID e \<noteq> [] \<and> (\<not> validGrantReceiptUID (RPodReceiptUID e) \<or>
        \<not> validGrantReceiptDigest (RPodReceiptDigest e))) \<or>
     (length (RInFlight e) = 1 \<and> (RInFlight e ! 0 \<noteq> RPodAttemptNonce e \<or> RPodReceiptUID e = [])) \<or>
     (RPodCleanupReady e \<and> (\<not> RClosing e \<or> length (RInFlight e) \<noteq> 0 \<or> RPodReceiptUID e = []))"

definition invalid_receipts :: "int \<Rightarrow> activeReservation \<Rightarrow> bool" where
  "invalid_receipts version e = (if version = 1 then legacy_with_grant e else invalid_grant_state e)"

text \<open>The loop, with the slots used so far and the reservations of each requester.\<close>

fun validate_active ::
  "'x ext_scheme \<Rightarrow> int \<Rightarrow> int \<Rightarrow> int \<Rightarrow> int \<Rightarrow> (string \<Rightarrow> int) \<Rightarrow> (string \<times> activeReservation) list \<Rightarrow> goerr option"
where
  "validate_active x version slots per used counts [] = None"
| "validate_active x version slots per used counts ((key, e) # rest) =
    (if invalid_reservation x slots key e
     then Some (ErrMsg ''admission ledger has invalid active reservation'')
     else if version = 1 \<and> legacy_with_grant e
     then Some (ErrMsg ''legacy active reservation contains Genesis grant fields'')
     else if version \<noteq> 1 \<and> invalid_grant_state e
     then Some (ErrMsg ''Genesis active reservation has invalid grant receipt state'')
     else if slots - RSlots e < used
     then Some (ErrMsg ''admission ledger exceeds worker slots'')
     else let counts' = counts(RRequester e := counts (RRequester e) + 1) in
       if per < counts' (RRequester e)
       then Some (ErrMsg ''admission ledger exceeds requester capacity'')
       else validate_active x version slots per (used + RSlots e) counts' rest)"

definition validateReservationState :: "'x ext_scheme \<Rightarrow> reservationState \<Rightarrow> goerr option" where
  "validateReservationState x s =
    (case RActive s of
       None \<Rightarrow> Some (ErrMsg ''admission ledger has unsupported capacity or state'')
     | Some es \<Rightarrow>
         if (RVersion s \<noteq> 1 \<and> RVersion s \<noteq> 2) \<or> capacity_error (MaxJobs s) (MaxPerRequester s) (WorkerSlots s) \<or>
            MaxJobs s < int (length es) \<or>
            (LastGrantedRequesterHash s \<noteq> [] \<and> \<not> validReservationHex (LastGrantedRequesterHash s) 64)
         then Some (ErrMsg ''admission ledger has unsupported capacity or state'')
         else validate_active x (RVersion s) (WorkerSlots s) (MaxPerRequester s) 0 (\<lambda>_. 0) es)"

section \<open>Encoding and decoding\<close>

definition omit_false :: "string \<Rightarrow> bool \<Rightarrow> (string \<times> json) list" where
  "omit_false k b = (if b then [(k, JBool True)] else [])"

definition omit_zero :: "string \<Rightarrow> 64 word \<Rightarrow> (string \<times> json) list" where
  "omit_zero k w = (if w = 0 then [] else [(k, JNum (dec (unat w)))])"

definition omit_strs :: "string \<Rightarrow> string list \<Rightarrow> (string \<times> json) list" where
  "omit_strs k xs = (if xs = [] then [] else [(k, JArr (map JStr xs))])"

definition marshal_reservation :: "activeReservation \<Rightarrow> json" where
  "marshal_reservation e = JObj (
     [(''buildName'', JStr (RBuildName e)), (''requester'', JStr (RRequester e)),
      (''slots'', JNum (dec_int (RSlots e)))] @
     omitempty ''grantNonce'' (RGrantNonce e) @ omit_zero ''grantFence'' (RGrantFence e) @
     omitempty ''grantObservedRV'' (RGrantObservedRV e) @ omitempty ''grantReceiptUID'' (RGrantReceiptUID e) @
     omitempty ''grantReceiptDigest'' (RGrantReceiptDigest e) @
     omit_false ''grantCleanupReady'' (RGrantCleanupReady e) @
     omitempty ''podAttemptNonce'' (RPodAttemptNonce e) @ omitempty ''podTemplateDigest'' (RPodTemplateDigest e) @
     omitempty ''podReceiptUID'' (RPodReceiptUID e) @ omitempty ''podReceiptDigest'' (RPodReceiptDigest e) @
     omit_false ''podCleanupReady'' (RPodCleanupReady e) @ omit_false ''closing'' (RClosing e) @
     omit_strs ''inFlight'' (RInFlight e))"

definition marshal_reservations :: "reservationState \<Rightarrow> json" where
  "marshal_reservations s = JObj (
     [(''version'', JNum (dec_int (RVersion s))), (''fence'', JNum (dec (unat (Fence s)))),
      (''maxJobs'', JNum (dec_int (MaxJobs s))), (''maxPerRequester'', JNum (dec_int (MaxPerRequester s))),
      (''workerSlots'', JNum (dec_int (WorkerSlots s)))] @
     omitempty ''lastGrantedRequesterHash'' (LastGrantedRequesterHash s) @
     [(''active'', case RActive s of None \<Rightarrow> JNull
         | Some m \<Rightarrow> JObj (map (\<lambda>(k, e). (k, marshal_reservation e)) m))])"

definition encodeReservations :: "'x ext_scheme \<Rightarrow> reservationState \<Rightarrow> goerr + string" where
  "encodeReservations x s =
    (case validateReservationState x s of
       Some e \<Rightarrow> Inl e
     | None \<Rightarrow>
         let data = print_json (marshal_reservations s) in
         if maxReservationLedgerBytes < int (length data) then Inl (ErrMsg ''active admission ledger exceeds its size'')
         else Inr data)"

definition reservation_fields :: "string list" where
  "reservation_fields = [''buildName'', ''requester'', ''slots'', ''grantNonce'', ''grantFence'', ''grantObservedRV'',
     ''grantReceiptUID'', ''grantReceiptDigest'', ''grantCleanupReady'', ''podAttemptNonce'', ''podTemplateDigest'',
     ''podReceiptUID'', ''podReceiptDigest'', ''podCleanupReady'', ''closing'', ''inFlight'']"

definition allowedReservationField :: allowed where
  "allowedReservationField path key =
    (case path of
       [] \<Rightarrow> key \<in> {''version'', ''fence'', ''maxJobs'', ''maxPerRequester'', ''workerSlots'',
                    ''lastGrantedRequesterHash'', ''active''}
     | [p] \<Rightarrow> p = ''active''
     | [p, _] \<Rightarrow> p = ''active'' \<and> key \<in> set reservation_fields
     | _ \<Rightarrow> False)"

fun to_strs :: "json \<Rightarrow> string list option" where
  "to_strs (JArr xs) = those (map to_str xs)"
| "to_strs _ = None"

definition to_word :: "json \<Rightarrow> 64 word option" where
  "to_word j = map_option of_nat (to_uint j)"

fun unmarshal_reservation :: "json \<Rightarrow> activeReservation option" where
  "unmarshal_reservation (JObj kvs) = do {
     b \<leftarrow> field kvs ''buildName'' to_str [];
     r \<leftarrow> field kvs ''requester'' to_str [];
     s \<leftarrow> field kvs ''slots'' to_int 0;
     gn \<leftarrow> field kvs ''grantNonce'' to_str [];
     gf \<leftarrow> field kvs ''grantFence'' to_word 0;
     gv \<leftarrow> field kvs ''grantObservedRV'' to_str [];
     gu \<leftarrow> field kvs ''grantReceiptUID'' to_str [];
     gd \<leftarrow> field kvs ''grantReceiptDigest'' to_str [];
     gc \<leftarrow> field kvs ''grantCleanupReady'' to_bool False;
     pn \<leftarrow> field kvs ''podAttemptNonce'' to_str [];
     pt \<leftarrow> field kvs ''podTemplateDigest'' to_str [];
     pu \<leftarrow> field kvs ''podReceiptUID'' to_str [];
     pd \<leftarrow> field kvs ''podReceiptDigest'' to_str [];
     pc \<leftarrow> field kvs ''podCleanupReady'' to_bool False;
     c \<leftarrow> field kvs ''closing'' to_bool False;
     f \<leftarrow> field kvs ''inFlight'' to_strs [];
     Some \<lparr>RBuildName = b, RRequester = r, RSlots = s, RGrantNonce = gn, RGrantFence = gf, RGrantObservedRV = gv,
       RGrantReceiptUID = gu, RGrantReceiptDigest = gd, RGrantCleanupReady = gc, RPodAttemptNonce = pn,
       RPodTemplateDigest = pt, RPodReceiptUID = pu, RPodReceiptDigest = pd, RPodCleanupReady = pc,
       RClosing = c, RInFlight = f\<rparr> }"
| "unmarshal_reservation _ = None"

fun unmarshal_reservations :: "json \<Rightarrow> reservationState option" where
  "unmarshal_reservations (JObj kvs) = do {
     v \<leftarrow> field kvs ''version'' to_int 0;
     f \<leftarrow> field kvs ''fence'' to_word 0;
     j \<leftarrow> field kvs ''maxJobs'' to_int 0;
     p \<leftarrow> field kvs ''maxPerRequester'' to_int 0;
     w \<leftarrow> field kvs ''workerSlots'' to_int 0;
     h \<leftarrow> field kvs ''lastGrantedRequesterHash'' to_str [];
     m \<leftarrow> field kvs ''active'' (unmarshal_map unmarshal_reservation) None;
     Some \<lparr>RVersion = v, Fence = f, MaxJobs = j, MaxPerRequester = p, WorkerSlots = w,
       LastGrantedRequesterHash = h, RActive = m\<rparr> }"
| "unmarshal_reservations _ = None"

definition decodeReservations :: "'x ext_scheme \<Rightarrow> configmap \<Rightarrow> goerr + reservationState" where
  "decodeReservations x cm =
    (let raw = mget (Data cm) reservationDataKey in
     if length (Data cm) \<noteq> 1 \<or> length raw = 0 \<or> maxReservationLedgerBytes < int (length raw) \<or>
        length (BinaryData cm) \<noteq> 0
     then Inl (ErrMsg ''admission ledger has invalid data keys or size'')
     else (case Decode raw unmarshal_reservations allowedReservationField of
         Inl e \<Rightarrow> Inl (Wrap ''admission ledger is invalid'' e)
       | Inr s \<Rightarrow>
           (case validateReservationState x s of
              Some e \<Rightarrow> Inl (Wrap ''admission ledger has unsupported state'' e)
            | None \<Rightarrow> Inr s)))"

section \<open>Validation as a predicate\<close>

definition used_slots :: "(string \<times> activeReservation) list \<Rightarrow> int" where
  "used_slots es = sum_list (map (\<lambda>(k, e). RSlots e) es)"

definition jobs_of :: "string \<Rightarrow> (string \<times> activeReservation) list \<Rightarrow> nat" where
  "jobs_of q es = length (filter (\<lambda>(k, e). RRequester e = q) es)"

definition valid_reservation :: "'x ext_scheme \<Rightarrow> int \<Rightarrow> int \<Rightarrow> string \<times> activeReservation \<Rightarrow> bool" where
  "valid_reservation x version slots = (\<lambda>(key, e). \<not> invalid_reservation x slots key e \<and> \<not> invalid_receipts version e)"

definition within_limits :: "reservationState \<Rightarrow> bool" where
  "within_limits s \<longleftrightarrow> (\<exists>es. RActive s = Some es \<and> int (length es) \<le> MaxJobs s \<and> used_slots es \<le> WorkerSlots s \<and>
     (\<forall>q. int (jobs_of q es) \<le> MaxPerRequester s))"

lemma used_slots_simps [simp]:
  "used_slots [] = 0" "used_slots ((k, e) # es) = RSlots e + used_slots es"
  by (simp_all add: used_slots_def)

lemma jobs_of_simps [simp]:
  "jobs_of q [] = 0"
  "jobs_of q ((k, e) # es) = (if RRequester e = q then Suc (jobs_of q es) else jobs_of q es)"
  by (simp_all add: jobs_of_def)

lemma valid_reservation_slots: "valid_reservation x v w (k, e) \<Longrightarrow> 1 \<le> RSlots e \<and> RSlots e \<le> w"
  by (auto simp: valid_reservation_def invalid_reservation_def)

lemma used_slots_nonneg: "\<forall>e \<in> set es. valid_reservation x v w e \<Longrightarrow> int (length es) \<le> used_slots es"
proof (induction es)
  case (Cons ke es)
  obtain k e where "ke = (k, e)" by (cases ke)
  with Cons valid_reservation_slots [of x v w k e] show ?case by simp
qed simp

lemma validate_active_Cons:
  "validate_active x v w p used counts ((k, e) # es) = None \<longleftrightarrow>
     valid_reservation x v w (k, e) \<and> used + RSlots e \<le> w \<and> counts (RRequester e) + 1 \<le> p \<and>
     validate_active x v w p (used + RSlots e) (counts(RRequester e := counts (RRequester e) + 1)) es = None"
  by (auto simp: valid_reservation_def invalid_receipts_def Let_def)

lemma validate_active_iff:
  assumes "\<forall>q. counts q \<le> per" and "used \<le> slots"
  shows "validate_active x version slots per used counts es = None \<longleftrightarrow>
    (\<forall>e \<in> set es. valid_reservation x version slots e) \<and> used + used_slots es \<le> slots \<and>
    (\<forall>q. counts q + int (jobs_of q es) \<le> per)"
  using assms
proof (induction es arbitrary: counts used)
  case (Cons ke es)
  obtain k e where ke: "ke = (k, e)" by (cases ke)
  define c where "c = counts(RRequester e := counts (RRequester e) + 1)"
  have shift: "(\<forall>q. counts q + int (jobs_of q (ke # es)) \<le> per) \<longleftrightarrow> (\<forall>q. c q + int (jobs_of q es) \<le> per)"
    by (auto simp: ke c_def)
  have step: "validate_active x version slots per used counts (ke # es) = None \<longleftrightarrow>
      valid_reservation x version slots ke \<and> used + RSlots e \<le> slots \<and> counts (RRequester e) + 1 \<le> per \<and>
      validate_active x version slots per (used + RSlots e) c es = None"
    unfolding ke c_def by (rule validate_active_Cons)
  have sum: "used + used_slots (ke # es) = used + RSlots e + used_slots es" by (simp add: ke)
  show ?case
  proof (cases "counts (RRequester e) + 1 \<le> per \<and> used + RSlots e \<le> slots")
    case True
    then have "\<forall>q. c q \<le> per" using Cons.prems by (auto simp: c_def)
    from Cons.IH [OF this, of "used + RSlots e"] True show ?thesis
      unfolding shift step sum list.set by blast
  next
    case False
    have "\<not> (\<forall>q. c q + int (jobs_of q es) \<le> per)" if "\<not> counts (RRequester e) + 1 \<le> per"
      using that by (auto simp: c_def intro!: exI [of _ "RRequester e"])
    moreover have "\<not> used + used_slots (ke # es) \<le> slots" if "\<not> used + RSlots e \<le> slots"
        and "\<forall>e \<in> set es. valid_reservation x version slots e"
      using that used_slots_nonneg [OF that(2)] unfolding sum by linarith
    ultimately show ?thesis using False unfolding shift step list.set by blast
  qed
qed simp

definition valid_header :: "reservationState \<Rightarrow> bool" where
  "valid_header s \<longleftrightarrow> (RVersion s = 1 \<or> RVersion s = 2) \<and>
     \<not> capacity_error (MaxJobs s) (MaxPerRequester s) (WorkerSlots s) \<and>
     (LastGrantedRequesterHash s = [] \<or> validReservationHex (LastGrantedRequesterHash s) 64)"

lemma validateReservationState_iff:
  "validateReservationState x s = None \<longleftrightarrow>
     valid_header s \<and> within_limits s \<and>
     (\<exists>es. RActive s = Some es \<and> (\<forall>e \<in> set es. valid_reservation x (RVersion s) (WorkerSlots s) e))"
proof (cases "RActive s")
  case (Some es)
  show ?thesis
  proof (cases "capacity_error (MaxJobs s) (MaxPerRequester s) (WorkerSlots s)")
    case False
    then have "\<forall>q. (\<lambda>_. 0 :: int) q \<le> MaxPerRequester s" "0 \<le> WorkerSlots s" by (auto simp: capacity_error_def)
    from validate_active_iff [OF this] False Some show ?thesis
      by (auto simp: validateReservationState_def valid_header_def within_limits_def)
  qed (use Some in \<open>simp add: validateReservationState_def valid_header_def\<close>)
qed (simp add: validateReservationState_def within_limits_def)

lemma used_slots_perm: "mset es = mset fs \<Longrightarrow> used_slots es = used_slots fs"
  unfolding used_slots_def by (metis mset_map sum_mset_sum_list)

lemma jobs_of_perm: "mset es = mset fs \<Longrightarrow> jobs_of q es = jobs_of q fs"
  unfolding jobs_of_def by (metis mset_filter size_mset)

lemma within_limits_perm:
  assumes "mset es = mset fs"
  shows "within_limits (s\<lparr>RActive := Some es\<rparr>) \<longleftrightarrow> within_limits (s\<lparr>RActive := Some fs\<rparr>)"
  using used_slots_perm [OF assms] jobs_of_perm [OF assms] mset_eq_length [OF assms]
  by (simp add: within_limits_def)

section \<open>The size of the encoding\<close>

lemma validReservationHex_plain: "validReservationHex s n \<Longrightarrow> (\<forall>c \<in> set s. plain_char c) \<and> length s = n"
  by (auto simp: validReservationHex_def list_all_iff plain_chars)

lemma validGrantReceiptUID_plain: "validGrantReceiptUID s \<Longrightarrow> (\<forall>c \<in> set s. plain_char c) \<and> length s \<le> 64"
  by (auto simp: validGrantReceiptUID_def list_all_iff plain_chars)

lemma validGrantReceiptDigest_plain:
  assumes "validGrantReceiptDigest s"
  shows "(\<forall>c \<in> set s. plain_char c) \<and> length s = 71"
  using digest_plain [of s 64] assms
  by (simp add: validGrantReceiptDigest_def validReservationHex_def validLowerHex_def)

text \<open>A string field is plain and of bounded length, or any valid text of a bounded length.\<close>

definition plain_le :: "nat \<Rightarrow> string \<Rightarrow> bool" where
  "plain_le n s \<longleftrightarrow> (\<forall>c \<in> set s. plain_char c) \<and> length s \<le> n"

lemma plain_le_Nil [simp]: "plain_le n []"
  by (simp add: plain_le_def)

lemma plain_le_hex: "validReservationHex s n \<Longrightarrow> plain_le n s"
  using validReservationHex_plain by (simp add: plain_le_def)

lemma plain_le_uid: "validGrantReceiptUID s \<Longrightarrow> plain_le 64 s"
  using validGrantReceiptUID_plain by (simp add: plain_le_def)

lemma plain_le_digest: "validGrantReceiptDigest s \<Longrightarrow> plain_le 71 s"
  using validGrantReceiptDigest_plain by (simp add: plain_le_def)

lemma plain_le_valid: "plain_le n s \<Longrightarrow> ValidString s"
  by (simp add: plain_le_def plain_ascii)

lemma length_print_str: "ValidString s \<Longrightarrow> length (print_str s) \<le> 6 * RuneCountInString s + 2"
  using length_escape_runes by (simp add: print_str_def)

lemma length_print_str_bytes: "ValidString s \<Longrightarrow> length (print_str s) \<le> 6 * length s + 2"
  using length_print_str [of s] RuneCountInString_le_length [of s] by simp

text \<open>What a valid entry says about each of its fields.\<close>

lemma valid_reservation_shape:
  assumes "valid_reservation x v w (key, e)" and "dns_names x"
  shows "ValidString key" "length key \<le> 256" "plain_le 253 (RBuildName e)"
    and "ValidString (RRequester e)" "RuneCountInString (RRequester e) \<le> 253" "1 \<le> RSlots e" "RSlots e \<le> w"
    and "length (RInFlight e) \<le> 1" "\<forall>a \<in> set (RInFlight e). plain_le 32 a"
proof -
  have i: "\<not> invalid_reservation x w key e" using assms(1) by (simp add: valid_reservation_def)
  then show "ValidString key" "length key \<le> 256" "ValidString (RRequester e)"
    "RuneCountInString (RRequester e) \<le> 253" "1 \<le> RSlots e" "RSlots e \<le> w" "length (RInFlight e) \<le> 1"
    by (auto simp: invalid_reservation_def)
  from i assms(2) show "plain_le 253 (RBuildName e)"
    by (auto simp: invalid_reservation_def plain_le_def dest: dns_plain)
  from i show "\<forall>a \<in> set (RInFlight e). plain_le 32 a"
    by (cases "RInFlight e") (auto simp: invalid_reservation_def intro: plain_le_hex)
qed

lemma valid_reservation_receipts:
  assumes "valid_reservation x v w (key, e)"
  shows "plain_le 32 (RGrantNonce e)" "ValidString (RGrantObservedRV e)" "length (RGrantObservedRV e) \<le> 256"
    and "plain_le 64 (RGrantReceiptUID e)" "plain_le 71 (RGrantReceiptDigest e)"
    and "plain_le 32 (RPodAttemptNonce e)" "plain_le 71 (RPodTemplateDigest e)"
    and "plain_le 64 (RPodReceiptUID e)" "plain_le 71 (RPodReceiptDigest e)"
proof -
  have r: "\<not> invalid_receipts v e" using assms by (simp add: valid_reservation_def)
  have cases: "\<not> legacy_with_grant e \<or> \<not> invalid_grant_state e" using r by (auto simp: invalid_receipts_def split: if_splits)
  from cases show "plain_le 32 (RGrantNonce e)" "plain_le 64 (RGrantReceiptUID e)" "plain_le 71 (RGrantReceiptDigest e)"
    "plain_le 32 (RPodAttemptNonce e)" "plain_le 71 (RPodTemplateDigest e)" "plain_le 64 (RPodReceiptUID e)"
    "plain_le 71 (RPodReceiptDigest e)"
    unfolding legacy_with_grant_def invalid_grant_state_def
    by (metis plain_le_Nil plain_le_hex plain_le_uid plain_le_digest)+
  from cases have "RGrantObservedRV e = [] \<or> validGrantObservedRV (RGrantObservedRV e)"
    by (auto simp: legacy_with_grant_def invalid_grant_state_def)
  then show "ValidString (RGrantObservedRV e)" "length (RGrantObservedRV e) \<le> 256"
    by (auto simp: validGrantObservedRV_def)
qed

lemma plain_reservation_fields:
  "\<forall>c \<in> set ''buildName''. plain_char c" "\<forall>c \<in> set ''requester''. plain_char c"
  "\<forall>c \<in> set ''slots''. plain_char c" "\<forall>c \<in> set ''grantNonce''. plain_char c"
  "\<forall>c \<in> set ''grantFence''. plain_char c" "\<forall>c \<in> set ''grantObservedRV''. plain_char c"
  "\<forall>c \<in> set ''grantReceiptUID''. plain_char c" "\<forall>c \<in> set ''grantReceiptDigest''. plain_char c"
  "\<forall>c \<in> set ''grantCleanupReady''. plain_char c" "\<forall>c \<in> set ''podAttemptNonce''. plain_char c"
  "\<forall>c \<in> set ''podTemplateDigest''. plain_char c" "\<forall>c \<in> set ''podReceiptUID''. plain_char c"
  "\<forall>c \<in> set ''podReceiptDigest''. plain_char c" "\<forall>c \<in> set ''podCleanupReady''. plain_char c"
  "\<forall>c \<in> set ''closing''. plain_char c" "\<forall>c \<in> set ''inFlight''. plain_char c"
  "\<forall>c \<in> set ''version''. plain_char c" "\<forall>c \<in> set ''fence''. plain_char c"
  "\<forall>c \<in> set ''maxJobs''. plain_char c" "\<forall>c \<in> set ''maxPerRequester''. plain_char c"
  "\<forall>c \<in> set ''workerSlots''. plain_char c" "\<forall>c \<in> set ''lastGrantedRequesterHash''. plain_char c"
  "\<forall>c \<in> set ''active''. plain_char c"
  by (simp_all add: plain_char_def quote_def backslash_def)

lemmas valid_reservation_fields = plain_reservation_fields [THEN plain_ascii]

text \<open>The bytes of one optional field.\<close>

definition fields_size :: "(string \<times> json) list \<Rightarrow> nat" where
  "fields_size kvs = sum_list (map entry_size kvs)"

lemma fields_size_append [simp]: "fields_size (a @ b) = fields_size a + fields_size b"
  by (simp add: fields_size_def)

lemma fields_size_plain: "\<forall>c \<in> set k. plain_char c \<Longrightarrow> plain_le n s \<Longrightarrow>
    fields_size (omitempty k s) \<le> length k + 6 + n"
  using length_omitempty [of k s] by (auto simp: fields_size_def plain_le_def)

lemma fields_size_text: "\<forall>c \<in> set k. plain_char c \<Longrightarrow> ValidString s \<Longrightarrow> length s \<le> n \<Longrightarrow>
    fields_size (omitempty k s) \<le> length k + 6 + 6 * n"
  using length_print_str_bytes [of s] by (auto simp: fields_size_def omitempty_def length_print_key)

lemma fields_size_bool: "\<forall>c \<in> set k. plain_char c \<Longrightarrow> fields_size (omit_false k b) \<le> length k + 8"
  by (auto simp: fields_size_def omit_false_def length_print_key)

lemma length_dec_word: "length (dec (unat (w :: 64 word))) \<le> 20"
proof (rule length_dec_le)
  have "unat w < 2 ^ 64" using unsigned_less [of w] by simp
  also have "\<dots> < (10 :: nat) ^ 20" by simp
  finally show "unat w < 10 ^ 20" .
qed simp

lemma fields_size_word: "\<forall>c \<in> set k. plain_char c \<Longrightarrow> fields_size (omit_zero k w) \<le> length k + 24"
  using length_dec_word [of w] by (auto simp: fields_size_def omit_zero_def length_print_key)

lemma fields_size_strs:
  assumes "\<forall>c \<in> set k. plain_char c" and "length xs \<le> 1" and "\<forall>a \<in> set xs. plain_le n a"
  shows "fields_size (omit_strs k xs) \<le> length k + 8 + n"
proof (cases xs)
  case (Cons a ys)
  with assms have "ys = []" "plain_le n a" by auto
  with Cons assms(1) show ?thesis
    by (simp add: fields_size_def omit_strs_def length_print_key length_print_str_plain plain_le_def)
qed (simp add: omit_strs_def fields_size_def)

lemmas fields_sizes = fields_size_plain fields_size_text fields_size_bool fields_size_word fields_size_strs

lemma entry_size_reservation:
  assumes "valid_reservation x v w (key, e)" and "dns_names x" and "w \<le> 65535"
  shows "entry_size (key, marshal_reservation e) \<le> 6000"
proof -
  note s = valid_reservation_shape [OF assms(1,2)] and r = valid_reservation_receipts [OF assms(1)]
  note plain = plain_reservation_fields
  let ?head = "[(''buildName'', JStr (RBuildName e)), (''requester'', JStr (RRequester e)),
      (''slots'', JNum (dec_int (RSlots e)))]"
  have "length (dec_int (RSlots e)) \<le> 5" using s(6,7) assms(3) by (intro length_dec_int_le) auto
  then have "fields_size ?head \<le> 1820"
    using length_print_str [OF s(4)] s(3,5)
    by (simp add: fields_size_def length_print_key plain length_print_str_plain plain_le_def)
  moreover have "fields_size (omitempty ''grantObservedRV'' (RGrantObservedRV e)) \<le> 1600"
    using fields_size_text [OF plain(6) r(2,3)] by simp
  moreover have "fields_size (omitempty ''grantNonce'' (RGrantNonce e)) \<le> 50"
    "fields_size (omitempty ''grantReceiptUID'' (RGrantReceiptUID e)) \<le> 90"
    "fields_size (omitempty ''grantReceiptDigest'' (RGrantReceiptDigest e)) \<le> 100"
    "fields_size (omitempty ''podAttemptNonce'' (RPodAttemptNonce e)) \<le> 60"
    "fields_size (omitempty ''podTemplateDigest'' (RPodTemplateDigest e)) \<le> 100"
    "fields_size (omitempty ''podReceiptUID'' (RPodReceiptUID e)) \<le> 90"
    "fields_size (omitempty ''podReceiptDigest'' (RPodReceiptDigest e)) \<le> 100"
    using fields_size_plain [OF plain(4) r(1)] fields_size_plain [OF plain(7) r(4)]
      fields_size_plain [OF plain(8) r(5)] fields_size_plain [OF plain(10) r(6)] fields_size_plain [OF plain(11) r(7)]
      fields_size_plain [OF plain(12) r(8)] fields_size_plain [OF plain(13) r(9)] by simp_all
  moreover have "fields_size (omit_false ''grantCleanupReady'' (RGrantCleanupReady e)) \<le> 25"
    "fields_size (omit_false ''podCleanupReady'' (RPodCleanupReady e)) \<le> 25"
    "fields_size (omit_false ''closing'' (RClosing e)) \<le> 25"
    using fields_size_bool [OF plain(9), of "RGrantCleanupReady e"]
      fields_size_bool [OF plain(14), of "RPodCleanupReady e"] fields_size_bool [OF plain(15), of "RClosing e"]
    by simp_all
  moreover have "fields_size (omit_zero ''grantFence'' (RGrantFence e)) \<le> 40"
    using fields_size_word [OF plain(5), of "RGrantFence e"] by simp
  moreover have "fields_size (omit_strs ''inFlight'' (RInFlight e)) \<le> 60"
    using fields_size_strs [OF plain(16) s(8,9)] by simp
  moreover have "entry_size (key, marshal_reservation e) \<le> 1538 + length (print_json (marshal_reservation e)) + 2"
    using length_print_str_bytes [OF s(1)] s(2) by (simp add: entry_size_def)
  moreover have "length (print_json (marshal_reservation e)) \<le> 2 + fields_size (?head @
      omitempty ''grantNonce'' (RGrantNonce e) @ omit_zero ''grantFence'' (RGrantFence e) @
      omitempty ''grantObservedRV'' (RGrantObservedRV e) @ omitempty ''grantReceiptUID'' (RGrantReceiptUID e) @
      omitempty ''grantReceiptDigest'' (RGrantReceiptDigest e) @
      omit_false ''grantCleanupReady'' (RGrantCleanupReady e) @
      omitempty ''podAttemptNonce'' (RPodAttemptNonce e) @ omitempty ''podTemplateDigest'' (RPodTemplateDigest e) @
      omitempty ''podReceiptUID'' (RPodReceiptUID e) @ omitempty ''podReceiptDigest'' (RPodReceiptDigest e) @
      omit_false ''podCleanupReady'' (RPodCleanupReady e) @ omit_false ''closing'' (RClosing e) @
      omit_strs ''inFlight'' (RInFlight e))"
    unfolding marshal_reservation_def fields_size_def by (rule length_print_obj)
  ultimately show ?thesis unfolding fields_size_append by linarith
qed

lemma size_marshal_reservations:
  assumes "validateReservationState x s = None" and "dns_names x"
  shows "\<exists>es. RActive s = Some es \<and> int (length es) \<le> MaxJobs s \<and>
    int (length (print_json (marshal_reservations s))) \<le>
      maxReservationHeaderBytes + maxReservationEntryBytes * int (length es)"
proof -
  obtain es where es: "RActive s = Some es" and header: "valid_header s" and limits: "within_limits s"
    and valid: "\<forall>e \<in> set es. valid_reservation x (RVersion s) (WorkerSlots s) e"
    using assms(1) by (auto simp: validateReservationState_iff)
  let ?m = "map (\<lambda>(k, e). (k, marshal_reservation e)) es"
  have "WorkerSlots s \<le> 65535" using header by (auto simp: valid_header_def capacity_error_def)
  then have "\<forall>kv \<in> set ?m. entry_size kv \<le> 6000"
    using valid assms(2) by (force intro: entry_size_reservation)
  then have entries: "length (print_json (JObj ?m)) \<le> 2 + 6000 * length es"
    using sum_list_le [of ?m entry_size 6000] length_print_obj [of ?m] by simp
  have "length (dec_int (RVersion s)) \<le> 5" "length (dec_int (MaxJobs s)) \<le> 5"
    "length (dec_int (MaxPerRequester s)) \<le> 5" "length (dec_int (WorkerSlots s)) \<le> 5"
    using header by (auto simp: valid_header_def capacity_error_def intro!: length_dec_int_le)
  moreover have "plain_le 64 (LastGrantedRequesterHash s)"
    using header by (auto simp: valid_header_def intro: plain_le_hex)
  from fields_size_plain [OF plain_reservation_fields(22) this]
  have "fields_size (omitempty ''lastGrantedRequesterHash'' (LastGrantedRequesterHash s)) \<le> 100" by simp
  moreover note length_dec_word [of "Fence s"]
  ultimately have "length (print_json (marshal_reservations s)) \<le> 8192 + 6000 * length es"
    using entries length_print_obj [of "[(''version'', JNum (dec_int (RVersion s))), (''fence'', JNum (dec (unat (Fence s)))),
      (''maxJobs'', JNum (dec_int (MaxJobs s))), (''maxPerRequester'', JNum (dec_int (MaxPerRequester s))),
      (''workerSlots'', JNum (dec_int (WorkerSlots s)))] @
     omitempty ''lastGrantedRequesterHash'' (LastGrantedRequesterHash s) @ [(''active'', JObj ?m)]", folded fields_size_def]
    by (simp add: marshal_reservations_def es length_print_key plain_reservation_fields fields_size_def
        del: print_json.simps(6))
  then show ?thesis using es limits by (auto simp: within_limits_def)
qed

lemma encodeReservations_valid:
  assumes "validateReservationState x s = None" and "dns_names x"
  shows "encodeReservations x s = Inr (print_json (marshal_reservations s))"
    and "int (length (print_json (marshal_reservations s))) \<le> maxReservationLedgerBytes"
proof -
  obtain es where "RActive s = Some es" "int (length es) \<le> MaxJobs s"
    and size: "int (length (print_json (marshal_reservations s))) \<le> maxReservationHeaderBytes + maxReservationEntryBytes * int (length es)"
    using size_marshal_reservations [OF assms] by auto
  moreover have "MaxJobs s \<le> 128"
    using assms(1) by (auto simp: validateReservationState_iff valid_header_def capacity_error_def)
  ultimately show le: "int (length (print_json (marshal_reservations s))) \<le> maxReservationLedgerBytes" by linarith
  then show "encodeReservations x s = Inr (print_json (marshal_reservations s))"
    using assms(1) by (simp add: encodeReservations_def)
qed

section \<open>Decoding inverts encoding\<close>

lemma field_simps:
  "field [] k f z = Some z"
  "field ((k', j) # b) k f z = (if k = k' then f j else field b k f z)"
  "field (omitempty k' s @ b) k f z = (if k = k' \<and> s \<noteq> [] then f (JStr s) else field b k f z)"
  "field (omit_false k' c @ b) k f z = (if k = k' \<and> c then f (JBool True) else field b k f z)"
  "field (omit_zero k' w @ b) k f z = (if k = k' \<and> w \<noteq> 0 then f (JNum (dec (unat w))) else field b k f z)"
  "field (omit_strs k' xs) k f z = (if k = k' \<and> xs \<noteq> [] then f (JArr (map JStr xs)) else Some z)"
  by (auto simp: field_def omitempty_def omit_false_def omit_zero_def omit_strs_def)

lemma to_word_dec: "to_word (JNum (dec (unat w))) = Some w"
proof -
  have "unat w < 2 ^ 64" using unsigned_less [of w] by simp
  then show ?thesis by (simp add: to_word_def ParseUint_dec)
qed

lemma to_strs_map [simp]: "those (map (to_str \<circ> JStr) xs) = Some xs"
  by (induction xs) auto

lemma unmarshal_marshal_reservation:
  assumes "int64 (RSlots e)"
  shows "unmarshal_reservation (marshal_reservation e) = Some e"
proof -
  obtain kvs where kvs: "marshal_reservation e = JObj kvs" by (simp add: marshal_reservation_def)
  have "ParseInt (dec_int (RSlots e)) = Some (RSlots e)"
    using assms by (auto simp: int64_def intro: ParseInt_dec_int)
  then have "field kvs ''buildName'' to_str [] = Some (RBuildName e)"
    "field kvs ''requester'' to_str [] = Some (RRequester e)"
    "field kvs ''slots'' to_int 0 = Some (RSlots e)"
    "field kvs ''grantNonce'' to_str [] = Some (RGrantNonce e)"
    "field kvs ''grantFence'' to_word 0 = Some (RGrantFence e)"
    "field kvs ''grantObservedRV'' to_str [] = Some (RGrantObservedRV e)"
    "field kvs ''grantReceiptUID'' to_str [] = Some (RGrantReceiptUID e)"
    "field kvs ''grantReceiptDigest'' to_str [] = Some (RGrantReceiptDigest e)"
    "field kvs ''grantCleanupReady'' to_bool False = Some (RGrantCleanupReady e)"
    "field kvs ''podAttemptNonce'' to_str [] = Some (RPodAttemptNonce e)"
    "field kvs ''podTemplateDigest'' to_str [] = Some (RPodTemplateDigest e)"
    "field kvs ''podReceiptUID'' to_str [] = Some (RPodReceiptUID e)"
    "field kvs ''podReceiptDigest'' to_str [] = Some (RPodReceiptDigest e)"
    "field kvs ''podCleanupReady'' to_bool False = Some (RPodCleanupReady e)"
    "field kvs ''closing'' to_bool False = Some (RClosing e)"
    "field kvs ''inFlight'' to_strs [] = Some (RInFlight e)"
    using kvs [symmetric] by (simp_all add: marshal_reservation_def field_simps to_word_dec)
  then show ?thesis by (simp add: kvs)
qed

lemma wf_num [simp]: "\<exists>i. dec_int j = dec_int i" "\<exists>i. dec n = dec_int i"
proof -
  show "\<exists>i. dec n = dec_int i" by (rule exI [of _ "int n"]) (simp add: dec_int_def)
qed blast

lemma wf_omits:
  "ValidString k \<Longrightarrow> ValidString s \<Longrightarrow> wf_members (omitempty k s)"
  "ValidString k \<Longrightarrow> wf_members (omit_false k b)"
  "ValidString k \<Longrightarrow> wf_members (omit_zero k w)"
  "ValidString k \<Longrightarrow> \<forall>a \<in> set xs. ValidString a \<Longrightarrow> wf_members (omit_strs k xs)"
proof -
  have elems: "\<forall>a \<in> set xs. ValidString a \<Longrightarrow> wf_elems (map JStr xs)" by (induction xs) auto
  show "ValidString k \<Longrightarrow> ValidString s \<Longrightarrow> wf_members (omitempty k s)"
    "ValidString k \<Longrightarrow> wf_members (omit_false k b)" by (simp_all add: omitempty_def omit_false_def)
  show "ValidString k \<Longrightarrow> wf_members (omit_zero k w)" by (simp add: omit_zero_def)
  show "ValidString k \<Longrightarrow> \<forall>a \<in> set xs. ValidString a \<Longrightarrow> wf_members (omit_strs k xs)"
    using elems by (simp add: omit_strs_def)
qed

lemma wf_members_append: "wf_members (a @ b) \<longleftrightarrow> wf_members a \<and> wf_members b"
  by (auto simp: wf_members_iff)

lemma wf_marshal_reservation:
  assumes "valid_reservation x v w (key, e)" and "dns_names x"
  shows "ValidString key \<and> wf_json (marshal_reservation e)"
proof -
  note s = valid_reservation_shape [OF assms] and r = valid_reservation_receipts [OF assms(1)]
  have flight: "\<forall>a \<in> set (RInFlight e). ValidString a" using s(9) plain_le_valid by blast
  show ?thesis
    using s(1,4) plain_le_valid [OF s(3)] r(1,4-9) [THEN plain_le_valid] r(2) flight
    by (simp add: marshal_reservation_def wf_members_append wf_omits valid_reservation_fields)
qed

text \<open>An object of the schema: distinct allowed names with acceptable values.\<close>

lemma checkMembers_ok:
  assumes "distinct (map fst kvs)" and "set (map fst kvs) \<inter> set seen = {}"
    and "\<forall>kv \<in> set kvs. allowed path (fst kv) \<and> checkValue allowed (path @ [fst kv]) (depth + 1) (snd kv) = None"
  shows "checkMembers allowed path depth seen kvs = None"
  using assms
proof (induction kvs arbitrary: seen)
  case (Cons kv kvs)
  then have "checkMembers allowed path depth (fst kv # seen) kvs = None" by auto
  with Cons.prems show ?case by (simp del: checkValue.simps)
qed simp

lemma allowedReservationField_simps:
  "allowedReservationField [] k \<longleftrightarrow> k \<in> {''version'', ''fence'', ''maxJobs'', ''maxPerRequester'', ''workerSlots'',
     ''lastGrantedRequesterHash'', ''active''}"
  "allowedReservationField [p] k \<longleftrightarrow> p = ''active''"
  "allowedReservationField [p, q] k \<longleftrightarrow> p = ''active'' \<and> k \<in> set reservation_fields"
  by (simp_all add: allowedReservationField_def)

text \<open>The names that an entry writes, in the order of the fields.\<close>

lemma subseq_omits:
  "subseq b c \<Longrightarrow> subseq (map fst (omitempty k s) @ b) (k # c)"
  "subseq b c \<Longrightarrow> subseq (map fst (omit_false k t) @ b) (k # c)"
  "subseq b c \<Longrightarrow> subseq (map fst (omit_zero k w) @ b) (k # c)"
  "subseq (map fst (omit_strs k xs)) [k]"
  by (auto simp: omitempty_def omit_false_def omit_zero_def omit_strs_def)

lemma reservation_names:
  assumes "marshal_reservation e = JObj kvs"
  shows "subseq (map fst kvs) reservation_fields"
proof -
  from assms have kvs: "kvs = [(''buildName'', JStr (RBuildName e)), (''requester'', JStr (RRequester e)),
      (''slots'', JNum (dec_int (RSlots e)))] @
     omitempty ''grantNonce'' (RGrantNonce e) @ omit_zero ''grantFence'' (RGrantFence e) @
     omitempty ''grantObservedRV'' (RGrantObservedRV e) @ omitempty ''grantReceiptUID'' (RGrantReceiptUID e) @
     omitempty ''grantReceiptDigest'' (RGrantReceiptDigest e) @
     omit_false ''grantCleanupReady'' (RGrantCleanupReady e) @
     omitempty ''podAttemptNonce'' (RPodAttemptNonce e) @ omitempty ''podTemplateDigest'' (RPodTemplateDigest e) @
     omitempty ''podReceiptUID'' (RPodReceiptUID e) @ omitempty ''podReceiptDigest'' (RPodReceiptDigest e) @
     omit_false ''podCleanupReady'' (RPodCleanupReady e) @ omit_false ''closing'' (RClosing e) @
     omit_strs ''inFlight'' (RInFlight e)"
    by (simp add: marshal_reservation_def)
  show ?thesis
    unfolding kvs reservation_fields_def map_append list.map append.simps fst_conv
    by (intro subseq_omits list_emb_Cons2 HOL.refl)
qed

lemma check_omits:
  "kv \<in> set (omitempty k s) \<Longrightarrow> checkValue f p 3 (snd kv) = None"
  "kv \<in> set (omit_false k b) \<Longrightarrow> checkValue f p 3 (snd kv) = None"
  "kv \<in> set (omit_zero k w) \<Longrightarrow> checkValue f p 3 (snd kv) = None"
  "kv \<in> set (omit_strs k xs) \<Longrightarrow> checkValue f p 3 (snd kv) = None"
proof -
  have elems: "checkElems f p 3 (map JStr ys) = None" for ys by (induction ys) auto
  then show "kv \<in> set (omit_strs k xs) \<Longrightarrow> checkValue f p 3 (snd kv) = None"
    by (auto simp: omit_strs_def split: if_splits)
qed (auto simp: omitempty_def omit_false_def omit_zero_def split: if_splits)

lemma reservation_values:
  assumes "marshal_reservation e = JObj kvs" and "kv \<in> set kvs"
  shows "checkValue f p 3 (snd kv) = None"
  using assms(2) unfolding json.inject(5) [THEN iffD1, OF assms(1) [unfolded marshal_reservation_def], symmetric]
    set_append Un_iff
  by (elim disjE check_omits) auto

lemma check_marshal_reservation:
  "checkValue allowedReservationField [''active'', key] 2 (marshal_reservation e) = None"
proof -
  obtain kvs where kvs: "marshal_reservation e = JObj kvs" by (simp add: marshal_reservation_def)
  obtain N where names: "map fst kvs = nths reservation_fields N"
    using reservation_names [OF kvs] by (auto simp: subseq_conv_nths)
  have "distinct reservation_fields" by (simp add: reservation_fields_def)
  then have "distinct (map fst kvs)" unfolding names by (rule distinct_nthsI)
  moreover have "fst ` set kvs \<subseteq> set reservation_fields"
    using set_nths_subset [of reservation_fields N] unfolding names [symmetric] by simp
  ultimately have "checkMembers allowedReservationField [''active'', key] 2 [] kvs = None"
    using reservation_values [OF kvs]
    by (intro checkMembers_ok) (auto simp: allowedReservationField_simps simp del: checkValue.simps)
  then show ?thesis by (simp add: kvs)
qed

lemma header_names:
  "distinct (map fst ([(''version'', a), (''fence'', b), (''maxJobs'', c), (''maxPerRequester'', d), (''workerSlots'', f)] @
     omitempty ''lastGrantedRequesterHash'' h @ [(''active'', g)]))"
  by (simp add: omitempty_def)

lemma check_marshal_reservations:
  assumes "RActive s = Some es" and "go_map es"
  shows "checkValue allowedReservationField [] 0 (marshal_reservations s) = None"
proof -
  have entry: "checkValue allowedReservationField [''active''] 1 (JObj (map (\<lambda>(k, e). (k, marshal_reservation e)) es)) = None"
    using go_map_distinct [OF assms(2)] check_marshal_reservation
    unfolding checkValue.simps [of _ _ 1] by (auto simp: comp_def case_prod_beta allowedReservationField_simps
        numeral_2_eq_2 simp del: checkValue.simps intro!: checkMembers_ok)
  have "checkMembers allowedReservationField [] 0 [] ([(''version'', JNum (dec_int (RVersion s))),
      (''fence'', JNum (dec (unat (Fence s)))), (''maxJobs'', JNum (dec_int (MaxJobs s))),
      (''maxPerRequester'', JNum (dec_int (MaxPerRequester s))), (''workerSlots'', JNum (dec_int (WorkerSlots s)))] @
      omitempty ''lastGrantedRequesterHash'' (LastGrantedRequesterHash s) @
      [(''active'', JObj (map (\<lambda>(k, e). (k, marshal_reservation e)) es))]) = None"
    using entry by (intro checkMembers_ok header_names)
      (auto simp: omitempty_def allowedReservationField_simps split: if_splits)
  then show ?thesis using assms(1) by (simp add: marshal_reservations_def)
qed

lemma unmarshal_marshal_reservations:
  assumes "valid_header s" and "RActive s = Some es" and "go_map es"
    and "\<forall>e \<in> set es. valid_reservation x (RVersion s) (WorkerSlots s) e"
  shows "unmarshal_reservations (marshal_reservations s) = Some s"
proof -
  have "\<forall>kv \<in> set es. unmarshal_reservation (marshal_reservation (snd kv)) = Some (snd kv)"
  proof
    fix kv assume "kv \<in> set es"
    with assms(4) valid_reservation_slots [of x "RVersion s" "WorkerSlots s" "fst kv" "snd kv"]
    have "1 \<le> RSlots (snd kv) \<and> RSlots (snd kv) \<le> WorkerSlots s" by simp
    then have "int64 (RSlots (snd kv))" using assms(1) by (auto simp: valid_header_def capacity_error_def int64_def)
    then show "unmarshal_reservation (marshal_reservation (snd kv)) = Some (snd kv)"
      by (rule unmarshal_marshal_reservation)
  qed
  with assms(3) have m: "unmarshal_entries unmarshal_reservation (map (\<lambda>(k, e). (k, marshal_reservation e)) es) = Some es"
    by (rule unmarshal_entries_map)
  have "ParseInt (dec_int (RVersion s)) = Some (RVersion s)" "ParseInt (dec_int (MaxJobs s)) = Some (MaxJobs s)"
    "ParseInt (dec_int (MaxPerRequester s)) = Some (MaxPerRequester s)"
    "ParseInt (dec_int (WorkerSlots s)) = Some (WorkerSlots s)"
    using assms(1) by (auto simp: valid_header_def capacity_error_def intro!: ParseInt_dec_int)
  with m assms(2) show ?thesis
    by (cases s) (simp add: marshal_reservations_def field_simps to_word_dec)
qed

lemma decode_marshal_reservations:
  assumes "validateReservationState x s = None" and "dns_names x" and "RActive s = Some es" and "go_map es"
  shows "Decode (print_json (marshal_reservations s)) unmarshal_reservations allowedReservationField = Inr s"
proof (rule Decode_print)
  have header: "valid_header s" and entries: "\<forall>e \<in> set es. valid_reservation x (RVersion s) (WorkerSlots s) e"
    using assms(1,3) by (auto simp: validateReservationState_iff)
  have "wf_members (map (\<lambda>(k, e). (k, marshal_reservation e)) es)"
    using entries wf_marshal_reservation [OF _ assms(2)] by (fastforce simp: wf_members_iff)
  moreover have "plain_le 64 (LastGrantedRequesterHash s)"
    using header by (auto simp: valid_header_def intro: plain_le_hex)
  ultimately show "wf_json (marshal_reservations s)"
    using assms(3) plain_le_valid
    by (auto simp: marshal_reservations_def wf_members_append wf_omits valid_reservation_fields)
  show "checkValue allowedReservationField [] 0 (marshal_reservations s) = None"
    by (rule check_marshal_reservations [OF assms(3,4)])
  show "unmarshal_reservations (marshal_reservations s) = Some s"
    by (rule unmarshal_marshal_reservations [OF header assms(3,4) entries])
qed

lemma print_json_nonempty: "print_json (JObj kvs) \<noteq> []"
  by simp

lemma decode_encode_reservations:
  assumes "validateReservationState x s = None" and "dns_names x" and "RActive s = Some es" and "go_map es"
    and "Data cm = [(reservationDataKey, print_json (marshal_reservations s))]" and "BinaryData cm = []"
  shows "decodeReservations x cm = Inr s"
proof -
  have "print_json (marshal_reservations s) \<noteq> []" by (simp add: marshal_reservations_def)
  then show ?thesis
    using decode_marshal_reservations [OF assms(1-4)] encodeReservations_valid(2) [OF assms(1,2)] assms(1,5,6)
    by (simp add: decodeReservations_def mget_def)
qed

section \<open>Properties\<close>

definition sample_reservation :: activeReservation where
  "sample_reservation = \<lparr>RBuildName = ''build-1'', RRequester = ''alice'', RSlots = 2,
     RGrantNonce = replicate 32 (CHR ''a''), RGrantFence = 7, RGrantObservedRV = ''41'', RGrantReceiptUID = ''receipt-1'',
     RGrantReceiptDigest = ''sha256:'' @ replicate 64 (CHR ''b''), RGrantCleanupReady = False,
     RPodAttemptNonce = replicate 32 (CHR ''c''), RPodTemplateDigest = ''sha256:'' @ replicate 64 (CHR ''d''),
     RPodReceiptUID = ''receipt-2'', RPodReceiptDigest = ''sha256:'' @ replicate 64 (CHR ''e''),
     RPodCleanupReady = False, RClosing = False, RInFlight = [replicate 32 (CHR ''c'')]\<rparr>"

definition sample_reservations :: reservationState where
  "sample_reservations = \<lparr>RVersion = 2, Fence = 7, MaxJobs = 4, MaxPerRequester = 2, WorkerSlots = 4,
     LastGrantedRequesterHash = replicate 64 (CHR ''f''),
     RActive = Some [(''uid-1'', sample_reservation), (''uid-2'', sample_reservation\<lparr>RBuildName := ''build-2''\<rparr>)]\<rparr>"

lemma runes_ascii: "\<forall>c \<in> set s. code c < 128 \<Longrightarrow> runes s = map code s"
proof (induction s)
  case (Cons c s)
  then show ?case by (subst runes.simps) (simp add: rune_at_def)
qed (simp add: runes.simps)

lemma RuneCount_le: "length s \<le> n \<Longrightarrow> \<not> n < RuneCountInString s"
  using RuneCountInString_le_length [of s] by simp

lemmas reservation_eval = validReservationHex_def validGrantReceiptUID_def validGrantObservedRV_def
  validGrantReceiptDigest_def invalid_reservation_def legacy_with_grant_def invalid_grant_state_def capacity_error_def
  rfc1123_def rfc1123_subdomain_def alnum_def byte_class_defs HasPrefix_def TrimPrefix_def list_all_iff
  ValidString_ascii RuneCount_le runes_ascii Let_def IsSpace_def IsControl_def

lemma sample_reservations_valid: "validateReservationState rfc1123 sample_reservations = None"
  by (simp add: sample_reservations_def sample_reservation_def validateReservationState_def reservation_eval)

text \<open>C23: Go iterates a map in a random order. Whether \<open>validateReservationState\<close> accepts a ledger does
  not depend on that order, and a ledger it accepts books no more jobs, worker slots or jobs of one
  requester than its limits.\<close>

theorem reservation_validate_limits:
  assumes "mset es = mset fs"
  shows "(validateReservationState x (s\<lparr>RActive := Some es\<rparr>) = None \<longleftrightarrow>
      validateReservationState x (s\<lparr>RActive := Some fs\<rparr>) = None) \<and>
    (validateReservationState x (s\<lparr>RActive := Some es\<rparr>) = None \<longrightarrow> int (length fs) \<le> MaxJobs s \<and>
      used_slots fs \<le> WorkerSlots s \<and> (\<forall>q. int (jobs_of q fs) \<le> MaxPerRequester s))"
  using within_limits_perm [OF assms, of s] mset_eq_setD [OF assms] used_slots_perm [OF assms] jobs_of_perm [OF assms]
    mset_eq_length [OF assms]
  by (auto simp: validateReservationState_iff valid_header_def) (auto simp: within_limits_def)

theorem reservation_validate_limits_witness:
  "used_slots [(''b'', sample_reservation), (''a'', sample_reservation)] \<le> 4"
proof -
  have "validateReservationState rfc1123
     (sample_reservations\<lparr>RActive := Some [(''a'', sample_reservation), (''b'', sample_reservation)]\<rparr>) = None"
    by (simp add: sample_reservations_def sample_reservation_def validateReservationState_def reservation_eval)
  moreover have "mset [(''a'', sample_reservation), (''b'', sample_reservation)] =
      mset [(''b'', sample_reservation), (''a'', sample_reservation)]" by simp
  note reservation_validate_limits [OF this, of rfc1123 sample_reservations]
  ultimately show ?thesis by (simp add: sample_reservations_def)
qed

text \<open>C22: the size argument in the comment above \<open>ValidateReservationCapacity\<close>, and the round trip. For
  every ledger that \<open>validateReservationState\<close> accepts \<open>encodeReservations\<close> succeeds within the
  768 KiB guard, and \<open>decodeReservations\<close> reads the same ledger back.\<close>

theorem reservation_decode_encode:
  assumes "validateReservationState x s = None" and "dns_names x" and "RActive s = Some es" and "go_map es"
  shows "\<exists>raw. encodeReservations x s = Inr raw \<and> int (length raw) \<le> maxReservationLedgerBytes \<and>
    (\<forall>cm. Data cm = [(reservationDataKey, raw)] \<longrightarrow> BinaryData cm = [] \<longrightarrow> decodeReservations x cm = Inr s)"
  using encodeReservations_valid [OF assms(1,2)] decode_encode_reservations [OF assms] by blast

theorem reservation_decode_encode_witness:
  "\<exists>raw. encodeReservations rfc1123 sample_reservations = Inr raw \<and>
    decodeReservations rfc1123 \<lparr>cm_meta = empty_meta, Immutable = None, Data = [(reservationDataKey, raw)], BinaryData = []\<rparr>
      = Inr sample_reservations"
proof -
  have "RActive sample_reservations = Some [(''uid-1'', sample_reservation), (''uid-2'', sample_reservation\<lparr>RBuildName := ''build-2''\<rparr>)]"
    by (simp add: sample_reservations_def)
  from reservation_decode_encode [OF sample_reservations_valid dns_names_rfc1123 this]
  show ?thesis by (auto simp: go_map_def less_char_def)
qed

end
