(* ===== verification/Fair_Admission.thy ===== *)
theory Fair_Admission
  imports Reservation_State "HOL-Library.Product_Lexorder"
begin

text \<open>
  The admission decision (\<open>internal/service/buildcontroller/admission.go\<close>): which queued build may
  take worker slots, given the reservations of the active ledger. Candidates are ordered by
  \<open>fairQueue\<close>, one build of each requester per round, and \<open>decideAdmission\<close> allots the free
  capacity along that order. The results: the order is a permutation of the candidates that its
  loop reaches in finitely many rounds; it never puts a more-served requester first; a decision
  never overbooks; all builds admitted against one ledger fit into it together; and free capacity
  is never left idle while an eligible candidate waits.
\<close>

section \<open>Builds\<close>

definition cancellationRequested :: "KovaBuild \<Rightarrow> bool" where
  "cancellationRequested b \<longleftrightarrow> mget (Annotations (build_meta b)) ''kova.cofy.dev/cancellation-requested-at'' \<noteq> []"

definition isTerminalPhase :: "string \<Rightarrow> bool" where
  "isTerminalPhase p \<longleftrightarrow> p \<in> {PhaseSucceeded, PhaseFailed, PhaseCancelled}"

definition reservationKey :: "KovaBuild \<Rightarrow> string" where
  "reservationKey b = (if UID (build_meta b) \<noteq> [] then UID (build_meta b) else ''name:'' @ Name (build_meta b))"

definition requesterKey :: "KovaBuild \<Rightarrow> string" where
  "requesterKey b = (if Username (Requester (Spec b)) \<noteq> [] then Username (Requester (Spec b))
     else ''unknown/'' @ Name (build_meta b))"

definition requestedConcurrency :: "KovaBuild \<Rightarrow> int" where
  "requestedConcurrency b = (if 0 < Concurrency (Build (Spec b)) then Concurrency (Build (Spec b)) else 1)"

definition allocatedConcurrency :: "KovaBuild \<Rightarrow> int" where
  "allocatedConcurrency b = (if 0 < AllocatedConcurrency (Status b) then AllocatedConcurrency (Status b)
     else requestedConcurrency b)"

text \<open>\<open>recoverydrain.IsInertBuildTombstone\<close>.\<close>

definition inertBuildSpec :: KovaBuildSpec where
  "inertBuildSpec = \<lparr>Requester = \<lparr>Username = ''recovery-tombstone'', RequesterUID = []\<rparr>,
     Targets = [\<lparr>Target = ''recovery.invalid/tombstone:never'', Platform = ''linux/amd64''\<rparr>],
     Source = \<lparr>URI = ''https://recovery.invalid/inert'', SourceDigest = ''sha256:'' @ replicate 64 (CHR ''0'')\<rparr>,
     Build = \<lparr>Format = ''oci'', Concurrency = 1, Timeout = 0, OOMCooldown = [], FailFast = False, Verbose = False,
       Vars = []\<rparr>,
     IdempotencyKey = []\<rparr>"

definition IsInertBuildTombstone :: "KovaBuild \<Rightarrow> bool" where
  "IsInertBuildTombstone b \<longleftrightarrow>
     mget (Labels (build_meta b)) ''kova.cofy.dev/recovery-tombstone'' = ''v1'' \<and>
     mget (Annotations (build_meta b)) ''kova.cofy.dev/recovery-tombstone'' \<noteq> [] \<and>
     mget (Annotations (build_meta b)) ''kova.cofy.dev/recovery-epoch-uid'' \<noteq> [] \<and>
     ''kova.cofy.dev/recovery-hold'' \<in> set (Finalizers (build_meta b)) \<and>
     length (OwnerReferences (build_meta b)) = 0 \<and> Spec b = inertBuildSpec"

section \<open>The fair order\<close>

text \<open>
  \<open>buildLess\<close> orders by creation time, then name. It is the order of \<open>build_order\<close>, so that sorting
  with it is \<open>sort_key\<close>: the names of the builds of a namespace are distinct, which leaves
  \<open>sort.Slice\<close> no choice.
\<close>

definition build_order :: "KovaBuild \<Rightarrow> int \<times> string" where
  "build_order b = (CreationTimestamp (build_meta b), Name (build_meta b))"

definition buildLess :: "KovaBuild \<Rightarrow> KovaBuild \<Rightarrow> bool" where
  "buildLess l r =
    (if CreationTimestamp (build_meta l) = CreationTimestamp (build_meta r) then Name (build_meta l) < Name (build_meta r)
     else CreationTimestamp (build_meta l) < CreationTimestamp (build_meta r))"

text \<open>The groups by requester, each sorted.\<close>

definition group_builds :: "KovaBuild list \<Rightarrow> (string, KovaBuild list) gomap" where
  "group_builds builds = fold (\<lambda>b m. mput (requesterKey b)
     (case map_of m (requesterKey b) of None \<Rightarrow> [b] | Some g \<Rightarrow> g @ [b]) m) builds []"

definition sorted_groups :: "KovaBuild list \<Rightarrow> (string, KovaBuild list) gomap" where
  "sorted_groups builds = map (\<lambda>(q, g). (q, sort_key build_order g)) (group_builds builds)"

text \<open>The order of the requesters: grants held, then the oldest queued build, then the name.\<close>

definition requester_key :: "(string \<Rightarrow> int) \<Rightarrow> string \<times> KovaBuild list \<Rightarrow> int \<times> (int \<times> string) \<times> string" where
  "requester_key act = (\<lambda>(q, g). (act q, build_order (hd g), q))"

definition sorted_requesters :: "(string \<Rightarrow> int) \<Rightarrow> (string, KovaBuild list) gomap \<Rightarrow> string list" where
  "sorted_requesters act groups = map fst (sort_key (requester_key act) groups)"

text \<open>The rotation within the tier of the requester granted last.\<close>

fun tier_start :: "(string \<Rightarrow> int) \<Rightarrow> string list \<Rightarrow> int \<Rightarrow> nat \<Rightarrow> nat" where
  "tier_start act qs n 0 = 0"
| "tier_start act qs n (Suc i) = (if act (qs ! i) = n then tier_start act qs n i else Suc i)"

definition tier_end :: "(string \<Rightarrow> int) \<Rightarrow> string list \<Rightarrow> int \<Rightarrow> nat \<Rightarrow> nat" where
  "tier_end act qs n i = i + length (takeWhile (\<lambda>q. act q = n) (drop i qs))"

fun find_index :: "('a \<Rightarrow> bool) \<Rightarrow> 'a list \<Rightarrow> nat option" where
  "find_index P [] = None"
| "find_index P (a # as) = (if P a then Some 0 else map_option Suc (find_index P as))"

definition rotate_tier :: "(string \<Rightarrow> int) \<Rightarrow> string \<Rightarrow> string list \<Rightarrow> string list" where
  "rotate_tier act lastHash qs =
    (case find_index (\<lambda>q. HashRequester q = lastHash) qs of
       None \<Rightarrow> qs
     | Some i \<Rightarrow>
         let start = tier_start act qs (act (qs ! i)) i;
             finish = tier_end act qs (act (qs ! i)) (i + 1);
             rotated = drop (i + 1) (take finish qs) @ drop start (take (i + 1) qs) in
         take start qs @ rotated @ drop finish qs)"

text \<open>
  The rounds. The loop of the source runs until every build is placed; \<open>fuel\<close> bounds the rounds,
  and \<open>None\<close> is running out of it.
\<close>

definition round_picks :: "(string, KovaBuild list) gomap \<Rightarrow> string list \<Rightarrow> nat \<Rightarrow> KovaBuild list" where
  "round_picks groups qs n = concat (map (\<lambda>q. case map_of groups q of
       None \<Rightarrow> [] | Some g \<Rightarrow> if n < length g then [g ! n] else []) qs)"

fun fair_rounds :: "nat \<Rightarrow> nat \<Rightarrow> (string, KovaBuild list) gomap \<Rightarrow> string list \<Rightarrow> nat \<Rightarrow> KovaBuild list \<Rightarrow> KovaBuild list option" where
  "fair_rounds 0 want groups qs n ordered = (if length ordered < want then None else Some ordered)"
| "fair_rounds (Suc fuel) want groups qs n ordered =
    (if length ordered < want
     then fair_rounds fuel want groups qs (n + 1) (ordered @ round_picks groups qs n)
     else Some ordered)"

definition fair_loop :: "KovaBuild list \<Rightarrow> (string \<Rightarrow> int) \<Rightarrow> string \<Rightarrow> KovaBuild list option" where
  "fair_loop builds act lastHash =
    (let groups = sorted_groups builds; qs = rotate_tier act lastHash (sorted_requesters act groups) in
     fair_rounds (length builds) (length builds) groups qs 0 [])"

definition fairQueue :: "KovaBuild list \<Rightarrow> (string \<Rightarrow> int) \<Rightarrow> string \<Rightarrow> KovaBuild list" where
  "fairQueue builds act lastHash = (case fair_loop builds act lastHash of None \<Rightarrow> [] | Some ordered \<Rightarrow> ordered)"

section \<open>The decision\<close>

record admissionDecision =
  Admitted :: bool
  Allocation :: int
  DecisionMessage :: string
  Deferred :: bool

definition waiting :: "string \<Rightarrow> admissionDecision" where
  "waiting m = \<lparr>Admitted = False, Allocation = 0, DecisionMessage = m, Deferred = False\<rparr>"

definition granting :: "int \<Rightarrow> admissionDecision" where
  "granting n = \<lparr>Admitted = True, Allocation = n, DecisionMessage = [], Deferred = False\<rparr>"

definition locally_deferred :: admissionDecision where
  "locally_deferred = \<lparr>Admitted = False, Allocation = 0, DecisionMessage = [], Deferred = True\<rparr>"

definition saturatedAdmission ::
  "KovaBuild \<Rightarrow> (string, activeReservation) gomap \<Rightarrow> int \<Rightarrow> int \<Rightarrow> int \<Rightarrow> admissionDecision option" where
  "saturatedAdmission build active maxJobs maxRequesterJobs workerSlots =
    (if 0 < maxJobs \<and> maxJobs \<le> int (length active) then Some (waiting ''waiting for an active job slot'')
     else if 0 < workerSlots \<and> workerSlots \<le> used_slots active then Some (waiting ''waiting for worker capacity'')
     else if 0 < maxRequesterJobs \<and> maxRequesterJobs \<le> int (jobs_of (requesterKey build) active)
     then Some (waiting ''waiting for fair-share capacity'')
     else None)"

definition active_slots :: "(string, activeReservation) gomap \<Rightarrow> string \<Rightarrow> int" where
  "active_slots active k = (case map_of active k of None \<Rightarrow> 0 | Some e \<Rightarrow> RSlots e)"

definition queuedAdmissionCandidates :: "KovaBuild list \<Rightarrow> (string, activeReservation) gomap \<Rightarrow> KovaBuild list" where
  "queuedAdmissionCandidates builds active = filter (\<lambda>b.
     \<not> IsInertBuildTombstone b \<and> DeletionTimestamp (build_meta b) = None \<and> \<not> cancellationRequested b \<and>
     (Phase (Status b) = [] \<or> Phase (Status b) = PhaseQueued) \<and> active_slots active (reservationKey b) = 0) builds"

text \<open>The loop over the candidates, with the grants of each requester and the free capacity.\<close>

fun decide_from ::
  "string \<Rightarrow> int \<Rightarrow> bool \<Rightarrow> (string \<Rightarrow> int) \<Rightarrow> int \<Rightarrow> int \<Rightarrow> KovaBuild list \<Rightarrow> admissionDecision" where
  "decide_from key maxRequesterJobs boundedSlots act jobs slots [] = waiting ''waiting for fair-share capacity''"
| "decide_from key maxRequesterJobs boundedSlots act jobs slots (c # cs) =
    (let q = requesterKey c in
     if 0 < maxRequesterJobs \<and> maxRequesterJobs \<le> act q
     then decide_from key maxRequesterJobs boundedSlots act jobs slots cs
     else
       let allocation = (if boundedSlots \<and> slots < requestedConcurrency c then slots else requestedConcurrency c) in
       if allocation \<le> 0 \<or> jobs \<le> 0 then waiting ''waiting for fair-share capacity''
       else if reservationKey c = key then granting allocation
       else decide_from key maxRequesterJobs boundedSlots (act(q := act q + 1)) (jobs - 1)
         (if boundedSlots then slots - allocation else slots) cs)"

definition decideAdmission ::
  "KovaBuild \<Rightarrow> KovaBuild list \<Rightarrow> (string, activeReservation) gomap \<Rightarrow> int \<Rightarrow> int \<Rightarrow> int \<Rightarrow> string \<Rightarrow> admissionDecision"
where
  "decideAdmission build builds active maxJobs maxRequesterJobs workerSlots lastHash =
    (let act = (\<lambda>q. int (jobs_of q active));
         queued = queuedAdmissionCandidates builds active;
         jobCapacity = (if 0 < maxJobs then maxJobs - int (length active) else int (length queued));
         slotCapacity = (if 0 < workerSlots then workerSlots - used_slots active else 0) in
     if 0 < maxJobs \<and> jobCapacity \<le> 0 then waiting ''waiting for an active job slot''
     else if 0 < workerSlots \<and> slotCapacity \<le> 0 then waiting ''waiting for worker capacity''
     else decide_from (reservationKey build) maxRequesterJobs (0 < workerSlots) act jobCapacity slotCapacity
       (fairQueue queued act lastHash))"

section \<open>The order is a permutation\<close>

lemma buildLess_key: "buildLess a b \<longleftrightarrow> build_order a < build_order b"
  by (auto simp: buildLess_def build_order_def)

definition group_of :: "KovaBuild list \<Rightarrow> string \<Rightarrow> KovaBuild list" where
  "group_of builds q = filter (\<lambda>b. requesterKey b = q) builds"

lemma group_builds_spec:
  "go_map (group_builds builds) \<and>
   map_of (group_builds builds) q = (if group_of builds q = [] then None else Some (group_of builds q))"
proof (induction builds arbitrary: q rule: rev_induct)
  case (snoc b builds)
  let ?k = "requesterKey b"
  have step: "group_builds (builds @ [b]) = mput ?k
      (case map_of (group_builds builds) ?k of None \<Rightarrow> [b] | Some g \<Rightarrow> g @ [b]) (group_builds builds)"
    by (simp add: group_builds_def)
  show ?case
    using snoc.IH [of q] snoc.IH [of ?k] unfolding step
    by (auto simp: gomap_simps group_of_def)
qed (simp add: group_builds_def group_of_def)

definition fair_group :: "KovaBuild list \<Rightarrow> string \<Rightarrow> KovaBuild list" where
  "fair_group builds q = sort_key build_order (group_of builds q)"

lemma map_of_sorted_groups:
  "map_of (sorted_groups builds) q = (if group_of builds q = [] then None else Some (fair_group builds q))"
  using group_builds_spec [of builds q]
  by (simp add: sorted_groups_def map_of_map fair_group_def)

lemma distinct_sorted_groups: "distinct (map fst (sorted_groups builds))"
  using go_map_distinct [OF conjunct1 [OF group_builds_spec [of builds "[]"]]]
  by (simp add: sorted_groups_def comp_def case_prod_beta)

lemma keys_sorted_groups: "fst ` set (sorted_groups builds) = requesterKey ` set builds"
proof -
  have "q \<in> fst ` set (sorted_groups builds) \<longleftrightarrow> q \<in> requesterKey ` set builds" for q
    using map_of_sorted_groups [of builds q] map_of_eq_None_iff [of "sorted_groups builds" q]
    by (auto simp: group_of_def filter_empty_conv split: if_splits)
  then show ?thesis by blast
qed

definition round_pick :: "KovaBuild list \<Rightarrow> nat \<Rightarrow> string \<Rightarrow> KovaBuild list" where
  "round_pick builds n q = (if n < length (fair_group builds q) then [fair_group builds q ! n] else [])"

lemma round_picks_alt: "round_picks (sorted_groups builds) qs n = concat (map (round_pick builds n) qs)"
  by (auto simp: round_picks_def round_pick_def map_of_sorted_groups fair_group_def intro!: arg_cong [of _ _ concat])

definition rounds_upto :: "KovaBuild list \<Rightarrow> string list \<Rightarrow> nat \<Rightarrow> KovaBuild list" where
  "rounds_upto builds qs n = concat (map (\<lambda>m. concat (map (round_pick builds m) qs)) [0..<n])"

lemma rounds_upto_Suc: "rounds_upto builds qs (Suc n) = rounds_upto builds qs n @ concat (map (round_pick builds n) qs)"
  by (simp add: rounds_upto_def)

lemma mset_round_pick:
  "mset (take n (fair_group builds q)) + mset (round_pick builds n q) = mset (take (Suc n) (fair_group builds q))"
  by (auto simp: round_pick_def take_Suc_conv_app_nth)

lemma mset_rounds_upto:
  "mset (rounds_upto builds qs n) = sum_list (map (\<lambda>q. mset (take n (fair_group builds q))) qs)"
proof (induction n)
  case (Suc n)
  then show ?case
    by (simp add: rounds_upto_Suc mset_concat comp_def sum_list_addf [symmetric] mset_round_pick)
qed (simp add: rounds_upto_def)

lemma sum_indicator: "distinct qs \<Longrightarrow> sum_list (map (\<lambda>q. if k = q then M else {#}) qs) = (if k \<in> set qs then M else {#})"
  by (induction qs) auto

lemma mset_groups:
  assumes "distinct qs" and "requesterKey ` set builds \<subseteq> set qs"
  shows "sum_list (map (\<lambda>q. mset (group_of builds q)) qs) = mset builds"
  using assms(2)
proof (induction builds)
  case (Cons b builds)
  have "sum_list (map (\<lambda>q. if requesterKey b = q then {#b#} else {#}) qs) = {#b#}"
    using sum_indicator [OF assms(1), of "requesterKey b" "{#b#}"] Cons.prems by simp
  moreover have "mset (group_of (b # builds) q) = (if requesterKey b = q then {#b#} else {#}) + mset (group_of builds q)" for q
    by (simp add: group_of_def)
  ultimately show ?case using Cons by (simp add: sum_list_addf)
qed (simp add: group_of_def)

lemma mset_all_rounds:
  assumes "distinct qs" and "set qs = requesterKey ` set builds"
  shows "mset (rounds_upto builds qs (length builds)) = mset builds"
proof -
  have "length (fair_group builds q) \<le> length builds" for q by (simp add: fair_group_def group_of_def)
  then have "mset (take (length builds) (fair_group builds q)) = mset (group_of builds q)" for q
    by (simp add: fair_group_def)
  then show ?thesis using mset_groups [OF assms(1), of builds] assms(2) by (simp add: mset_rounds_upto)
qed

lemma rounds_upto_add: "\<exists>zs. rounds_upto builds qs (n + k) = rounds_upto builds qs n @ zs"
  by (induction k) (auto simp: rounds_upto_Suc)

lemma fair_rounds_upto:
  assumes "length (rounds_upto builds qs (n + fuel)) = want"
  shows "fair_rounds fuel want (sorted_groups builds) qs n (rounds_upto builds qs n) = Some (rounds_upto builds qs (n + fuel))"
  using assms
proof (induction fuel arbitrary: n)
  case (Suc fuel)
  show ?case
  proof (cases "length (rounds_upto builds qs n) < want")
    case True
    with Suc.IH [of "n + 1"] Suc.prems show ?thesis by (simp add: round_picks_alt rounds_upto_Suc)
  next
    case False
    with rounds_upto_add [of builds qs n "Suc fuel"] Suc.prems show ?thesis by auto
  qed
qed simp

section \<open>The order of the requesters\<close>

text \<open>\<open>before xs a b\<close>: some \<open>a\<close> stands before some \<open>b\<close> in \<open>xs\<close>.\<close>

definition before :: "'a list \<Rightarrow> 'a \<Rightarrow> 'a \<Rightarrow> bool" where
  "before xs a b \<longleftrightarrow> (\<exists>us vs. xs = us @ vs \<and> a \<in> set us \<and> b \<in> set vs)"

lemma before_append: "a \<in> set us \<Longrightarrow> b \<in> set vs \<Longrightarrow> before (us @ vs) a b"
  by (auto simp: before_def)

lemma before_extend: "before xs a b \<Longrightarrow> before (us @ xs @ vs) a b"
  unfolding before_def by (metis Un_iff append.assoc set_append)

lemma before_sorted:
  assumes "sorted (map f qs)" and "p \<in> set qs" and "q \<in> set qs" and "f p < (f q :: int)"
  shows "before qs p q"
  using assms(1-3)
proof (induction qs)
  case (Cons a qs)
  have "p = a \<and> q \<in> set qs" if "\<not> (p \<in> set qs \<and> q \<in> set qs)"
    using that Cons.prems assms(4) by auto
  then show ?case
  proof (cases "p \<in> set qs \<and> q \<in> set qs")
    case True
    with Cons before_extend [of qs p q "[a]" "[]"] show ?thesis by simp
  next
    case False
    then have "p = a" "q \<in> set qs" using \<open>\<not> _ \<Longrightarrow> p = a \<and> _\<close> by auto
    then show ?thesis using before_append [of p "[a]" q qs] by simp
  qed
qed simp

lemma find_index_Some: "find_index P xs = Some i \<Longrightarrow> i < length xs \<and> P (xs ! i)"
  by (induction xs arbitrary: i) (auto split: if_splits)

lemma tier_start_spec:
  "i \<le> length qs \<Longrightarrow> tier_start act qs n i \<le> i \<and> (\<forall>j. tier_start act qs n i \<le> j \<longrightarrow> j < i \<longrightarrow> act (qs ! j) = n) \<and>
    (0 < tier_start act qs n i \<longrightarrow> act (qs ! (tier_start act qs n i - 1)) \<noteq> n)"
proof (induction i)
  case (Suc i)
  then show ?case by (auto simp: less_Suc_eq)
qed simp

lemma tier_end_spec:
  assumes "i \<le> length qs"
  shows "i \<le> tier_end act qs n i" "tier_end act qs n i \<le> length qs"
    and "\<forall>q \<in> set (drop i (take (tier_end act qs n i) qs)). act q = n"
    and "tier_end act qs n i < length qs \<longrightarrow> act (qs ! tier_end act qs n i) \<noteq> n"
proof -
  let ?w = "takeWhile (\<lambda>q. act q = n) (drop i qs)"
  have le: "length ?w \<le> length qs - i" using length_takeWhile_le [of _ "drop i qs"] by simp
  show "i \<le> tier_end act qs n i" "tier_end act qs n i \<le> length qs"
    using le assms by (simp_all add: tier_end_def)
  have "drop i (take (tier_end act qs n i) qs) = take (length ?w) (drop i qs)"
    by (simp add: tier_end_def drop_take)
  then have "drop i (take (tier_end act qs n i) qs) = ?w" using takeWhile_eq_take by metis
  then show "\<forall>q \<in> set (drop i (take (tier_end act qs n i) qs)). act q = n" by (auto dest: set_takeWhileD)
  show "tier_end act qs n i < length qs \<longrightarrow> act (qs ! tier_end act qs n i) \<noteq> n"
    using nth_length_takeWhile [of "\<lambda>q. act q = n" "drop i qs"] assms by (auto simp: tier_end_def)
qed

text \<open>
  What the rotation does to the sorted requesters: the tier of the requester found is one block,
  and that requester moves to the end of it.
\<close>

lemma rotate_tier_blocks:
  assumes "find_index (\<lambda>q. HashRequester q = h) qs = Some i" and "sorted (map act qs)"
  obtains L A B R where "qs = L @ A @ [qs ! i] @ B @ R" and "rotate_tier act h qs = L @ B @ A @ [qs ! i] @ R"
    and "\<forall>q \<in> set A \<union> set B. act q = act (qs ! i)" and "\<forall>q \<in> set L. act q < act (qs ! i)" and "\<forall>q \<in> set R. act (qs ! i) < act q"
proof -
  let ?n = "act (qs ! i)"
  define s where "s = tier_start act qs ?n i"
  define f where "f = tier_end act qs ?n (i + 1)"
  have i: "i < length qs" using find_index_Some [OF assms(1)] by blast
  have s: "s \<le> i" "\<And>j. s \<le> j \<Longrightarrow> j < i \<Longrightarrow> act (qs ! j) = ?n" "0 < s \<Longrightarrow> act (qs ! (s - 1)) \<noteq> ?n"
    using tier_start_spec [of i qs act ?n] i by (auto simp: s_def)
  have "i + 1 \<le> length qs" using i by simp
  note f' = tier_end_spec [OF this, of act ?n, folded f_def]
  have f: "i + 1 \<le> f" "f \<le> length qs" "\<forall>q \<in> set (drop (i + 1) (take f qs)). act q = ?n"
    "f < length qs \<Longrightarrow> act (qs ! f) \<noteq> ?n"
    by (rule f'(1), rule f'(2), rule f'(3), rule f'(4) [rule_format])
  have mono: "act (qs ! j) \<le> act (qs ! k)" if "j \<le> k" "k < length qs" for j k
    using sorted_nth_mono [OF assms(2), of j k] that by simp
  let ?L = "take s qs" and ?A = "drop s (take i qs)" and ?B = "drop (i + 1) (take f qs)" and ?R = "drop f qs"
  have take_i: "take (i + 1) qs = take i qs @ [qs ! i]" using i by (simp add: take_Suc_conv_app_nth)
  have "qs = take f qs @ ?R" by simp
  also have "take f qs = take (i + 1) (take f qs) @ ?B" by (rule append_take_drop_id [symmetric])
  also have "take (i + 1) (take f qs) = take i qs @ [qs ! i]" using f(1) take_i by (simp add: min_absorb1)
  also have "take i qs = take s (take i qs) @ ?A" by (rule append_take_drop_id [symmetric])
  also have "take s (take i qs) = ?L" using s(1) by (simp add: min_absorb1)
  finally have split: "qs = ?L @ ?A @ [qs ! i] @ ?B @ ?R" by simp
  have "drop s (take (i + 1) qs) = ?A @ [qs ! i]" unfolding take_i using s(1) i by simp
  then have rot: "rotate_tier act h qs = ?L @ ?B @ ?A @ [qs ! i] @ ?R"
    using assms(1) by (simp add: rotate_tier_def s_def f_def Let_def)
  have "\<forall>q \<in> set ?A. act q = ?n" using s(2) i by (auto simp: in_set_conv_nth)
  moreover have "act q < ?n" if "q \<in> set ?L" for q
  proof -
    obtain j where j: "j < s" "q = qs ! j" using \<open>q \<in> set ?L\<close> by (auto simp: in_set_conv_nth)
    then have "act q \<le> act (qs ! (s - 1))" using s(1) i by (auto intro: mono)
    moreover have "act (qs ! (s - 1)) \<le> ?n" using s(1) i j by (intro mono) auto
    ultimately show ?thesis using s(3) j by force
  qed
  moreover have "?n < act q" if q: "q \<in> set ?R" for q
  proof -
    obtain k where "k < length ?R" "q = ?R ! k" using q by (auto simp: in_set_conv_nth)
    then obtain j where j: "f \<le> j" "j < length qs" "q = qs ! j"
      using f(2) by (intro that [of "f + k"]) auto
    then have "act (qs ! f) \<le> act q" by (auto intro: mono)
    moreover have "?n \<le> act (qs ! f)" using f(1) j by (intro mono) auto
    ultimately show ?thesis using f(4) j by force
  qed
  ultimately show ?thesis using that [OF split rot] f(3) by blast
qed

lemma rotate_tier_perm:
  assumes "sorted (map act qs)"
  shows "mset (rotate_tier act h qs) = mset qs \<and> map act (rotate_tier act h qs) = map act qs"
proof (cases "find_index (\<lambda>q. HashRequester q = h) qs")
  case (Some i)
  obtain L A B R where qs: "qs = L @ A @ [qs ! i] @ B @ R" and rot: "rotate_tier act h qs = L @ B @ A @ [qs ! i] @ R"
    and eq: "\<forall>q \<in> set A \<union> set B. act q = act (qs ! i)"
    using rotate_tier_blocks [OF Some assms] by metis
  have "mset qs = mset (L @ A @ [qs ! i] @ B @ R)" using qs by (rule arg_cong)
  then have "mset (rotate_tier act h qs) = mset qs" by (simp add: rot)
  moreover have same: "map act xs = replicate (length xs) (act (qs ! i))" if "set xs \<subseteq> set A \<union> set B" for xs
    using that eq by (induction xs) auto
  have "map act (A @ [qs ! i] @ B) = map act (B @ A @ [qs ! i])"
    using same [of A] same [of B] by (simp add: replicate_append_same flip: replicate_add replicate_Suc)
  ultimately show ?thesis
    using arg_cong [OF qs, of "map act"] by (simp add: rot)
qed (simp add: rotate_tier_def)

definition fair_requesters :: "KovaBuild list \<Rightarrow> (string \<Rightarrow> int) \<Rightarrow> string \<Rightarrow> string list" where
  "fair_requesters builds act h = rotate_tier act h (sorted_requesters act (sorted_groups builds))"

lemma sorted_requesters_sorted: "sorted (map act (sorted_requesters act groups))"
proof -
  have "sorted (map (requester_key act) (sort_key (requester_key act) groups))" by simp
  then have "sorted (map (\<lambda>g. fst (requester_key act g)) (sort_key (requester_key act) groups))"
    unfolding sorted_map by (rule sorted_wrt_mono_rel [rotated]) (auto simp: less_eq_prod_def)
  then show ?thesis
    by (simp add: sorted_requesters_def requester_key_def case_prod_beta comp_def)
qed

lemma fair_requesters:
  shows "sorted (map act (fair_requesters builds act h))" and "distinct (fair_requesters builds act h)"
    and "set (fair_requesters builds act h) = requesterKey ` set builds"
proof -
  let ?qs = "sorted_requesters act (sorted_groups builds)"
  note rot = rotate_tier_perm [OF sorted_requesters_sorted [of act "sorted_groups builds"], of h]
  show "sorted (map act (fair_requesters builds act h))"
    using rot sorted_requesters_sorted by (simp add: fair_requesters_def)
  have "mset (fair_requesters builds act h) = mset (map fst (sorted_groups builds))"
    using rot by (simp add: fair_requesters_def sorted_requesters_def)
  then show "distinct (fair_requesters builds act h)"
    "set (fair_requesters builds act h) = requesterKey ` set builds"
    using distinct_sorted_groups [of builds] keys_sorted_groups [of builds]
    by (metis mset_eq_imp_distinct_iff) (metis \<open>mset _ = _\<close> keys_sorted_groups list.set_map mset_eq_setD)
qed

lemma fair_loop_upto: "fair_loop builds act h = Some (rounds_upto builds (fair_requesters builds act h) (length builds))"
proof -
  let ?qs = "fair_requesters builds act h"
  have "length (rounds_upto builds ?qs (0 + length builds)) = length builds"
    using arg_cong [OF mset_all_rounds [OF fair_requesters(2,3), of builds act h], of size] by simp
  from fair_rounds_upto [OF this] show ?thesis
    by (simp add: fair_loop_def fair_requesters_def rounds_upto_def)
qed

lemma fairQueue_upto: "fairQueue builds act h = rounds_upto builds (fair_requesters builds act h) (length builds)"
  by (simp add: fairQueue_def fair_loop_upto)

lemma mset_fairQueue: "mset (fairQueue builds act h) = mset builds"
  using mset_all_rounds [OF fair_requesters(2,3)] by (simp add: fairQueue_upto)

section \<open>Who comes first\<close>

text \<open>The builds of the same requester that are older.\<close>

definition queue_rank :: "KovaBuild list \<Rightarrow> KovaBuild \<Rightarrow> nat" where
  "queue_rank builds b = length (filter (\<lambda>c. requesterKey c = requesterKey b \<and> buildLess c b) builds)"

lemma sorted_key_rank:
  assumes "distinct (map f xs)" and "b \<in> set xs"
  shows "sort_key f xs ! length (filter (\<lambda>c. f c < f b) xs) = b" and "length (filter (\<lambda>c. f c < f b) xs) < length xs"
proof -
  let ?ys = "sort_key f xs"
  have sorted: "sorted (map f ?ys)" and dist: "distinct (map f ?ys)"
    using assms(1) by (simp_all add: distinct_map)
  obtain i where i: "i < length ?ys" "?ys ! i = b" using assms(2) by (metis in_set_conv_nth set_sort)
  have strict: "sorted_wrt (<) (map f ?ys)" using sorted dist by (simp add: strict_sorted_iff)
  have less: "f (?ys ! j) < f b \<longleftrightarrow> j < i" if "j < length ?ys" for j
    using that i sorted_wrt_nth_less [OF strict, of j i] sorted_wrt_nth_less [OF strict, of i j]
    by (cases j i rule: linorder_cases) auto
  have "filter (\<lambda>c. f c < f b) ?ys = take i ?ys"
  proof -
    have "filter (\<lambda>c. f c < f b) (take i ?ys) = take i ?ys"
      using i less by (auto simp: filter_id_conv in_set_conv_nth)
    moreover have "filter (\<lambda>c. f c < f b) (drop i ?ys) = []"
      using i less by (auto simp: filter_empty_conv in_set_conv_nth)
    ultimately show ?thesis by (metis append.right_neutral append_take_drop_id filter_append)
  qed
  moreover have "mset (filter (\<lambda>c. f c < f b) ?ys) = mset (filter (\<lambda>c. f c < f b) xs)" by simp
  ultimately have "length (filter (\<lambda>c. f c < f b) xs) = i"
    using i by (metis length_take min.absorb4 size_mset)
  then show "sort_key f xs ! length (filter (\<lambda>c. f c < f b) xs) = b" "length (filter (\<lambda>c. f c < f b) xs) < length xs"
    using i by simp_all
qed

lemma round_pick_rank:
  assumes "distinct (map (\<lambda>b. Name (build_meta b)) builds)" and "b \<in> set builds"
  shows "round_pick builds (queue_rank builds b) (requesterKey b) = [b]" and "queue_rank builds b < length builds"
proof -
  let ?g = "group_of builds (requesterKey b)"
  have "inj_on build_order (set builds)"
    using assms(1) by (auto simp: distinct_map inj_on_def build_order_def)
  moreover have "distinct builds" using assms(1) by (simp add: distinct_map)
  ultimately have d: "distinct (map build_order ?g)"
    by (auto simp: distinct_map group_of_def inj_on_def)
  have b: "b \<in> set ?g" using assms(2) by (simp add: group_of_def)
  have rank: "queue_rank builds b = length (filter (\<lambda>c. build_order c < build_order b) ?g)"
    by (simp add: queue_rank_def group_of_def buildLess_key conj_commute)
  from sorted_key_rank [OF d b] show "round_pick builds (queue_rank builds b) (requesterKey b) = [b]"
    by (simp add: round_pick_def rank fair_group_def)
  have "length ?g \<le> length builds" by (simp add: group_of_def)
  with sorted_key_rank(2) [OF d b] show "queue_rank builds b < length builds" by (simp add: rank)
qed

lemma before_concat:
  assumes "before qs p q" and "b \<in> set (f p)" and "c \<in> set (f q)"
  shows "before (concat (map f qs)) b c"
proof -
  obtain us vs where "qs = us @ vs" "p \<in> set us" "q \<in> set vs" using assms(1) by (auto simp: before_def)
  then show ?thesis
    using assms(2,3) before_append [of b "concat (map f us)" c "concat (map f vs)"] by auto
qed

lemma before_upt:
  assumes "m < n" and "n < k"
  shows "before [0..<k] m n"
proof -
  have "[0..<k] = [0..<n] @ [n..<k]" using assms(2) upt_add_eq_append [of 0 n "k - n"] by simp
  then show ?thesis using assms before_append [of m "[0..<n]" n "[n..<k]"] by simp
qed

lemma rotated_behind:
  assumes "sorted (map act qs)" and "q \<in> set qs" and "p \<in> set qs" and "act p = act q" and "p \<noteq> q"
    and "HashRequester q = h" and "\<forall>r \<in> set qs. HashRequester r = h \<longrightarrow> r = q"
  shows "before (rotate_tier act h qs) p q"
proof -
  have "\<exists>i. find_index (\<lambda>q. HashRequester q = h) qs = Some i"
    using assms(2,6) by (induction qs) auto
  then obtain i where i: "find_index (\<lambda>q. HashRequester q = h) qs = Some i" by blast
  then have "qs ! i = q" using find_index_Some [OF i] assms(7) by simp
  then obtain L A B R where "qs = L @ A @ [q] @ B @ R" and rot: "rotate_tier act h qs = L @ B @ A @ [q] @ R"
    and "\<forall>r \<in> set L. act r < act q" "\<forall>r \<in> set R. act q < act r"
    using rotate_tier_blocks [OF i assms(1)] by metis
  then have "p \<in> set B \<union> set A" using assms(3-5) by auto
  then show ?thesis unfolding rot using before_append [of p "L @ B @ A" q "[q] @ R"] by auto
qed

lemma fair_order:
  assumes "distinct (map (\<lambda>b. Name (build_meta b)) builds)" and "b \<in> set builds" and "c \<in> set builds"
    and "queue_rank builds b < queue_rank builds c \<or>
      queue_rank builds b = queue_rank builds c \<and> before (fair_requesters builds act h) (requesterKey b) (requesterKey c)"
  shows "before (fairQueue builds act h) b c"
proof -
  let ?qs = "fair_requesters builds act h" and ?f = "\<lambda>m. concat (map (round_pick builds m) (fair_requesters builds act h))"
  note rb = round_pick_rank [OF assms(1,2)] and rc = round_pick_rank [OF assms(1,3)]
  have in_b: "b \<in> set (?f (queue_rank builds b))" and in_c: "c \<in> set (?f (queue_rank builds c))"
    using rb(1) rc(1) assms(2,3) by (auto simp: fair_requesters(3) intro: bexI [of _ b] bexI [of _ c])
  show ?thesis
  proof (cases "queue_rank builds b < queue_rank builds c")
    case True
    from before_concat [where f = ?f, OF before_upt [OF True rc(2)] in_b in_c]
    show ?thesis unfolding fairQueue_upto rounds_upto_def .
  next
    case False
    then have eq: "queue_rank builds c = queue_rank builds b" and first: "before ?qs (requesterKey b) (requesterKey c)"
      using assms(4) by auto
    let ?n = "queue_rank builds b"
    have "before (?f ?n) b c"
      using before_concat [where f = "round_pick builds ?n", OF first] rb(1) rc(1) eq by simp
    moreover have "[0..<length builds] = [0..<?n] @ [?n] @ [Suc ?n..<length builds]"
      using rb(2) upt_add_eq_append [of 0 ?n "length builds - ?n"] upt_conv_Cons [of ?n "length builds"] by simp
    then have "fairQueue builds act h = concat (map ?f [0..<?n]) @ ?f ?n @ concat (map ?f [Suc ?n..<length builds])"
      unfolding fairQueue_upto rounds_upto_def by (simp only: map_append concat_append list.map concat.simps append_Nil2)
    ultimately show ?thesis using before_extend by metis
  qed
qed

section \<open>The decision and the allotment it follows\<close>

text \<open>
  The reference definition: one pass along the fair order that allots the free capacity to every
  candidate it can serve. \<open>decide_from\<close> looks up one build in it.
\<close>

fun allot :: "int \<Rightarrow> bool \<Rightarrow> (string \<Rightarrow> int) \<Rightarrow> int \<Rightarrow> int \<Rightarrow> KovaBuild list \<Rightarrow> (KovaBuild \<times> int) list" where
  "allot per bounded act jobs slots [] = []"
| "allot per bounded act jobs slots (c # cs) =
    (let q = requesterKey c; n = (if bounded then min slots (requestedConcurrency c) else requestedConcurrency c) in
     if 0 < per \<and> per \<le> act q then allot per bounded act jobs slots cs
     else if n \<le> 0 \<or> jobs \<le> 0 then []
     else (c, n) # allot per bounded (act(q := act q + 1)) (jobs - 1) (if bounded then slots - n else slots) cs)"

definition lookup_grant :: "string \<Rightarrow> (KovaBuild \<times> int) list \<Rightarrow> int option" where
  "lookup_grant key gs = map_of (map (\<lambda>(c, n). (reservationKey c, n)) gs) key"

lemma lookup_grant_simps [simp]:
  "lookup_grant key [] = None"
  "lookup_grant key ((c, n) # gs) = (if reservationKey c = key then Some n else lookup_grant key gs)"
  by (auto simp: lookup_grant_def)

definition decision_of :: "int option \<Rightarrow> admissionDecision" where
  "decision_of r = (case r of None \<Rightarrow> waiting ''waiting for fair-share capacity'' | Some n \<Rightarrow> granting n)"

lemma decide_from_allot:
  "decide_from key per bounded act jobs slots cs = decision_of (lookup_grant key (allot per bounded act jobs slots cs))"
proof (induction cs arbitrary: act jobs slots)
  case (Cons c cs)
  have alloc: "(if bounded \<and> slots < requestedConcurrency c then slots else requestedConcurrency c) =
      (if bounded then min slots (requestedConcurrency c) else requestedConcurrency c)"
    by (simp add: min_def)
  show ?case
    using Cons.IH by (cases bounded) (simp_all add: Let_def alloc [simplified] decision_of_def del: fun_upd_apply)
qed (simp add: decision_of_def)

definition jobs_for :: "string \<Rightarrow> (KovaBuild \<times> int) list \<Rightarrow> nat" where
  "jobs_for q gs = length (filter (\<lambda>(c, n). requesterKey c = q) gs)"

lemma jobs_for_simps [simp]:
  "jobs_for q [] = 0"
  "jobs_for q ((c, n) # gs) = (if requesterKey c = q then Suc (jobs_for q gs) else jobs_for q gs)"
  by (simp_all add: jobs_for_def)

lemma allot_bounds:
  assumes "0 \<le> jobs" and "0 \<le> slots" and "0 < per"
  shows "int (length (allot per True act jobs slots cs)) \<le> jobs \<and> sum_list (map snd (allot per True act jobs slots cs)) \<le> slots \<and>
    (\<forall>(c, n) \<in> set (allot per True act jobs slots cs). 1 \<le> n \<and> n \<le> requestedConcurrency c \<and> c \<in> set cs) \<and>
    (\<forall>q. act q + int (jobs_for q (allot per True act jobs slots cs)) \<le> max per (act q))"
  using assms
proof (induction cs arbitrary: act jobs slots)
  case (Cons c cs)
  let ?q = "requesterKey c"
  define n where "n = min slots (requestedConcurrency c)"
  define act' where "act' = act(?q := act ?q + 1)"
  let ?rest = "allot per True act' (jobs - 1) (slots - n) cs"
  consider (skip) "per \<le> act ?q" | (stop) "\<not> per \<le> act ?q" "n \<le> 0 \<or> jobs \<le> 0" | (grant) "act ?q < per" "0 < n" "0 < jobs"
    by linarith
  then show ?case
  proof cases
    case skip
    then have step: "allot per True act jobs slots (c # cs) = allot per True act jobs slots cs"
      using Cons.prems by (simp add: Let_def)
    show ?thesis unfolding step using Cons.IH [of jobs slots act] Cons.prems by fastforce
  next
    case stop
    then have step: "allot per True act jobs slots (c # cs) = []" by (auto simp: Let_def n_def)
    show ?thesis unfolding step using Cons.prems by simp
  next
    case grant
    then have step: "allot per True act jobs slots (c # cs) = (c, n) # ?rest"
      unfolding n_def act'_def by (simp add: Let_def del: fun_upd_apply) linarith
    have le: "n \<le> slots" "n \<le> requestedConcurrency c" by (simp_all add: n_def)
    have "0 \<le> jobs - 1" "0 \<le> slots - n" using grant le by simp_all
    note IH = Cons.IH [OF this assms(3), of act']
    have "act q + int (jobs_for q ((c, n) # ?rest)) \<le> max per (act q)" for q
    proof -
      have "act' q + int (jobs_for q ?rest) \<le> max per (act' q)" using IH by blast
      then show ?thesis using grant by (auto simp: act'_def split: if_splits)
    qed
    moreover have "\<forall>(c', m) \<in> set ((c, n) # ?rest). 1 \<le> m \<and> m \<le> requestedConcurrency c' \<and> c' \<in> set (c # cs)"
      using IH grant le by fastforce
    moreover have "int (length ((c, n) # ?rest)) \<le> jobs" "sum_list (map snd ((c, n) # ?rest)) \<le> slots"
      using IH by simp_all
    ultimately show ?thesis unfolding step by blast
  qed
qed simp

definition allotment ::
  "KovaBuild list \<Rightarrow> (string, activeReservation) gomap \<Rightarrow> int \<Rightarrow> int \<Rightarrow> int \<Rightarrow> string \<Rightarrow> (KovaBuild \<times> int) list" where
  "allotment builds active maxJobs maxRequesterJobs workerSlots lastHash =
    (let act = (\<lambda>q. int (jobs_of q active)) in
     allot maxRequesterJobs True act (maxJobs - int (length active)) (workerSlots - used_slots active)
       (fairQueue (queuedAdmissionCandidates builds active) act lastHash))"

lemma decide_lookup:
  assumes "0 < maxJobs" and "0 < workerSlots" and "d = decideAdmission b builds active maxJobs per workerSlots h"
  shows "Admitted d \<longleftrightarrow> lookup_grant (reservationKey b) (allotment builds active maxJobs per workerSlots h) = Some (Allocation d)"
proof -
  have empty: "allot per True act jobs slots cs = []" if "jobs \<le> 0 \<or> slots \<le> 0" for act jobs slots cs
    using that by (induction cs) (auto simp: Let_def)
  consider "maxJobs \<le> int (length active) \<or> workerSlots \<le> used_slots active"
    | "int (length active) < maxJobs" "used_slots active < workerSlots" by linarith
  then show ?thesis
  proof cases
    case 1
    then have "\<not> Admitted d" using assms by (auto simp: decideAdmission_def Let_def waiting_def)
    moreover have "allotment builds active maxJobs per workerSlots h = []"
      using 1 unfolding allotment_def Let_def by (intro empty) auto
    ultimately show ?thesis by simp
  next
    case 2
    then have "d = decision_of (lookup_grant (reservationKey b) (allotment builds active maxJobs per workerSlots h))"
      using assms by (simp add: decideAdmission_def Let_def decide_from_allot allotment_def)
    then show ?thesis by (auto simp: decision_of_def waiting_def granting_def split: option.splits)
  qed
qed

lemma set_candidates: "set (fairQueue (queuedAdmissionCandidates builds active) act h) \<subseteq> set builds"
  using mset_fairQueue [of "queuedAdmissionCandidates builds active" act h, THEN mset_eq_setD]
  by (auto simp: queuedAdmissionCandidates_def)

lemma mset_subset_distinct: "distinct xs \<Longrightarrow> set xs \<subseteq> set ys \<Longrightarrow> mset xs \<subseteq># mset ys"
  by (auto simp: subseteq_mset_def distinct_count_atmost_1 Suc_le_eq)

text \<open>Part of the allotment is within the bounds of all of it.\<close>

lemma sub_allotment:
  assumes "mset xs \<subseteq># mset gs" and "\<forall>(c, n) \<in> set gs. 1 \<le> (n :: int)"
  shows "length xs \<le> length gs" and "sum_list (map snd xs) \<le> sum_list (map snd gs)" and "jobs_for q xs \<le> jobs_for q gs"
proof -
  obtain M where M: "mset gs = mset xs + M" using assms(1) by (auto simp: subset_mset.le_iff_add)
  show "length xs \<le> length gs" using size_mset_mono [OF assms(1)] by simp
  have "set_mset M \<subseteq> set gs" using arg_cong [OF M, of set_mset] by auto
  then have "0 \<le> sum_mset (image_mset snd M)"
    using assms(2) by (induction M) fastforce+
  moreover have "sum_list (map snd gs) = sum_list (map snd xs) + sum_mset (image_mset snd M)"
    using arg_cong [OF M, of "\<lambda>m. sum_mset (image_mset snd m)"] by (simp add: sum_mset_sum_list flip: mset_map)
  ultimately show "sum_list (map snd xs) \<le> sum_list (map snd gs)" by simp
  have "filter_mset (\<lambda>(c, n). requesterKey c = q) (mset gs) = mset (filter (\<lambda>(c, n). requesterKey c = q) xs) +
      filter_mset (\<lambda>(c, n). requesterKey c = q) M" by (simp add: M)
  from arg_cong [OF this, of size] show "jobs_for q xs \<le> jobs_for q gs" by (simp add: jobs_for_def flip: mset_filter)
qed

lemma lookup_grant_in: "lookup_grant k gs = Some n \<Longrightarrow> \<exists>c. (c, n) \<in> set gs \<and> reservationKey c = k"
  by (induction gs) (auto split: if_splits)

lemma admitted_in_allotment:
  assumes "0 < maxJobs" and "0 < workerSlots" and "0 < per" and "int (length active) \<le> maxJobs"
    and "used_slots active \<le> workerSlots" and "distinct (map reservationKey builds)" and "b \<in> set builds"
    and "d = decideAdmission b builds active maxJobs per workerSlots h" and "Admitted d"
  shows "(b, Allocation d) \<in> set (allotment builds active maxJobs per workerSlots h)"
proof -
  obtain c where c: "(c, Allocation d) \<in> set (allotment builds active maxJobs per workerSlots h)" "reservationKey c = reservationKey b"
    using decide_lookup [OF assms(1,2,8)] assms(9) lookup_grant_in by metis
  then have "c \<in> set (fairQueue (queuedAdmissionCandidates builds active) (\<lambda>q. int (jobs_of q active)) h)"
    using allot_bounds [of "maxJobs - int (length active)" "workerSlots - used_slots active" per] assms(3-5)
    unfolding allotment_def Let_def by fastforce
  then have "c \<in> set builds" using set_candidates by blast
  then have "c = b" using c(2) assms(6,7) by (auto simp: distinct_map inj_on_def)
  with c(1) show ?thesis by simp
qed

lemma allot_first:
  assumes "0 < jobs" and "0 < slots" and "c \<in> set cs" and "0 < per" and "act (requesterKey c) < per"
  shows "\<exists>b n. b \<in> set cs \<and> lookup_grant (reservationKey b) (allot per True act jobs slots cs) = Some n"
  using assms(3,5)
proof (induction cs)
  case (Cons a cs)
  show ?case
  proof (cases "per \<le> act (requesterKey a)")
    case True
    with Cons have "c \<in> set cs" by auto
    with Cons True assms(4) show ?thesis by (auto simp: Let_def)
  next
    case False
    moreover have "0 < requestedConcurrency a" by (simp add: requestedConcurrency_def)
    ultimately show ?thesis using assms(1,2) by (intro exI [of _ a]) (auto simp: Let_def min_def)
  qed
qed simp

section \<open>Properties\<close>

definition sample_meta :: "string \<Rightarrow> int \<Rightarrow> objmeta" where
  "sample_meta n t = empty_meta\<lparr>Namespace := ''kova'', Name := n, UID := ''uid-'' @ n, CreationTimestamp := t\<rparr>"

definition queued_build :: "string \<Rightarrow> int \<Rightarrow> string \<Rightarrow> int \<Rightarrow> KovaBuild" where
  "queued_build n t user conc = \<lparr>build_meta = sample_meta n t,
     Spec = inertBuildSpec\<lparr>Requester := \<lparr>Username = user, RequesterUID = []\<rparr>,
       Build := (Build inertBuildSpec)\<lparr>Concurrency := conc\<rparr>\<rparr>,
     Status = \<lparr>Phase = PhaseQueued, ObservedGeneration = 0, AllocatedConcurrency = 0, RunnerPodName = [], GenesisWitness = None,
       GenesisStopIntent = None, Reason = [], Message = [], StartedAt = None, FinishedAt = None, PollFailureSince = None,
       PollFailureCount = 0, VerificationStartedAt = None, VerificationDeadlineAt = None, VerificationNextAttemptAt = None,
       VerificationAttempts = 0, VerificationLastError = [], Conditions = []\<rparr>\<rparr>"

definition queue_ab :: "KovaBuild list" where
  "queue_ab = [queued_build ''a1'' 1 ''alice'' 2, queued_build ''a2'' 2 ''alice'' 2, queued_build ''b1'' 3 ''bob'' 2]"

text \<open>C21: the loop of \<open>fairQueue\<close> ends, after at most as many rounds as there are builds, and the order
  it returns is a permutation of the candidates: no queued build is lost or served twice.\<close>

theorem fairQueue_terminates:
  "\<exists>ordered. fair_loop builds act lastHash = Some ordered \<and> fairQueue builds act lastHash = ordered \<and>
    mset ordered = mset builds"
  using mset_fairQueue [of builds act lastHash] by (simp add: fair_loop_upto fairQueue_upto)

text \<open>C18: the fair order. A build comes before another one when fewer older builds of its own requester
  wait before it; at equal rank, when its requester holds fewer grants; and at equal grants, when the
  other requester was the last one granted.\<close>

theorem fairQueue_order:
  assumes "distinct (map (\<lambda>b. Name (build_meta b)) builds)" and "b \<in> set builds" and "c \<in> set builds"
    and "queue_rank builds b < queue_rank builds c \<or>
      queue_rank builds b = queue_rank builds c \<and>
      (act (requesterKey b) < act (requesterKey c) \<or>
       act (requesterKey b) = act (requesterKey c) \<and> requesterKey b \<noteq> requesterKey c \<and>
       HashRequester (requesterKey c) = lastHash \<and>
       (\<forall>d \<in> set builds. HashRequester (requesterKey d) = lastHash \<longrightarrow> requesterKey d = requesterKey c))"
  shows "before (fairQueue builds act lastHash) b c"
proof (rule fair_order [OF assms(1-3)])
  let ?p = "requesterKey b" and ?q = "requesterKey c" and ?qs = "sorted_requesters act (sorted_groups builds)"
  note qs = fair_requesters [where act = act and builds = builds and h = lastHash]
  have "set ?qs = requesterKey ` set builds" using keys_sorted_groups by (simp add: sorted_requesters_def)
  then have "before (fair_requesters builds act lastHash) ?p ?q"
    if "act ?p = act ?q" "?p \<noteq> ?q" "HashRequester ?q = lastHash"
      "\<forall>d \<in> set builds. HashRequester (requesterKey d) = lastHash \<longrightarrow> requesterKey d = ?q"
    unfolding fair_requesters_def
    by (intro rotated_behind [OF sorted_requesters_sorted _ _ that(1,2,3)]) (use assms(2,3) that(4) in auto)
  moreover have "before (fair_requesters builds act lastHash) ?p ?q" if "act ?p < act ?q"
    using before_sorted [OF qs(1) _ _ that] qs(3) assms(2,3) by simp
  ultimately show "queue_rank builds b < queue_rank builds c \<or>
      queue_rank builds b = queue_rank builds c \<and> before (fair_requesters builds act lastHash) ?p ?q"
    using assms(4) by blast
qed

theorem fairQueue_order_witness:
  "before (fairQueue queue_ab (\<lambda>q. if q = ''alice'' then 1 else 0) []) (queued_build ''b1'' 3 ''bob'' 2) (queued_build ''a1'' 1 ''alice'' 2)"
  by (rule fairQueue_order)
    (simp_all add: queue_ab_def queued_build_def sample_meta_def queue_rank_def buildLess_def requesterKey_def inertBuildSpec_def)

text \<open>C20: \<open>decideAdmission\<close> is the lookup of one build in a single pass that allots the free capacity along
  the fair order, so that two reconciles that read the same ledger agree on who is served.\<close>

theorem decideAdmission_allotment:
  assumes "0 < maxJobs" and "0 < workerSlots"
  shows "(let d = decideAdmission b builds active maxJobs maxRequesterJobs workerSlots lastHash in
     Admitted d \<longleftrightarrow> lookup_grant (reservationKey b) (allotment builds active maxJobs maxRequesterJobs workerSlots lastHash)
       = Some (Allocation d))"
  using decide_lookup [OF assms HOL.refl] by simp

theorem decideAdmission_allotment_witness:
  "Admitted (decideAdmission (queued_build ''b1'' 3 ''bob'' 2) queue_ab [] 2 1 3 []) \<longleftrightarrow>
   lookup_grant ''uid-b1'' (allotment queue_ab [] 2 1 3 []) =
     Some (Allocation (decideAdmission (queued_build ''b1'' 3 ''bob'' 2) queue_ab [] 2 1 3 []))"
  using decideAdmission_allotment [of 2 3 "queued_build ''b1'' 3 ''bob'' 2" queue_ab "[]" 1 "[]"]
  by (simp add: Let_def queued_build_def sample_meta_def reservationKey_def)

text \<open>C17: no overbooking. Even if every build that \<open>decideAdmission\<close> admits against one ledger were granted,
  the worker slots, the active jobs and the jobs of each requester stay within their limits, and each
  build gets at least one slot and at most what it asked for.\<close>

theorem decideAdmission_no_overbooking:
  assumes "0 < maxJobs" and "0 < workerSlots" and "0 < maxRequesterJobs" and "int (length active) \<le> maxJobs"
    and "used_slots active \<le> workerSlots" and "\<forall>q. int (jobs_of q active) \<le> maxRequesterJobs"
    and "distinct (map reservationKey builds)" and "distinct admitted" and "set admitted \<subseteq> set builds"
    and "decide = (\<lambda>b. decideAdmission b builds active maxJobs maxRequesterJobs workerSlots lastHash)"
    and "\<forall>b \<in> set admitted. Admitted (decide b)"
  shows "used_slots active + sum_list (map (\<lambda>b. Allocation (decide b)) admitted) \<le> workerSlots \<and>
    int (length active) + int (length admitted) \<le> maxJobs \<and>
    (\<forall>q. int (jobs_of q active) + int (length (filter (\<lambda>b. requesterKey b = q) admitted)) \<le> maxRequesterJobs) \<and>
    (\<forall>b \<in> set admitted. 1 \<le> Allocation (decide b) \<and> Allocation (decide b) \<le> requestedConcurrency b)"
proof -
  let ?gs = "allotment builds active maxJobs maxRequesterJobs workerSlots lastHash"
  let ?xs = "map (\<lambda>b. (b, Allocation (decide b))) admitted"
  have "set ?xs \<subseteq> set ?gs"
    using admitted_in_allotment [OF assms(1-3) assms(4,5,7)] assms(9-11) by auto
  moreover have "distinct ?xs" using assms(8) by (simp add: distinct_map inj_on_def)
  ultimately have sub: "mset ?xs \<subseteq># mset ?gs" by (rule mset_subset_distinct [rotated])
  have nonneg: "0 \<le> maxJobs - int (length active)" "0 \<le> workerSlots - used_slots active" using assms(4,5) by simp_all
  note bounds = allot_bounds [OF nonneg assms(3), of "\<lambda>q. int (jobs_of q active)"
      "fairQueue (queuedAdmissionCandidates builds active) (\<lambda>q. int (jobs_of q active)) lastHash", folded allotment_def [unfolded Let_def]]
  have one: "\<forall>(c, n) \<in> set ?gs. 1 \<le> n" using bounds by auto
  have count: "jobs_for q ?xs = length (filter (\<lambda>b. requesterKey b = q) admitted)" for q
    by (simp add: jobs_for_def filter_map comp_def)
  have "int (jobs_of q active) + int (length (filter (\<lambda>b. requesterKey b = q) admitted)) \<le> maxRequesterJobs" for q
  proof -
    have "int (jobs_of q active) + int (jobs_for q ?gs) \<le> max maxRequesterJobs (int (jobs_of q active))" using bounds by blast
    also have "\<dots> = maxRequesterJobs" using assms(6) by (simp add: max_absorb1)
    finally show ?thesis using sub_allotment(3) [OF sub one, of q] count [of q] by simp
  qed
  moreover have "int (length active) + int (length admitted) \<le> maxJobs"
    using sub_allotment(1) [OF sub one] bounds by simp
  moreover have "used_slots active + sum_list (map (\<lambda>b. Allocation (decide b)) admitted) \<le> workerSlots"
    using sub_allotment(2) [OF sub one] bounds by (simp add: comp_def)
  moreover have "\<forall>b \<in> set admitted. 1 \<le> Allocation (decide b) \<and> Allocation (decide b) \<le> requestedConcurrency b"
    using \<open>set ?xs \<subseteq> set ?gs\<close> bounds by fastforce
  ultimately show ?thesis by blast
qed

lemma HashRequester_nonempty: "HashRequester q \<noteq> []"
  using length_sha256_hex [of q] unfolding HashRequester_def by (metis list.size(3) zero_neq_numeral)

lemmas queue_eval = queued_build_def sample_meta_def empty_meta_def inertBuildSpec_def requesterKey_def reservationKey_def
  requestedConcurrency_def build_order_def

lemma queue_ab_candidates: "queuedAdmissionCandidates queue_ab [] = queue_ab"
  by (simp add: queuedAdmissionCandidates_def queue_ab_def active_slots_def IsInertBuildTombstone_def
      cancellationRequested_def mget_def queue_eval)

lemma queue_ab_order: "fairQueue queue_ab (\<lambda>q. 0) [] =
    [queued_build ''a1'' 1 ''alice'' 2, queued_build ''b1'' 3 ''bob'' 2, queued_build ''a2'' 2 ''alice'' 2]"
  by (simp add: fairQueue_def fair_loop_def queue_ab_def sorted_groups_def group_builds_def sorted_requesters_def
      requester_key_def rotate_tier_def HashRequester_nonempty round_picks_def queue_eval less_char_def Let_def
      eval_nat_numeral)

lemma queue_ab_admits:
  "Admitted (decideAdmission (queued_build ''a1'' 1 ''alice'' 2) queue_ab [] 2 1 3 [])"
  "Admitted (decideAdmission (queued_build ''b1'' 3 ''bob'' 2) queue_ab [] 2 1 3 [])"
  by (simp_all add: decideAdmission_def queue_ab_candidates queue_ab_order queue_eval Let_def granting_def)

theorem decideAdmission_no_overbooking_witness:
  "sum_list (map (\<lambda>b. Allocation (decideAdmission b queue_ab [] 2 1 3 []))
     [queued_build ''a1'' 1 ''alice'' 2, queued_build ''b1'' 3 ''bob'' 2]) \<le> 3"
  using decideAdmission_no_overbooking [of 2 3 1 "[]" queue_ab "[queued_build ''a1'' 1 ''alice'' 2, queued_build ''b1'' 3 ''bob'' 2]"
      "\<lambda>b. decideAdmission b queue_ab [] 2 1 3 []" "[]"] queue_ab_admits
  by (simp add: queue_ab_def queue_eval)

text \<open>C19: progress. While a job slot and a worker slot are free and some candidate's requester is below its
  limit, \<open>decideAdmission\<close> admits some candidate: free capacity is not left idle.\<close>

theorem decideAdmission_progress:
  assumes "0 < maxJobs" and "0 < workerSlots" and "0 < maxRequesterJobs"
    and "int (length active) < maxJobs" and "used_slots active < workerSlots"
    and "c \<in> set (queuedAdmissionCandidates builds active)" and "int (jobs_of (requesterKey c) active) < maxRequesterJobs"
  shows "\<exists>b \<in> set (queuedAdmissionCandidates builds active).
    Admitted (decideAdmission b builds active maxJobs maxRequesterJobs workerSlots lastHash)"
proof -
  let ?act = "\<lambda>q. int (jobs_of q active)" and ?qs = "queuedAdmissionCandidates builds active"
  have set: "set (fairQueue ?qs ?act lastHash) = set ?qs" using mset_fairQueue by (rule mset_eq_setD)
  have "\<exists>b n. b \<in> set (fairQueue ?qs ?act lastHash) \<and> lookup_grant (reservationKey b) (allot maxRequesterJobs True ?act
      (maxJobs - int (length active)) (workerSlots - used_slots active) (fairQueue ?qs ?act lastHash)) = Some n"
    using assms by (intro allot_first [of _ _ c]) (simp_all add: set)
  then obtain b n where b: "b \<in> set ?qs"
    and "lookup_grant (reservationKey b) (allotment builds active maxJobs maxRequesterJobs workerSlots lastHash) = Some n"
    unfolding set allotment_def Let_def by blast
  then have "decideAdmission b builds active maxJobs maxRequesterJobs workerSlots lastHash = granting n"
    using assms(1,2,4,5) by (simp add: decideAdmission_def Let_def decide_from_allot allotment_def decision_of_def)
  with b show ?thesis by (intro bexI [of _ b]) (simp_all add: granting_def)
qed

theorem decideAdmission_progress_witness:
  "\<exists>b \<in> set (queuedAdmissionCandidates queue_ab []). Admitted (decideAdmission b queue_ab [] 2 1 3 [])"
  using decideAdmission_progress [of 2 3 1 "[]" "queued_build ''b1'' 3 ''bob'' 2" queue_ab "[]"]
  by (simp add: queue_ab_candidates) (simp add: queue_ab_def)

end
