(* ===== verification/Reservation_Store.thy ===== *)
theory Reservation_Store
  imports Queue_Store Fair_Admission
begin

text \<open>
  The controller's state and its reads of the active admission ledger, of builds and of runner
  Pods, and the writes of that ledger that need no receipts
  (\<open>internal/service/buildcontroller/reservation.go\<close>): initialisation, the compare-and-swap write,
  the fence. A context that a caller may leave nil is the flag \<open>ctx\<close>, as in the queue ledger.
\<close>

section \<open>The reconciler\<close>

text \<open>
  The process-local coordinator of fresh grants lives in the world; its methods are in
  \<open>Admission_Coordinator\<close>. A permit is identified by the number of its allocation. The release
  channel holds at most one event.
\<close>

record AdmissionCoordinator =
  CoordNamespace :: string
  Holder :: "nat option"
  Pending :: bool
  CoordGeneration :: "64 word"
  ReleaseQueued :: bool
  NextPermit :: nat

record 'w coordinator_ref =
  CoordLoad :: "('w, AdmissionCoordinator) op"
  CoordSave :: "AdmissionCoordinator \<Rightarrow> ('w, unit) op"

record 'w KovaBuildReconciler =
  RClient :: "'w client option"
  APIReader :: "'w reader option"
  RGenesis :: "'w Guard option"
  RecoveryReceipts :: "'w configmaps option"
  Cfg :: config
  Coordinator :: "'w coordinator_ref option"

definition rc_reader :: "'w KovaBuildReconciler \<Rightarrow> 'w reader option" where
  "rc_reader r = (case APIReader r of Some a \<Rightarrow> Some a | None \<Rightarrow> map_option reader.truncate (RClient r))"

definition queueStoreForNamespace :: "'w KovaBuildReconciler \<Rightarrow> string \<Rightarrow> 'w Store" where
  "queueStoreForNamespace r ns =
    \<lparr>Client = RClient r, Reader = rc_reader r, Genesis = RGenesis r, StoreNamespace = ns,
     StoreGlobalLimit = MaxQueuedJobs (Cfg r), StoreRequesterLimit = MaxQueuedJobsPerRequester (Cfg r)\<rparr>"

definition rc_guarded :: "'w KovaBuildReconciler \<Rightarrow> bool" where
  "rc_guarded r \<longleftrightarrow> \<not> Option.is_none (RGenesis r)"

text \<open>Reading the nil map gives no entries; assignment and deletion on a map that a read returned.\<close>

definition the_active :: "reservationState \<Rightarrow> (string, activeReservation) gomap" where
  "the_active s = (case RActive s of None \<Rightarrow> [] | Some m \<Rightarrow> m)"

definition put_active :: "string \<Rightarrow> activeReservation \<Rightarrow> reservationState \<Rightarrow> reservationState" where
  "put_active key e s = s\<lparr>RActive := Some (mput key e (the_active s))\<rparr>"

definition del_active :: "string \<Rightarrow> reservationState \<Rightarrow> reservationState" where
  "del_active key s = s\<lparr>RActive := Some (mdel key (the_active s))\<rparr>"

abbreviation bootstrapAttemptKey :: string where "bootstrapAttemptKey \<equiv> ''kova.cofy.dev/admission-bootstrap''"
abbreviation podCreateAttemptKey :: string where "podCreateAttemptKey \<equiv> ''kova.cofy.dev/create-attempt''"
abbreviation buildIDLabel :: string where "buildIDLabel \<equiv> ''kova.cofy.dev/build-id''"

section \<open>Reads\<close>

definition ensureLiveAdmissionBuild :: "'w KovaBuildReconciler \<Rightarrow> KovaBuild \<Rightarrow> ('w, goerr option) op" where
  "ensureLiveAdmissionBuild r build =
    attemptE (via (rc_reader r) (\<lambda>rd. Get_build rd (Namespace (build_meta build)) (Name (build_meta build)))) (\<lambda>now.
    if UID (build_meta now) \<noteq> UID (build_meta build) \<or> DeletionTimestamp (build_meta now) \<noteq> None \<or>
       cancellationRequested now \<or> (Phase (Status now) \<noteq> [] \<and> Phase (Status now) \<noteq> PhaseQueued)
    then ret (Some (Wrap ''not eligible'' ErrAdmissionClosed)) else ret None)"

definition validateReservationLimits :: "config \<Rightarrow> reservationState \<Rightarrow> goerr option" where
  "validateReservationLimits cfg s =
    (case ValidateReservationCapacity cfg of
       Some e \<Rightarrow> Some e
     | None \<Rightarrow>
         if MaxJobs s \<noteq> MaxActiveJobs cfg \<or> MaxPerRequester s \<noteq> MaxActiveJobsPerRequester cfg \<or>
            WorkerSlots s \<noteq> CfgWorkerSlots cfg
         then Some (ErrMsg ''active admission ledger limits differ from this Service replica'')
         else None)"

definition fetch_reservations ::
  "'x ext_scheme \<Rightarrow> 'w KovaBuildReconciler \<Rightarrow> string \<Rightarrow> ('w, goerr + configmap) op" where
  "fetch_reservations x r ns =
    attempt (via (rc_reader r) (\<lambda>rd. Get_cm rd ns reservationConfigMap)) (\<lambda>cm.
    guard (ret (if rc_guarded r then CheckLedger x (RGenesis r) (Some cm) Active else None)) (
    ret (Inr cm)))"

text \<open>The checks of a read on the ConfigMap it got.\<close>

definition decode_active ::
  "'x ext_scheme \<Rightarrow> 'w KovaBuildReconciler \<Rightarrow> configmap \<Rightarrow> goerr + configmap \<times> reservationState" where
  "decode_active x r cm =
    (case decodeReservations x cm of
       Inl e \<Rightarrow> Inl e
     | Inr s \<Rightarrow>
         (case validateReservationLimits (Cfg r) s of
            Some e \<Rightarrow> Inl e
          | None \<Rightarrow>
              if (rc_guarded r \<and> RVersion s \<noteq> 2) \<or> (\<not> rc_guarded r \<and> RVersion s \<noteq> 1)
              then Inl (ErrMsg ''active admission ledger has the wrong receipt protocol version'')
              else Inr (cm, s)))"

definition readReservationsWithObservation ::
  "'x ext_scheme \<Rightarrow> 'w runtime \<Rightarrow> 'w KovaBuildReconciler \<Rightarrow> bool \<Rightarrow> string \<Rightarrow> Observation option \<Rightarrow>
     ('w, goerr + configmap \<times> reservationState) op" where
  "readReservationsWithObservation x rt r ctx ns obs =
    guard
      (if rc_guarded r then
         (if Option.is_none (APIReader r)
          then ret (Some (ErrMsg ''Genesis admission requires a direct API reader''))
          else if obs = None then Check x (RGenesis r)
          else ret (AssertNoOrdinaryContext obs (RGenesis r) ctx))
       else if obs \<noteq> None then ret (Some (ErrMsg ''read-only reservation observation requires Genesis''))
       else ret None)
     (attempt (if obs \<noteq> None then Observation_Read rt obs (RGenesis r) (fetch_reservations x r ns)
               else fetch_reservations x r ns) (\<lambda>cm.
      ret (decode_active x r cm)))"

definition readReservations ::
  "'x ext_scheme \<Rightarrow> 'w runtime \<Rightarrow> 'w KovaBuildReconciler \<Rightarrow> string \<Rightarrow>
     ('w, goerr + configmap \<times> reservationState) op" where
  "readReservations x rt r ns = readReservationsWithObservation x rt r True ns None"

section \<open>Writes\<close>

definition freshReservations :: "config \<Rightarrow> reservationState" where
  "freshReservations cfg =
    \<lparr>RVersion = 1, Fence = 0, MaxJobs = MaxActiveJobs cfg, MaxPerRequester = MaxActiveJobsPerRequester cfg,
     WorkerSlots = CfgWorkerSlots cfg, LastGrantedRequesterHash = [], RActive = Some []\<rparr>"

definition writeReservations ::
  "'x ext_scheme \<Rightarrow> 'w KovaBuildReconciler \<Rightarrow> configmap \<Rightarrow> reservationState \<Rightarrow> ('w, goerr option) op" where
  "writeReservations x r cm s =
    (if length (Data cm) \<noteq> 1 \<or> length (mget (Data cm) reservationDataKey) = 0 \<or> length (BinaryData cm) \<noteq> 0
     then ret (Some (ErrMsg ''active admission ledger has unsupported data keys''))
     else (case encodeReservations x s of
         Inl e \<Rightarrow> ret (Some e)
       | Inr data \<Rightarrow>
           if rc_guarded r then PatchLedgerData x (RGenesis r) cm Active data
           else viaE (RClient r) (\<lambda>c. Update_cm c (cm\<lparr>Data := [(reservationDataKey, data)]\<rparr>))))"

definition waitReservationCAS :: "'w runtime \<Rightarrow> nat \<Rightarrow> ('w, goerr option) op" where
  "waitReservationCAS rt retry = Sleep rt (2 ^ min retry 5)"

definition newPodCreateAttempt :: "'w runtime \<Rightarrow> ('w, goerr + string) op" where
  "newPodCreateAttempt rt = attempt (Rand16 rt) (\<lambda>raw. ret (Inr (hex_encode raw)))"

section \<open>Initialisation\<close>

definition PreflightAdmissionLedger ::
  "'x ext_scheme \<Rightarrow> 'w runtime \<Rightarrow> 'w reader option \<Rightarrow> string \<Rightarrow> config \<Rightarrow> ('w, goerr option) op" where
  "PreflightAdmissionLedger x rt rdr ns cfg = do {
    r \<leftarrow> readReservations x rt \<lparr>RClient = None, APIReader = rdr, RGenesis = None, RecoveryReceipts = None,
          Cfg = cfg, Coordinator = None\<rparr> ns;
    case r of
      Inr _ \<Rightarrow> ret None
    | Inl e \<Rightarrow>
        if \<not> IsNotFound e then ret (Some e)
        else if ValidateReservationCapacity cfg \<noteq> None
        then ret (Some (ErrMsg ''active admission ledger has invalid replica limits''))
        else attemptE (via rdr (\<lambda>rd. List_builds rd ns 1)) (\<lambda>builds.
          if builds \<noteq> []
          then ret (Some (ErrMsg ''active admission ledger is absent while KovaBuilds exist''))
          else attemptE (via rdr (\<lambda>rd. List_pods rd ns [])) (\<lambda>pods.
            if list_ex (\<lambda>p. mget (Labels (pod_meta p)) buildIDLabel \<noteq> []) pods
            then ret (Some (ErrMsg ''active admission ledger is absent while runner Pods exist''))
            else ret None)) }"

text \<open>
  The local variable of the loop is the nonce of this call's Create, empty until it is drawn. The
  ConfigMap that the Go function also returns is dropped by its only caller.
\<close>

definition bootstrap_cm :: "string \<Rightarrow> string \<Rightarrow> string \<Rightarrow> configmap" where
  "bootstrap_cm ns nonce data =
    \<lparr>cm_meta = empty_meta\<lparr>Name := reservationConfigMap, Namespace := ns, Annotations := [(bootstrapAttemptKey, nonce)]\<rparr>,
     Immutable = None, Data = [(reservationDataKey, data)], BinaryData = []\<rparr>"

definition create_reservations ::
  "'x ext_scheme \<Rightarrow> 'w runtime \<Rightarrow> 'w KovaBuildReconciler \<Rightarrow> string \<Rightarrow> nat \<Rightarrow> string \<Rightarrow> string \<Rightarrow>
     ('w, (string, goerr + (reservationState \<times> bool)) turn) op" where
  "create_reservations x rt r ns retry nonce data = do {
    e \<leftarrow> viaE (RClient r) (\<lambda>c. Create_cm c (bootstrap_cm ns nonce data));
    case e of
      None \<Rightarrow> ret (Leave (Inr (freshReservations (Cfg r), True)))
    | Some err \<Rightarrow>
        if IsAlreadyExists err then tguard Inl (waitReservationCAS rt retry) (ret (Again nonce))
        else do {
          back \<leftarrow> readReservations x rt r ns;
          case back of
            Inr (cm, s) \<Rightarrow> ret (Leave (Inr (s, mget (Annotations (cm_meta cm)) bootstrapAttemptKey = nonce)))
          | Inl _ \<Rightarrow> ret (Leave (Inl err)) } }"

definition initialize_round ::
  "'x ext_scheme \<Rightarrow> 'w runtime \<Rightarrow> 'w KovaBuildReconciler \<Rightarrow> string \<Rightarrow> nat \<Rightarrow> string \<Rightarrow>
     ('w, (string, goerr + (reservationState \<times> bool)) turn) op" where
  "initialize_round x rt r ns retry nonce = do {
    got \<leftarrow> readReservations x rt r ns;
    case got of
      Inr (cm, s) \<Rightarrow> ret (Leave (Inr (s, False)))
    | Inl e \<Rightarrow>
        if \<not> IsNotFound e then ret (Leave (Inl e))
        else do {
          queue \<leftarrow> via (rc_reader r) (\<lambda>rd. Get_cm rd ns ConfigMapName);
          case queue of
            Inr _ \<Rightarrow> do {
              again \<leftarrow> readReservations x rt r ns;
              case again of
                Inr (cm, s) \<Rightarrow> ret (Leave (Inr (s, False)))
              | Inl e2 \<Rightarrow>
                  if \<not> IsNotFound e2 then ret (Leave (Inl e2))
                  else ret (Leave (Inl (ErrMsg
                    ''active admission ledger is absent while queue admission ledger exists''))) }
          | Inl queueErr \<Rightarrow>
              if \<not> IsNotFound queueErr then ret (Leave (Inl queueErr))
              else tguard Inl (PreflightAdmissionLedger x rt (rc_reader r) ns (Cfg r)) (
                ttry Inl (ret (encodeReservations x (freshReservations (Cfg r)))) (\<lambda>data.
                ttry Inl (if nonce = [] then newPodCreateAttempt rt else ret (Inr nonce)) (\<lambda>nonce'.
                create_reservations x rt r ns retry nonce' data))) } }"

definition initializeReservations ::
  "'x ext_scheme \<Rightarrow> 'w runtime \<Rightarrow> 'w KovaBuildReconciler \<Rightarrow> string \<Rightarrow> ('w, goerr + (reservationState \<times> bool)) op" where
  "initializeReservations x rt r ns =
    (if rc_guarded r then attempt (readReservations x rt r ns) (\<lambda>(cm, s). ret (Inr (s, False)))
     else for_loop maxReservationCASAttempts [] (initialize_round x rt r ns)
       (\<lambda>_. ret (Inl (ErrMsg ''active admission ledger is busy initializing''))))"

definition EnsureAdmissionLedger ::
  "'x ext_scheme \<Rightarrow> 'w runtime \<Rightarrow> 'w client option \<Rightarrow> 'w reader option \<Rightarrow> string \<Rightarrow> config \<Rightarrow> ('w, goerr + bool) op" where
  "EnsureAdmissionLedger x rt writer rdr ns cfg =
    attempt (initializeReservations x rt \<lparr>RClient = writer, APIReader = rdr, RGenesis = None,
      RecoveryReceipts = None, Cfg = cfg, Coordinator = None\<rparr> ns) (\<lambda>(s, created). ret (Inr created))"

definition CheckAdmissionLedger ::
  "'x ext_scheme \<Rightarrow> 'w reader option \<Rightarrow> string \<Rightarrow> config \<Rightarrow> ('w, goerr option) op" where
  "CheckAdmissionLedger x rdr ns cfg =
    attemptE (via rdr (\<lambda>rd. Get_cm rd ns reservationConfigMap)) (\<lambda>cm.
    attemptE (ret (decodeReservations x cm)) (\<lambda>s.
    if RVersion s \<noteq> 1 then ret (Some (ErrMsg ''legacy admission requires active ledger version 1''))
    else ret (validateReservationLimits cfg s)))"

definition GenesisEmptyAdmissionData :: "'x ext_scheme \<Rightarrow> config \<Rightarrow> goerr + string" where
  "GenesisEmptyAdmissionData x cfg =
    encodeReservations x ((freshReservations cfg)\<lparr>RVersion := 2, Fence := 1\<rparr>)"

definition ValidateAdmissionLedgerForGenesis ::
  "'x ext_scheme \<Rightarrow> configmap option \<Rightarrow> config \<Rightarrow> goerr option" where
  "ValidateAdmissionLedgerForGenesis x ledger cfg =
    (case ledger of
       None \<Rightarrow> Some (ErrMsg ''active admission ledger is missing'')
     | Some cm \<Rightarrow>
         (case decodeReservations x cm of
            Inl e \<Rightarrow> Some e
          | Inr s \<Rightarrow>
              if RVersion s \<noteq> 2 then Some (ErrMsg ''admission Genesis requires active ledger version 2'')
              else validateReservationLimits cfg s))"

section \<open>The fence\<close>

text \<open>The 64-bit counter wraps.\<close>

definition fence_state :: "KovaBuild \<Rightarrow> reservationState \<Rightarrow> goerr + reservationState" where
  "fence_state build s =
    (let s' = s\<lparr>Fence := Fence s + 1\<rparr> in
     case map_of (the_active s) (reservationKey build) of
       None \<Rightarrow> Inr s'
     | Some entry \<Rightarrow>
         if RBuildName entry \<noteq> Name (build_meta build)
         then Inl (ErrMsg ''admission reservation has mismatched build name'')
         else Inr (put_active (reservationKey build) (entry\<lparr>RClosing := True\<rparr>) s'))"

definition fenceReservation ::
  "'x ext_scheme \<Rightarrow> 'w runtime \<Rightarrow> 'w KovaBuildReconciler \<Rightarrow> KovaBuild \<Rightarrow> ('w, goerr option) op" where
  "fenceReservation x rt r build =
    for_retry maxReservationCASAttempts (\<lambda>retry.
      rtryE (readReservations x rt r (Namespace (build_meta build))) (\<lambda>(cm, s).
      rtryE (ret (fence_state build s)) (\<lambda>s'. do {
        w \<leftarrow> writeReservations x r cm s';
        case w of
          None \<Rightarrow> ret (Return None)
        | Some err \<Rightarrow>
            if IsConflict err then rguardE (waitReservationCAS rt retry) (ret Continue)
            else ret (Return (Some err)) })))
      (ret (Some (ErrMsg ''active admission ledger is busy fencing'')))"

section \<open>Runner Pods\<close>

definition buildPodName :: "string \<Rightarrow> string" where
  "buildPodName name = ''kova-job-'' @ name"

definition podOwnedByBuild :: "pod \<Rightarrow> KovaBuild \<Rightarrow> bool" where
  "podOwnedByBuild p build =
    list_ex (\<lambda>owner. OwnerAPIVersion owner = ''kova.cofy.dev/v1alpha1'' \<and> OwnerKind owner = ''KovaBuild'' \<and>
      OwnerName owner = Name (build_meta build) \<and> OwnerUID owner = UID (build_meta build))
      (OwnerReferences (pod_meta p))"

definition reservationCovered ::
  "'x ext_scheme \<Rightarrow> 'w KovaBuildReconciler \<Rightarrow> string \<Rightarrow> reservationState \<Rightarrow> KovaBuild \<Rightarrow> ('w, goerr + bool) op" where
  "reservationCovered x r ns s build =
    (case map_of (the_active s) (reservationKey build) of
       Some entry \<Rightarrow> ret (Inr (RBuildName entry = Name (build_meta build)))
     | None \<Rightarrow>
         attempt (via (rc_reader r) (\<lambda>rd. Get_cm rd ns reservationConfigMap)) (\<lambda>latest.
         guard (ret (if rc_guarded r then CheckLedger x (RGenesis r) (Some latest) Active else None)) (
         attempt (ret (decodeReservations x latest)) (\<lambda>now.
         guard (ret (validateReservationLimits (Cfg r) now)) (
         ret (Inr (case map_of (the_active now) (reservationKey build) of
           None \<Rightarrow> False | Some entry \<Rightarrow> RBuildName entry = Name (build_meta build))))))))"

text \<open>The first loop: every active build is covered.\<close>

fun active_builds_covered ::
  "'x ext_scheme \<Rightarrow> 'w KovaBuildReconciler \<Rightarrow> string \<Rightarrow> reservationState \<Rightarrow> KovaBuild list \<Rightarrow> ('w, goerr option) op" where
  "active_builds_covered x r ns s [] = ret None"
| "active_builds_covered x r ns s (build # builds) =
     (if Phase (Status build) \<in> {PhaseStarting, PhaseRunning, PhaseVerifying, PhaseFailedVerifying} then
        attemptE (reservationCovered x r ns s build) (\<lambda>covered.
        if \<not> covered then ret (Some (ErrMsg ''active KovaBuild has no admission reservation''))
        else active_builds_covered x r ns s builds)
      else active_builds_covered x r ns s builds)"

text \<open>\<open>byName\<close>: the last build of a name.\<close>

definition by_name :: "KovaBuild list \<Rightarrow> string \<Rightarrow> KovaBuild option" where
  "by_name builds n = find (\<lambda>b. Name (build_meta b) = n) (rev builds)"

text \<open>The second loop: every runner Pod belongs to a covered build.\<close>

fun runner_pods_covered ::
  "'x ext_scheme \<Rightarrow> 'w KovaBuildReconciler \<Rightarrow> string \<Rightarrow> reservationState \<Rightarrow> KovaBuild list \<Rightarrow> pod list \<Rightarrow>
     ('w, goerr option) op" where
  "runner_pods_covered x r ns s builds [] = ret None"
| "runner_pods_covered x r ns s builds (p # pods) =
     (let name = mget (Labels (pod_meta p)) buildIDLabel in
      if name = [] then runner_pods_covered x r ns s builds pods
      else (case by_name builds name of
          None \<Rightarrow> ret (Some (ErrMsg ''runner Pod has no matching KovaBuild owner''))
        | Some build \<Rightarrow>
            if \<not> podOwnedByBuild p build
            then ret (Some (ErrMsg ''runner Pod has no matching KovaBuild owner''))
            else attemptE (reservationCovered x r ns s build) (\<lambda>covered.
              if \<not> covered then ret (Some (ErrMsg ''runner Pod has no admission reservation''))
              else runner_pods_covered x r ns s builds pods)))"

definition ensureNoUnreservedRunner ::
  "'x ext_scheme \<Rightarrow> 'w KovaBuildReconciler \<Rightarrow> string \<Rightarrow> reservationState \<Rightarrow> KovaBuild list \<Rightarrow> ('w, goerr option) op" where
  "ensureNoUnreservedRunner x r ns s builds =
    guardE (active_builds_covered x r ns s builds) (
    attemptE (via (rc_reader r) (\<lambda>rd. List_pods rd ns [])) (\<lambda>pods.
    runner_pods_covered x r ns s builds pods))"

definition getOwnedPod :: "'w KovaBuildReconciler \<Rightarrow> KovaBuild \<Rightarrow> ('w, goerr + pod option) op" where
  "getOwnedPod r build = do {
    p \<leftarrow> via (rc_reader r) (\<lambda>rd. Get_pod rd (Namespace (build_meta build)) (buildPodName (Name (build_meta build))));
    case p of
      Inl e \<Rightarrow> if IsNotFound e then ret (Inr None) else ret (Inl e)
    | Inr pod \<Rightarrow>
        if \<not> podOwnedByBuild pod build then ret (Inl (ErrMsg ''runner Pod is not owned by KovaBuild UID''))
        else ret (Inr (Some pod)) }"

definition podCreateAttemptRecorded ::
  "'x ext_scheme \<Rightarrow> 'w runtime \<Rightarrow> 'w KovaBuildReconciler \<Rightarrow> KovaBuild \<Rightarrow> string \<Rightarrow> ('w, goerr + bool) op" where
  "podCreateAttemptRecorded x rt r build att =
    attempt (readReservations x rt r (Namespace (build_meta build))) (\<lambda>(cm, s).
    case map_of (the_active s) (reservationKey build) of
      None \<Rightarrow> ret (Inl (ErrMsg ''KovaBuild has no matching active reservation''))
    | Some entry \<Rightarrow>
        if RBuildName entry \<noteq> Name (build_meta build)
        then ret (Inl (ErrMsg ''KovaBuild has no matching active reservation''))
        else if rc_guarded r then ret (Inr (RPodAttemptNonce entry = att))
        else ret (Inr (att \<in> set (RInFlight entry))))"

end
