(* ===== verification/Grant_Receipt.thy ===== *)
theory Grant_Receipt
  imports Reservation_Store
begin

text \<open>
  The receipt protocol of an active grant (\<open>internal/service/buildcontroller/grant_receipt.go\<close>): a
  fresh grant is armed by a second write of the ledger, its receipt is created once, pinned by a
  third write and verified. Cleanup pins what it observes, marks the entry and only then deletes
  the receipt.
\<close>

section \<open>The intent\<close>

definition checkGrantReceiptNamespaceWithObservation ::
  "'x ext_scheme \<Rightarrow> 'w runtime \<Rightarrow> 'w KovaBuildReconciler \<Rightarrow> bool \<Rightarrow> string \<Rightarrow> Observation option \<Rightarrow> ('w, goerr option) op" where
  "checkGrantReceiptNamespaceWithObservation x rt r ctx ns obs =
    (if \<not> rc_guarded r \<or> Option.is_none (RecoveryReceipts r)
     then ret (Some (ErrMsg ''Genesis grant requires a direct receipt ConfigMap client''))
     else guardE (ret (if obs \<noteq> None then AssertNoOrdinaryContext obs (RGenesis r) ctx else None)) (
       if obs \<noteq> None then CheckReceiptNamespaceObserved x rt (queueStoreForNamespace r ns) obs
       else CheckReceiptNamespace x rt (queueStoreForNamespace r ns)))"

definition checkGrantReceiptNamespace ::
  "'x ext_scheme \<Rightarrow> 'w runtime \<Rightarrow> 'w KovaBuildReconciler \<Rightarrow> string \<Rightarrow> ('w, goerr option) op" where
  "checkGrantReceiptNamespace x rt r ns = checkGrantReceiptNamespaceWithObservation x rt r True ns None"

text \<open>The link to the queue receipt: \<open>None\<close> for a direct build, an error when charge and build differ.\<close>

definition queue_link ::
  "'x ext_scheme \<Rightarrow> 'w Store \<Rightarrow> KovaBuild \<Rightarrow> Intent option \<Rightarrow> goerr + ReceiptLink option" where
  "queue_link x queue build found =
    (let nonce = mget (Annotations (build_meta build)) IntentAnnotation in
     if nonce \<noteq> [] then
       (case found of
          None \<Rightarrow> Inl ErrDrift
        | Some entry \<Rightarrow>
            if Nonce entry \<noteq> nonce \<or> ReceiptUID entry = [] \<or> ReceiptDigest entry = [] \<or>
               RequestDigest entry \<noteq> DigestBuild build \<or> CleanupKind entry \<noteq> []
            then Inl ErrDrift
            else (case ReceiptIntent x queue build entry of
                Inl e \<Rightarrow> Inl e
              | Inr intent \<Rightarrow>
                  (case NewQueueConfigMap x intent of
                     Inl e \<Rightarrow> Inl e
                   | Inr cm \<Rightarrow> Inr (Some \<lparr>LinkName = Name (cm_meta cm), LinkUID = ReceiptUID entry,
                       LinkDataDigest = ReceiptDigest entry\<rparr>))))
     else if found \<noteq> None then Inl ErrDrift
     else Inr None)"

definition pinned_build :: "'w Guard \<Rightarrow> config \<Rightarrow> KovaBuild \<Rightarrow> PinnedBuild" where
  "pinned_build g cfg build =
    (let receipt = BReceipt (Bootstrap g); contract = ReceiptContract receipt; w = Original g in
     \<lparr>PBNamespace = Namespace (build_meta build), PBNamespaceUID = BoundNamespaceUID w,
      PBReceiptNamespace = ReceiptNamespace contract, PBReceiptNamespaceUID = ReceiptNamespaceUID contract,
      PBGenesisName = GenesisName receipt, PBGenesisUID = BoundGenesisUID w,
      PBGeneration = ContractGeneration contract,
      PBActiveLedgerUID = BoundActiveLedgerUID w, PBQueueLedgerUID = BoundQueueLedgerUID w,
      PBBuildName = Name (build_meta build), PBBuildUID = UID (build_meta build),
      PBRequesterName = Username (Requester (Spec build)), PBRequesterUID = RequesterUID (Requester (Spec build)),
      PBRequesterHash = HashRequester (Username (Requester (Spec build))),
      PBRequestDigest = DigestBuild build, PBSourceDigest = SourceDigest (Source (Spec build)),
      PBWorkerPoolID = CfgWorkerPoolID cfg\<rparr>)"

definition grantIntentWithObservation ::
  "'x ext_scheme \<Rightarrow> 'w runtime \<Rightarrow> 'w KovaBuildReconciler \<Rightarrow> bool \<Rightarrow> KovaBuild \<Rightarrow> activeReservation \<Rightarrow> Observation option \<Rightarrow>
     ('w, goerr + GrantIntent) op" where
  "grantIntentWithObservation x rt r ctx build grant obs =
    (case RGenesis r of
       None \<Rightarrow> ret (Inl (ErrMsg ''Genesis grant has no reconstructible pre-effect identity''))
     | Some g \<Rightarrow>
    if UID (build_meta build) = [] \<or> RBuildName grant \<noteq> Name (build_meta build) \<or>
       RRequester grant \<noteq> requesterKey build \<or> \<not> validReservationHex (RGrantNonce grant) 32 \<or>
       RGrantFence grant = 0 \<or> \<not> validGrantObservedRV (RGrantObservedRV grant)
    then ret (Inl (ErrMsg ''Genesis grant has no reconstructible pre-effect identity''))
    else guard (if obs = None then Check x (RGenesis r) else ret (AssertNoOrdinaryContext obs (RGenesis r) ctx)) (
    let receipt = BReceipt (Bootstrap g); queue = queueStoreForNamespace r (Namespace (build_meta build)) in
    if CfgWorkerPoolID (Cfg r) = [] \<or> CfgWorkerPoolID (Cfg r) \<noteq> WorkerPoolID (ReceiptContract receipt)
    then ret (Inl (ErrMsg ''configured worker pool differs from immutable admission Genesis''))
    else attempt (if obs = None then VerifyForBuildSnapshot x rt queue build
                  else VerifyForBuildObserved x rt queue build obs) (\<lambda>verified.
    attempt (if obs = None then Lookup x rt queue (Name (build_meta build))
             else LookupObserved x rt queue (Name (build_meta build)) obs) (\<lambda>found.
    if found \<noteq> verified then ret (Inl ErrDrift)
    else attempt (ret (queue_link x queue build found)) (\<lambda>link.
    ret (Inr \<lparr>GrantBuild = pinned_build g (Cfg r) build,
      AdmissionMode = (if link = None then ''direct'' else ''queued''), QueueReceipt = link,
      GrantNonce = RGrantNonce grant, ActiveLedgerFence = unat (RGrantFence grant),
      ActiveLedgerRV = RGrantObservedRV grant, AllocatedWorkerSlots = RSlots grant\<rparr>))))))"

definition grantIntent ::
  "'x ext_scheme \<Rightarrow> 'w runtime \<Rightarrow> 'w KovaBuildReconciler \<Rightarrow> KovaBuild \<Rightarrow> activeReservation \<Rightarrow> ('w, goerr + GrantIntent) op" where
  "grantIntent x rt r build grant = grantIntentWithObservation x rt r True build grant None"

definition sameGrant :: "activeReservation \<Rightarrow> activeReservation \<Rightarrow> bool" where
  "sameGrant a b \<longleftrightarrow> RBuildName a = RBuildName b \<and> RRequester a = RRequester b \<and> RSlots a = RSlots b \<and>
     RGrantNonce a = RGrantNonce b \<and> RGrantFence a = RGrantFence b"

section \<open>Arming\<close>

text \<open>The entry of a build in a state, if it satisfies a test.\<close>

definition entry_if :: "(activeReservation \<Rightarrow> bool) \<Rightarrow> reservationState \<Rightarrow> KovaBuild \<Rightarrow> activeReservation option" where
  "entry_if P s build =
    (case map_of (the_active s) (reservationKey build) of
       None \<Rightarrow> None | Some e \<Rightarrow> if P e then Some e else None)"

definition armFreshGrant ::
  "'x ext_scheme \<Rightarrow> 'w runtime \<Rightarrow> 'w KovaBuildReconciler \<Rightarrow> KovaBuild \<Rightarrow> activeReservation \<Rightarrow>
     ('w, goerr + activeReservation) op" where
  "armFreshGrant x rt r build original =
    (let ns = Namespace (build_meta build) in
     for_retry maxReservationCASAttempts (\<lambda>retry.
       rtry (readReservations x rt r ns) (\<lambda>(cm, s).
       case entry_if (\<lambda>e. sameGrant e original \<and> \<not> RClosing e \<and> RGrantObservedRV e = [] \<and> RGrantReceiptUID e = []) s build of
         None \<Rightarrow> ret (Return (Inl (ErrMsg ''fresh grant lost its unarmed active charge'')))
       | Some entry \<Rightarrow>
           rguard (ensureLiveAdmissionBuild r build) (
           if \<not> validGrantObservedRV (ResourceVersion (cm_meta cm))
           then ret (Return (Inl (ErrMsg ''active ledger observation has unsupported opaque resourceVersion'')))
           else do {
             let entry' = entry\<lparr>RGrantObservedRV := ResourceVersion (cm_meta cm)\<rparr>;
             w \<leftarrow> writeReservations x r cm (put_active (reservationKey build) entry' s);
             case w of
               Some err \<Rightarrow>
                 if IsConflict err then rguard (waitReservationCAS rt retry) (ret Continue)
                 else ret (Return (Inl err))
             | None \<Rightarrow>
                 rtry (readReservations x rt r ns) (\<lambda>(_, confirmed).
                 case entry_if (\<lambda>e. sameGrant e original \<and> RGrantObservedRV e = RGrantObservedRV entry' \<and>
                     \<not> RClosing e \<and> RGrantReceiptUID e = []) confirmed build of
                   None \<Rightarrow> ret (Return (Inl (ErrMsg ''armed grant changed before receipt Create'')))
                 | Some observed \<Rightarrow> ret (Return (Inr observed))) })))
       (ret (Inl (ErrMsg ''active admission ledger is busy arming grant''))))"

section \<open>Observation\<close>

definition observeGrantReceiptWithObservation ::
  "'x ext_scheme \<Rightarrow> 'w runtime \<Rightarrow> 'w KovaBuildReconciler \<Rightarrow> bool \<Rightarrow> KovaBuild \<Rightarrow> activeReservation \<Rightarrow> Observation option \<Rightarrow>
     ('w, goerr + EffectWitness) op" where
  "observeGrantReceiptWithObservation x rt r ctx build entry obs =
    guard (ret (AssertNoOrdinaryContext obs (RGenesis r) ctx)) (
    guard (checkGrantReceiptNamespaceWithObservation x rt r False (Namespace (build_meta build)) obs) (
    attempt (grantIntentWithObservation x rt r False build entry obs) (\<lambda>intent.
    attempt (Observation_Read rt obs (RGenesis r) (ObserveGrant x (RecoveryReceipts r) intent)) (\<lambda>witness.
    guard (checkGrantReceiptNamespaceWithObservation x rt r False (Namespace (build_meta build)) obs) (
    ret (Inr witness))))))"

definition observeGrantReceipt ::
  "'x ext_scheme \<Rightarrow> 'w runtime \<Rightarrow> 'w KovaBuildReconciler \<Rightarrow> KovaBuild \<Rightarrow> activeReservation \<Rightarrow> ('w, goerr + EffectWitness) op" where
  "observeGrantReceipt x rt r build entry =
    (if \<not> rc_guarded r then ret (Inl (ErrMsg ''Genesis grant observation requires an original guard''))
     else ObserveValue x rt (RGenesis r) (\<lambda>obs. observeGrantReceiptWithObservation x rt r False build entry (Some obs)))"

definition verifyPinnedGrantWithObservation ::
  "'x ext_scheme \<Rightarrow> 'w runtime \<Rightarrow> 'w KovaBuildReconciler \<Rightarrow> bool \<Rightarrow> KovaBuild \<Rightarrow> activeReservation \<Rightarrow> Observation option \<Rightarrow>
     ('w, goerr option) op" where
  "verifyPinnedGrantWithObservation x rt r ctx build entry obs =
    guardE (ret (AssertNoOrdinaryContext obs (RGenesis r) ctx)) (
    if RClosing entry then ret (Some (Wrap ''grant is closing'' ErrAdmissionClosed))
    else if RGrantReceiptUID entry = [] \<or> RGrantReceiptDigest entry = [] then
      (if RGrantObservedRV entry \<noteq> [] then do {
         _ \<leftarrow> observeGrantReceiptWithObservation x rt r False build entry obs;
         ret (Some ErrGrantUnpinned) }
       else ret (Some ErrGrantUnpinned))
    else attemptE (observeGrantReceiptWithObservation x rt r False build entry obs) (\<lambda>witness.
      if EffectReceiptUID witness \<noteq> RGrantReceiptUID entry \<or> EffectDataDigest witness \<noteq> RGrantReceiptDigest entry
      then ret (Some ErrReceiptChanged) else ret None))"

definition verifyPinnedGrant ::
  "'x ext_scheme \<Rightarrow> 'w runtime \<Rightarrow> 'w KovaBuildReconciler \<Rightarrow> KovaBuild \<Rightarrow> activeReservation \<Rightarrow> ('w, goerr option) op" where
  "verifyPinnedGrant x rt r build entry =
    (if \<not> rc_guarded r then ret (Some (ErrMsg ''Genesis grant verification requires an original guard''))
     else Observe x rt (RGenesis r) (\<lambda>obs. verifyPinnedGrantWithObservation x rt r False build entry (Some obs)))"

section \<open>Pinning\<close>

definition grant_pinned_as :: "activeReservation \<Rightarrow> EffectWitness \<Rightarrow> activeReservation \<Rightarrow> bool" where
  "grant_pinned_as armed witness e \<longleftrightarrow> sameGrant e armed \<and> RGrantObservedRV e = RGrantObservedRV armed \<and>
     RGrantReceiptUID e = EffectReceiptUID witness \<and> RGrantReceiptDigest e = EffectDataDigest witness"

definition pinGrantReceipt ::
  "'x ext_scheme \<Rightarrow> 'w runtime \<Rightarrow> 'w KovaBuildReconciler \<Rightarrow> KovaBuild \<Rightarrow> activeReservation \<Rightarrow> EffectWitness \<Rightarrow>
     ('w, goerr + activeReservation) op" where
  "pinGrantReceipt x rt r build armed witness =
    (let ns = Namespace (build_meta build) in
     if \<not> validGrantReceiptUID (EffectReceiptUID witness) \<or> \<not> validGrantReceiptDigest (EffectDataDigest witness)
     then ret (Inl ErrReceiptChanged)
     else for_retry maxReservationCASAttempts (\<lambda>retry.
       rtry (readReservations x rt r ns) (\<lambda>(cm, s).
       case entry_if (\<lambda>e. sameGrant e armed \<and> RGrantObservedRV e = RGrantObservedRV armed \<and> \<not> RGrantCleanupReady e) s build of
         None \<Rightarrow> ret (Return (Inl (ErrMsg ''grant changed before receipt pin'')))
       | Some entry \<Rightarrow>
           if RGrantReceiptUID entry \<noteq> [] then
             (if RGrantReceiptUID entry \<noteq> EffectReceiptUID witness \<or> RGrantReceiptDigest entry \<noteq> EffectDataDigest witness
              then ret (Return (Inl ErrReceiptChanged)) else ret (Return (Inr entry)))
           else do {
             let entry' = entry\<lparr>RGrantReceiptUID := EffectReceiptUID witness, RGrantReceiptDigest := EffectDataDigest witness\<rparr>;
             w \<leftarrow> writeReservations x r cm (put_active (reservationKey build) entry' s);
             case w of
               Some err \<Rightarrow>
                 if IsConflict err then rguard (waitReservationCAS rt retry) (ret Continue)
                 else do {
                   back \<leftarrow> readReservations x rt r ns;
                   case back of
                     Inl _ \<Rightarrow> ret (Return (Inl err))
                   | Inr (_, observed) \<Rightarrow>
                       (case entry_if (grant_pinned_as armed witness) observed build of
                          Some pinned \<Rightarrow> ret (Return (Inr pinned))
                        | None \<Rightarrow> ret (Return (Inl err))) }
             | None \<Rightarrow>
                 rtry (readReservations x rt r ns) (\<lambda>(_, observed).
                 case entry_if (grant_pinned_as armed witness) observed build of
                   None \<Rightarrow> ret (Return (Inl ErrReceiptChanged))
                 | Some pinned \<Rightarrow> ret (Return (Inr pinned))) }))
       (ret (Inl (ErrMsg ''active admission ledger is busy pinning grant receipt''))))"

definition finishFreshGrant ::
  "'x ext_scheme \<Rightarrow> 'w runtime \<Rightarrow> 'w KovaBuildReconciler \<Rightarrow> KovaBuild \<Rightarrow> activeReservation \<Rightarrow> ('w, goerr option) op" where
  "finishFreshGrant x rt r build original =
    attemptE (armFreshGrant x rt r build original) (\<lambda>armed.
    attemptE (ObserveValue x rt (RGenesis r) (\<lambda>obs.
      guard (Observation_ReadE rt (Some obs) (RGenesis r) (ensureLiveAdmissionBuild r build)) (
      guard (checkGrantReceiptNamespaceWithObservation x rt r False (Namespace (build_meta build)) (Some obs)) (
      grantIntentWithObservation x rt r False build armed (Some obs))))) (\<lambda>intent.
    attemptE (RecordGrantOnce x (RecoveryReceipts r) intent) (\<lambda>witness.
    guardE (checkGrantReceiptNamespace x rt r (Namespace (build_meta build))) (
    attemptE (pinGrantReceipt x rt r build armed witness) (\<lambda>pinned.
    guardE (ensureLiveAdmissionBuild r build) (
    verifyPinnedGrant x rt r build pinned))))))"

section \<open>Cleanup\<close>

definition verifyPinnedGrantForCleanup ::
  "'x ext_scheme \<Rightarrow> 'w runtime \<Rightarrow> 'w KovaBuildReconciler \<Rightarrow> KovaBuild \<Rightarrow> activeReservation \<Rightarrow> ('w, goerr option) op" where
  "verifyPinnedGrantForCleanup x rt r build entry =
    attemptE (observeGrantReceipt x rt r build entry) (\<lambda>witness.
    if EffectReceiptUID witness \<noteq> RGrantReceiptUID entry \<or> EffectDataDigest witness \<noteq> RGrantReceiptDigest entry
    then ret (Some ErrReceiptChanged) else ret None)"

text \<open>
  The deletion of a pinned receipt, shared by the two kinds: \<open>qualify\<close> is the check of the observed
  ConfigMap against the intent.
\<close>

definition delete_receipt ::
  "'w configmaps option \<Rightarrow> string \<Rightarrow> (configmap \<Rightarrow> goerr + EffectWitness) \<Rightarrow> string \<Rightarrow> string \<Rightarrow> ('w, goerr option) op" where
  "delete_receipt api name qualify uid digest = do {
    observed \<leftarrow> via api (\<lambda>a. CM_Get a name);
    guardE
      (case observed of
         Inl e \<Rightarrow> if IsNotFound e then ret None else ret (Some e)
       | Inr cm \<Rightarrow>
           (case qualify cm of
              Inl _ \<Rightarrow> ret (Some ErrReceiptChanged)
            | Inr witness \<Rightarrow>
                if EffectReceiptUID witness \<noteq> uid \<or> EffectDataDigest witness \<noteq> digest
                then ret (Some ErrReceiptChanged)
                else do {
                  d \<leftarrow> viaE api (\<lambda>a. CM_Delete a name (Some uid));
                  case d of
                    None \<Rightarrow> ret None
                  | Some e \<Rightarrow> if IsNotFound e then ret None else ret (Some e) }))
      (do {
        after \<leftarrow> via api (\<lambda>a. CM_Get a name);
        case after of
          Inr _ \<Rightarrow> ret (Some (ErrMsg ''receipt still exists after UID-preconditioned Delete''))
        | Inl e \<Rightarrow> if IsNotFound e then ret None else ret (Some e) }) }"

definition deletePinnedGrantReceipt ::
  "'x ext_scheme \<Rightarrow> 'w runtime \<Rightarrow> 'w KovaBuildReconciler \<Rightarrow> KovaBuild \<Rightarrow> activeReservation \<Rightarrow> ('w, goerr option) op" where
  "deletePinnedGrantReceipt x rt r build entry =
    (if \<not> RGrantCleanupReady entry \<or> \<not> RClosing entry \<or> RGrantReceiptUID entry = []
     then ret (Some (ErrMsg ''grant receipt lacks durable cleanup disposition''))
     else guardE (checkGrantReceiptNamespace x rt r (Namespace (build_meta build))) (
       attemptE (grantIntent x rt r build entry) (\<lambda>intent.
       attemptE (ret (NewGrantConfigMap x intent)) (\<lambda>expected.
       guardE (delete_receipt (RecoveryReceipts r) (Name (cm_meta expected)) (\<lambda>cm. QualifyGrant x intent (Some cm))
         (RGrantReceiptUID entry) (RGrantReceiptDigest entry)) (
       guardE (checkGrantReceiptNamespace x rt r (Namespace (build_meta build))) (
       Check x (RGenesis r)))))))"

text \<open>The result says whether the caller may go on to remove the entry.\<close>

definition releaseGenesisGrantReceipt ::
  "'x ext_scheme \<Rightarrow> 'w runtime \<Rightarrow> 'w KovaBuildReconciler \<Rightarrow> KovaBuild \<Rightarrow> configmap \<Rightarrow> reservationState \<Rightarrow> activeReservation \<Rightarrow>
     ('w, goerr + bool) op" where
  "releaseGenesisGrantReceipt x rt r build cm s entry =
    (if RGrantObservedRV entry = [] then ret (Inr True)
     else if RGrantReceiptUID entry = [] then do {
       w \<leftarrow> observeGrantReceipt x rt r build entry;
       case w of
         Inl e \<Rightarrow> ret (Inl (Wrap ''armed grant receipt outcome is unknown'' e))
       | Inr witness \<Rightarrow> attempt (pinGrantReceipt x rt r build entry witness) (\<lambda>_. ret (Inr False)) }
     else if \<not> RGrantCleanupReady entry then
       guard (verifyPinnedGrantForCleanup x rt r build entry) (
       guard (writeReservations x r cm (put_active (reservationKey build) (entry\<lparr>RGrantCleanupReady := True\<rparr>) s)) (
       ret (Inr False)))
     else guard (deletePinnedGrantReceipt x rt r build entry) (ret (Inr True)))"

end
