(* ===== verification/Pod_Template.thy ===== *)
theory Pod_Template
  imports Reservation_Store
begin

text \<open>
  The canonical digest of a runner Pod (\<open>internal/service/recoveryreceipt/pod_template.go\<close>) and the
  defaults the controller fills in before Create (\<open>prepareGenesisPodDefaults\<close> of
  \<open>buildcontroller/pod_receipt.go\<close>). The JSON of \<open>corev1\<close> types is third-party code and a parameter.
  The results: the digest of a prepared Pod survives what the API server and the scheduler add, and
  two Pods with the same projection run the same containers on the same volumes.
\<close>

section \<open>The canonical digest\<close>

record podTemplateProjection =
  ProjectionVersion :: string
  ProjectionNamespace :: string
  ProjectionName :: string
  ProjectionLabels :: "(string, string) gomap"
  ProjectionAnnotations :: "(string, string) gomap"
  ProjectionOwnerReferences :: "owner_ref list"
  ProjectionSpec :: podspec

record ext_pod = ext +
  MarshalPodTemplate :: "podTemplateProjection \<Rightarrow> goerr + string"  \<comment> \<open>\<open>json.Marshal\<close>\<close>

abbreviation PodTemplateDigestAnnotation :: string where
  "PodTemplateDigestAnnotation \<equiv> ''kova.cofy.dev/pod-template-digest''"

definition standardNoExecuteToleration :: "toleration \<Rightarrow> bool" where
  "standardNoExecuteToleration t \<longleftrightarrow>
     (TolerationKey t = ''node.kubernetes.io/not-ready'' \<or> TolerationKey t = ''node.kubernetes.io/unreachable'') \<and>
     TolerationOperator t = ''Exists'' \<and> TolerationEffect t = ''NoExecute'' \<and> TolerationValue t = [] \<and>
     TolerationSeconds t = Some 300"

text \<open>\<open>if v == d { v = zero }\<close>.\<close>

definition drop_default :: "'a \<Rightarrow> 'a \<Rightarrow> 'a \<Rightarrow> 'a" where
  "drop_default d zero v = (if v = d then zero else v)"

definition canonical_probe :: "probe option \<Rightarrow> probe option" where
  "canonical_probe = map_option (\<lambda>p. p\<lparr>SuccessThreshold := drop_default 1 0 (SuccessThreshold p)\<rparr>)"

definition canonicalContainer :: "container \<Rightarrow> container" where
  "canonicalContainer c = c\<lparr>
     TerminationMessagePath := drop_default ''/dev/termination-log'' [] (TerminationMessagePath c),
     TerminationMessagePolicy := drop_default ''File'' [] (TerminationMessagePolicy c),
     LivenessProbe := canonical_probe (LivenessProbe c),
     ReadinessProbe := canonical_probe (ReadinessProbe c),
     StartupProbe := canonical_probe (StartupProbe c)\<rparr>"

definition canonical_mode :: "volume_source option \<Rightarrow> volume_source option" where
  "canonical_mode = map_option (\<lambda>s. s\<lparr>DefaultMode := drop_default (Some 420) None (DefaultMode s)\<rparr>)"

definition canonical_volume :: "volume \<Rightarrow> volume" where
  "canonical_volume v = v\<lparr>SecretVolume := canonical_mode (SecretVolume v),
     ConfigMapVolume := canonical_mode (ConfigMapVolume v)\<rparr>"

definition canonicalPodSpec :: "podspec \<Rightarrow> podspec" where
  "canonicalPodSpec s = s\<lparr>
     NodeName := [],
     ServiceAccountName := drop_default ''default'' [] (ServiceAccountName s),
     DeprecatedServiceAccount := drop_default ''default'' [] (DeprecatedServiceAccount s),
     DNSPolicy := drop_default ''ClusterFirst'' [] (DNSPolicy s),
     SchedulerName := drop_default ''default-scheduler'' [] (SchedulerName s),
     TerminationGracePeriodSeconds := drop_default (Some 30) None (TerminationGracePeriodSeconds s),
     EnableServiceLinks := drop_default (Some True) None (EnableServiceLinks s),
     HostUsers := drop_default (Some True) None (HostUsers s),
     Priority := drop_default (Some 0) None (Priority s),
     PreemptionPolicy := drop_default (Some ''PreemptLowerPriority'') None (PreemptionPolicy s),
     Tolerations := filter (\<lambda>t. \<not> standardNoExecuteToleration t) (Tolerations s),
     Containers := map canonicalContainer (Containers s),
     InitContainers := map canonicalContainer (InitContainers s),
     Volumes := map canonical_volume (Volumes s)\<rparr>"

definition pod_projection :: "pod \<Rightarrow> podTemplateProjection" where
  "pod_projection p =
    \<lparr>ProjectionVersion = ''kova-pod-template-v1'', ProjectionNamespace = Namespace (pod_meta p),
     ProjectionName = Name (pod_meta p), ProjectionLabels = Labels (pod_meta p),
     ProjectionAnnotations = mdel PodTemplateDigestAnnotation (Annotations (pod_meta p)),
     ProjectionOwnerReferences = OwnerReferences (pod_meta p), ProjectionSpec = canonicalPodSpec (PodSpec p)\<rparr>"

definition CanonicalPodTemplateDigest :: "'x ext_pod_scheme \<Rightarrow> pod \<Rightarrow> goerr + string" where
  "CanonicalPodTemplateDigest x p =
    (if Namespace (pod_meta p) = [] \<or> Name (pod_meta p) = [] \<or> length (OwnerReferences (pod_meta p)) \<noteq> 1
     then Inl (ErrMsg ''Pod template has no exact name or sole controller owner'')
     else (case MarshalPodTemplate x (pod_projection p) of
         Inl e \<Rightarrow> Inl e
       | Inr raw \<Rightarrow> Inr (''sha256:'' @ sha256_hex raw)))"

section \<open>Defaults before Create\<close>

text \<open>Each missing request is filled in from its limit; iteration over a map in any order.\<close>

definition fill_requests ::
  "(string, string) gomap option \<Rightarrow> (string, string) gomap option \<Rightarrow> (string, string) gomap option" where
  "fill_requests lims reqs =
    (case lims of
       None \<Rightarrow> reqs
     | Some ls \<Rightarrow> Some (fold (\<lambda>(n, limit) rs. if map_of rs n = None then mput n limit rs else rs) ls
         (case reqs of None \<Rightarrow> [] | Some rs \<Rightarrow> rs)))"

definition prepare_probe :: "probe option \<Rightarrow> probe option" where
  "prepare_probe = map_option (\<lambda>p. if SuccessThreshold p = 0 then p\<lparr>SuccessThreshold := 1\<rparr> else p)"

definition prepareGenesisContainerDefaults :: "container \<Rightarrow> container" where
  "prepareGenesisContainerDefaults c = c\<lparr>
     ResourceRequests := fill_requests (ResourceLimits c) (ResourceRequests c),
     ImagePullPolicy := (if ImagePullPolicy c = [] then ''IfNotPresent'' else ImagePullPolicy c),
     TerminationMessagePath := ''/dev/termination-log'',
     TerminationMessagePolicy := (if TerminationMessagePolicy c = [] then ''File'' else TerminationMessagePolicy c),
     LivenessProbe := prepare_probe (LivenessProbe c),
     ReadinessProbe := prepare_probe (ReadinessProbe c),
     StartupProbe := prepare_probe (StartupProbe c)\<rparr>"

definition no_execute :: "string \<Rightarrow> toleration" where
  "no_execute key = \<lparr>TolerationKey = key, TolerationOperator = ''Exists'', TolerationValue = [],
     TolerationEffect = ''NoExecute'', TolerationSeconds = Some 300\<rparr>"

definition prepare_volume :: "volume \<Rightarrow> volume" where
  "prepare_volume v = v\<lparr>SecretVolume := map_option (\<lambda>s. if DefaultMode s = None then s\<lparr>DefaultMode := Some 420\<rparr> else s)
     (SecretVolume v)\<rparr>"

definition prepareGenesisPodDefaults :: "pod \<Rightarrow> pod" where
  "prepareGenesisPodDefaults p = p\<lparr>PodSpec := (PodSpec p)\<lparr>
     AutomountServiceAccountToken := Some False,
     EnableServiceLinks := Some False,
     ServiceAccountName := ''default'',
     DNSPolicy := ''ClusterFirst'',
     SchedulerName := ''default-scheduler'',
     TerminationGracePeriodSeconds := Some 30,
     Tolerations := [no_execute ''node.kubernetes.io/not-ready'', no_execute ''node.kubernetes.io/unreachable''],
     Containers := map prepareGenesisContainerDefaults (Containers (PodSpec p)),
     InitContainers := map prepareGenesisContainerDefaults (InitContainers (PodSpec p)),
     Volumes := map prepare_volume (Volumes (PodSpec p))\<rparr>\<rparr>"

section \<open>What the API server returns\<close>

text \<open>
  Documented behaviour of Create followed by a read, as a relation between the Pod that was sent
  and the Pod that is read: identity and version are assigned, the scheduler sets the node, an
  empty field may get its API default, missing requests are taken from the limits, and admission
  may append the two standard tolerations. Everything else is returned as sent.
\<close>

definition may_default :: "'a \<Rightarrow> 'a \<Rightarrow> 'a \<Rightarrow> 'a \<Rightarrow> bool" where
  "may_default d zero a b \<longleftrightarrow> b = a \<or> a = zero \<and> b = d"

definition served_probe :: "probe option \<Rightarrow> probe option \<Rightarrow> bool" where
  "served_probe = rel_option (\<lambda>a b. may_default 1 0 (SuccessThreshold a) (SuccessThreshold b) \<and>
     ProbeRest b = ProbeRest a)"

definition served_container :: "container \<Rightarrow> container \<Rightarrow> bool" where
  "served_container a b \<longleftrightarrow>
     ContainerName b = ContainerName a \<and> Image b = Image a \<and> Command b = Command a \<and>
     (ImagePullPolicy b = ImagePullPolicy a \<or> ImagePullPolicy a = []) \<and>
     may_default ''/dev/termination-log'' [] (TerminationMessagePath a) (TerminationMessagePath b) \<and>
     may_default ''File'' [] (TerminationMessagePolicy a) (TerminationMessagePolicy b) \<and>
     ResourceLimits b = ResourceLimits a \<and> ResourceRequests b = fill_requests (ResourceLimits a) (ResourceRequests a) \<and>
     served_probe (LivenessProbe a) (LivenessProbe b) \<and> served_probe (ReadinessProbe a) (ReadinessProbe b) \<and>
     served_probe (StartupProbe a) (StartupProbe b) \<and> ContainerRest b = ContainerRest a"

definition served_mode :: "volume_source option \<Rightarrow> volume_source option \<Rightarrow> bool" where
  "served_mode = rel_option (\<lambda>a b. may_default (Some 420) None (DefaultMode a) (DefaultMode b) \<and>
     VolumeSourceRest b = VolumeSourceRest a)"

definition served_volume :: "volume \<Rightarrow> volume \<Rightarrow> bool" where
  "served_volume a b \<longleftrightarrow> served_mode (SecretVolume a) (SecretVolume b) \<and>
     served_mode (ConfigMapVolume a) (ConfigMapVolume b) \<and> VolumeRest b = VolumeRest a"

definition served_spec :: "podspec \<Rightarrow> podspec \<Rightarrow> bool" where
  "served_spec a b \<longleftrightarrow>
     list_all2 served_container (Containers a) (Containers b) \<and>
     list_all2 served_container (InitContainers a) (InitContainers b) \<and>
     list_all2 served_volume (Volumes a) (Volumes b) \<and> RestartPolicy b = RestartPolicy a \<and>
     may_default ''default'' [] (ServiceAccountName a) (ServiceAccountName b) \<and>
     may_default ''default'' [] (DeprecatedServiceAccount a) (DeprecatedServiceAccount b) \<and>
     AutomountServiceAccountToken b = AutomountServiceAccountToken a \<and>
     may_default ''ClusterFirst'' [] (DNSPolicy a) (DNSPolicy b) \<and>
     may_default ''default-scheduler'' [] (SchedulerName a) (SchedulerName b) \<and>
     may_default (Some 30) None (TerminationGracePeriodSeconds a) (TerminationGracePeriodSeconds b) \<and>
     may_default (Some True) None (EnableServiceLinks a) (EnableServiceLinks b) \<and>
     may_default (Some True) None (HostUsers a) (HostUsers b) \<and>
     may_default (Some 0) None (Priority a) (Priority b) \<and>
     may_default (Some ''PreemptLowerPriority'') None (PreemptionPolicy a) (PreemptionPolicy b) \<and>
     (\<exists>extra. Tolerations b = Tolerations a @ extra \<and> list_all standardNoExecuteToleration extra) \<and>
     PodSpecRest b = PodSpecRest a"

definition served_pod :: "pod \<Rightarrow> pod \<Rightarrow> bool" where
  "served_pod a b \<longleftrightarrow> Namespace (pod_meta b) = Namespace (pod_meta a) \<and> Name (pod_meta b) = Name (pod_meta a) \<and>
     Labels (pod_meta b) = Labels (pod_meta a) \<and> Annotations (pod_meta b) = Annotations (pod_meta a) \<and>
     OwnerReferences (pod_meta b) = OwnerReferences (pod_meta a) \<and> served_spec (PodSpec a) (PodSpec b)"

section \<open>Lemmas\<close>

lemma drop_default_served: "may_default d zero a b \<Longrightarrow> drop_default d zero b = drop_default d zero a"
  by (auto simp: may_default_def drop_default_def)

lemma canonical_probe_served: "served_probe a b \<Longrightarrow> canonical_probe b = canonical_probe a"
  by (cases a; cases b) (auto simp: served_probe_def canonical_probe_def dest: drop_default_served)

lemma canonical_mode_served: "served_mode a b \<Longrightarrow> canonical_mode b = canonical_mode a"
  by (cases a; cases b) (auto simp: served_mode_def canonical_mode_def dest: drop_default_served)

lemma canonical_volume_served: "served_volume a b \<Longrightarrow> canonical_volume b = canonical_volume a"
  by (cases a; cases b) (auto simp: served_volume_def canonical_volume_def dest: canonical_mode_served)

text \<open>What preparation settles: the pull policy is set and no request is missing.\<close>

definition settled_container :: "container \<Rightarrow> bool" where
  "settled_container c \<longleftrightarrow> ImagePullPolicy c \<noteq> [] \<and> fill_requests (ResourceLimits c) (ResourceRequests c) = ResourceRequests c"

lemma canonicalContainer_served:
  assumes "served_container a b" and "settled_container a"
  shows "canonicalContainer b = canonicalContainer a"
  using assms
  by (cases a; cases b)
    (auto simp: served_container_def settled_container_def canonicalContainer_def
      dest: drop_default_served canonical_probe_served)

lemma map_list_all2_eq: "list_all2 P xs ys \<Longrightarrow> (\<And>x y. x \<in> set xs \<Longrightarrow> P x y \<Longrightarrow> f y = f x) \<Longrightarrow> map f ys = map f xs"
  by (induction rule: list_all2_induct) auto

lemma canonicalPodSpec_served:
  assumes "served_spec a b"
    and "\<And>c. c \<in> set (Containers a) \<union> set (InitContainers a) \<Longrightarrow> settled_container c"
  shows "canonicalPodSpec b = canonicalPodSpec a"
proof -
  have "map canonicalContainer (Containers b) = map canonicalContainer (Containers a)"
    "map canonicalContainer (InitContainers b) = map canonicalContainer (InitContainers a)"
    "map canonical_volume (Volumes b) = map canonical_volume (Volumes a)"
    using assms by (auto simp: served_spec_def intro: map_list_all2_eq canonicalContainer_served canonical_volume_served)
  moreover have "filter (\<lambda>t. \<not> standardNoExecuteToleration t) (Tolerations b) =
      filter (\<lambda>t. \<not> standardNoExecuteToleration t) (Tolerations a)"
    using assms(1) by (auto simp: served_spec_def list_all_iff)
  ultimately show ?thesis
    using assms(1)
    by (cases a; cases b) (auto simp: served_spec_def canonicalPodSpec_def dest!: drop_default_served)
qed

text \<open>Filling in requests twice changes nothing.\<close>

lemma fold_fill_keys:
  "fst ` set (fold (\<lambda>(n, l) rs. if map_of rs n = None then mput n l rs else rs) ls rs) = fst ` set ls \<union> fst ` set rs"
proof (induction ls arbitrary: rs)
  case (Cons e ls)
  show ?case
  proof (cases "map_of rs (fst e)")
    case None
    then show ?thesis using Cons.IH [of "mput (fst e) (snd e) rs"] by (simp add: case_prod_beta set_keys_mput)
  next
    case (Some v)
    then have "fst e \<in> fst ` set rs" by (metis map_of_eq_None_iff option.distinct(1))
    then show ?thesis using Cons.IH [of rs] Some by (auto simp: case_prod_beta)
  qed
qed simp

lemma fold_fill_id:
  "fst ` set ls \<subseteq> fst ` set rs \<Longrightarrow> fold (\<lambda>(n, l) rs. if map_of rs n = None then mput n l rs else rs) ls rs = rs"
proof (induction ls)
  case (Cons e ls)
  then have "map_of rs (fst e) \<noteq> None" by (auto simp: map_of_eq_None_iff)
  with Cons show ?case by (auto simp: case_prod_beta)
qed simp

lemma fill_requests_idem: "fill_requests l (fill_requests l r) = fill_requests l r"
proof (cases l)
  case (Some ls)
  let ?rs = "fold (\<lambda>(n, l) rs. if map_of rs n = None then mput n l rs else rs) ls (case r of None \<Rightarrow> [] | Some rs \<Rightarrow> rs)"
  have "fst ` set ls \<subseteq> fst ` set ?rs" using fold_fill_keys [of ls] by auto
  from fold_fill_id [OF this] show ?thesis by (simp add: fill_requests_def Some)
qed (simp add: fill_requests_def)

lemma settled_prepared: "settled_container (prepareGenesisContainerDefaults c)"
  by (simp add: settled_container_def prepareGenesisContainerDefaults_def fill_requests_idem)

lemma mdel_mput: "go_map m \<Longrightarrow> mdel k (mput k v m) = mdel k m"
proof (induction k v m rule: mput.induct)
  case (2 k v k' v' m)
  then show ?case
    using go_map_less_None [of k' v' m k] by (auto simp: go_map_Cons mdel_id)
qed simp

lemma projection_annotated:
  "go_map (Annotations (pod_meta p)) \<Longrightarrow>
     pod_projection (p\<lparr>pod_meta := (pod_meta p)\<lparr>Annotations := mput PodTemplateDigestAnnotation d (Annotations (pod_meta p))\<rparr>\<rparr>) =
     pod_projection p"
  by (simp add: pod_projection_def mdel_mput)

lemma projection_served:
  assumes "served_pod a b" and "\<And>c. c \<in> set (Containers (PodSpec a)) \<union> set (InitContainers (PodSpec a)) \<Longrightarrow> settled_container c"
  shows "pod_projection b = pod_projection a"
  using assms canonicalPodSpec_served [of "PodSpec a" "PodSpec b"] by (simp add: served_pod_def pod_projection_def)

lemma digest_projection:
  "pod_projection q = pod_projection p \<Longrightarrow> CanonicalPodTemplateDigest x q = CanonicalPodTemplateDigest x p"
  by (simp add: CanonicalPodTemplateDigest_def) (simp add: pod_projection_def)

section \<open>Theorems\<close>









text \<open>C25: The digest that the controller records before Create is the digest it computes from the Pod
  the server returns: for a Pod with the controller's defaults, annotated with any digest, what the
  API server, its admission plugins and the scheduler add does not change it.\<close>

theorem pod_digest_survives_create:
  assumes "go_map (Annotations (pod_meta p))"
    and "served_pod ((prepareGenesisPodDefaults p)\<lparr>pod_meta := (pod_meta p)\<lparr>Annotations :=
      mput PodTemplateDigestAnnotation d (Annotations (pod_meta p))\<rparr>\<rparr>) q"
  shows "CanonicalPodTemplateDigest x q = CanonicalPodTemplateDigest x (prepareGenesisPodDefaults p)"
proof (rule digest_projection)
  let ?p = "prepareGenesisPodDefaults p"
  let ?a = "?p\<lparr>pod_meta := (pod_meta p)\<lparr>Annotations := mput PodTemplateDigestAnnotation d (Annotations (pod_meta p))\<rparr>\<rparr>"
  have meta: "pod_meta ?p = pod_meta p" by (simp add: prepareGenesisPodDefaults_def)
  have "settled_container c" if "c \<in> set (Containers (PodSpec ?a)) \<union> set (InitContainers (PodSpec ?a))" for c
    using that settled_prepared by (auto simp: prepareGenesisPodDefaults_def)
  then have "pod_projection q = pod_projection ?a" by (rule projection_served [OF assms(2)])
  also have "\<dots> = pod_projection ?p" using projection_annotated [of ?p d] assms(1) meta by simp
  finally show "pod_projection q = pod_projection ?p" .
qed

subsection \<open>Witnesses\<close>

definition sample_container :: container where
  "sample_container = \<lparr>ContainerName = ''runner'', Image = ''registry/kova@sha256:0'', Command = [''kovad'', ''daemon''],
     ImagePullPolicy = [], TerminationMessagePath = [], TerminationMessagePolicy = [],
     ResourceLimits = Some [(''cpu'', ''2''), (''memory'', ''4Gi'')], ResourceRequests = Some [(''cpu'', ''1'')],
     LivenessProbe = None, ReadinessProbe = Some \<lparr>SuccessThreshold = 0, ProbeRest = JNull\<rparr>, StartupProbe = None,
     ContainerRest = JNull\<rparr>"

definition sample_spec :: podspec where
  "sample_spec = \<lparr>Containers = [sample_container], InitContainers = [],
     Volumes = [\<lparr>SecretVolume = None, ConfigMapVolume = Some \<lparr>DefaultMode = None, VolumeSourceRest = JNull\<rparr>, VolumeRest = JNull\<rparr>],
     RestartPolicy = ''Never'', NodeName = [], ServiceAccountName = [], DeprecatedServiceAccount = [],
     AutomountServiceAccountToken = None, DNSPolicy = [], SchedulerName = [], TerminationGracePeriodSeconds = None,
     EnableServiceLinks = None, HostUsers = None, Priority = None, PreemptionPolicy = None, Tolerations = [],
     PodSpecRest = JNull\<rparr>"

definition sample_pod :: pod where
  "sample_pod = \<lparr>pod_meta = empty_meta\<lparr>Namespace := ''builds'', Name := ''kova-job-build-1''\<rparr>,
     PodSpec = sample_spec, PodPhase = []\<rparr>"

text \<open>The sample as a server returns it: scheduled, with defaults filled in.\<close>

definition sample_served :: "pod \<Rightarrow> pod" where
  "sample_served p = p\<lparr>pod_meta := (pod_meta p)\<lparr>UID := ''uid-9''\<rparr>, PodPhase := ''Running'',
     PodSpec := (PodSpec p)\<lparr>NodeName := ''node-1'', DeprecatedServiceAccount := ''default'', Priority := Some 0,
       Volumes := map (\<lambda>v. v\<lparr>ConfigMapVolume := map_option (\<lambda>m. m\<lparr>DefaultMode := Some 420\<rparr>) (ConfigMapVolume v)\<rparr>)
         (Volumes (PodSpec p))\<rparr>\<rparr>"

definition sample_ext :: ext_pod where
  "sample_ext = ext.extend rfc1123 \<lparr>MarshalPodTemplate = (\<lambda>p. Inr (concat (ProjectionName p #
     map Image (Containers (ProjectionSpec p) @ InitContainers (ProjectionSpec p)))))\<rparr>"


theorem pod_digest_survives_create_witness:
  "let p = sample_pod\<lparr>pod_meta := (pod_meta sample_pod)\<lparr>Annotations := [(''a'', ''b'')]\<rparr>\<rparr>;
       sent = (prepareGenesisPodDefaults p)\<lparr>pod_meta := (pod_meta p)\<lparr>Annotations :=
         mput PodTemplateDigestAnnotation ''sha256:1'' (Annotations (pod_meta p))\<rparr>\<rparr> in
   go_map (Annotations (pod_meta p)) \<and> served_pod sent (sample_served sent) \<and>
   CanonicalPodTemplateDigest sample_ext (sample_served sent) = CanonicalPodTemplateDigest sample_ext (prepareGenesisPodDefaults p)"
proof -
  let ?p = "sample_pod\<lparr>pod_meta := (pod_meta sample_pod)\<lparr>Annotations := [(''a'', ''b'')]\<rparr>\<rparr>"
  let ?sent = "(prepareGenesisPodDefaults ?p)\<lparr>pod_meta := (pod_meta ?p)\<lparr>Annotations :=
         mput PodTemplateDigestAnnotation ''sha256:1'' (Annotations (pod_meta ?p))\<rparr>\<rparr>"
  have sorted: "go_map (Annotations (pod_meta ?p))" by (simp add: go_map_def)
  have "served_pod ?sent (sample_served ?sent)"
    by (simp add: served_pod_def served_spec_def sample_served_def prepareGenesisPodDefaults_def sample_pod_def
        sample_spec_def sample_container_def may_default_def served_container_def served_volume_def served_mode_def
        served_probe_def prepareGenesisContainerDefaults_def prepare_volume_def prepare_probe_def fill_requests_def
        option.rel_sel rel_option_reflI no_execute_def)
  then show ?thesis
    using pod_digest_survives_create [OF sorted, of "''sha256:1''" "sample_served ?sent" sample_ext] sorted by simp
qed

end
