(* ===== verification/Pod_Receipt.thy ===== *)
theory Pod_Receipt
  imports Grant_Receipt Pod_Template
begin

text \<open>
  The receipt protocol of the one Pod creation of a grant
  (\<open>internal/service/buildcontroller/pod_receipt.go\<close>): the spent nonce is armed with the digest of
  the Pod template, the receipt is created once and pinned, and the last write of the ledger, the
  issue fence, authorises the Create.
\<close>

section \<open>The intent\<close>

definition samePodAttempt :: "activeReservation \<Rightarrow> activeReservation \<Rightarrow> bool" where
  "samePodAttempt a b \<longleftrightarrow> sameGrant a b \<and> RGrantObservedRV a = RGrantObservedRV b \<and>
     RGrantReceiptUID a = RGrantReceiptUID b \<and> RGrantReceiptDigest a = RGrantReceiptDigest b \<and>
     RPodAttemptNonce a = RPodAttemptNonce b"

abbreviation MaterializedSourcePath :: string where
  "MaterializedSourcePath \<equiv> ''/var/lib/kova/source/source.zip''"

definition validateGenesisPodRuntimeIdentity :: "config \<Rightarrow> KovaBuild \<Rightarrow> pod \<Rightarrow> goerr option" where
  "validateGenesisPodRuntimeIdentity cfg build p =
    (case Containers (PodSpec p) of
       [c] \<Rightarrow>
         if ContainerName c \<noteq> ''runner'' \<or> Image c \<noteq> CfgRunnerImage cfg \<or> Command c \<noteq> [''kovad'', ''daemon''] \<or>
            RestartPolicy (PodSpec p) \<noteq> ''Never''
         then Some (ErrMsg ''Genesis Pod runner differs from pinned image and command'')
         else if URI (Source (Spec build)) = [] then
           (if InitContainers (PodSpec p) \<noteq> []
            then Some (ErrMsg ''Genesis Pod has unexpected source-fetch container'') else None)
         else (case InitContainers (PodSpec p) of
             [i] \<Rightarrow>
               if ContainerName i \<noteq> ''source-fetch'' \<or> Image i \<noteq> CfgRunnerImage cfg
               then Some (ErrMsg ''Genesis Pod source-fetch image differs from pinned runner image'')
               else let want = [''kovad'', ''source'', ''fetch'', ''--uri'', URI (Source (Spec build)),
                      ''--digest'', SourceDigest (Source (Spec build)), ''--output'', MaterializedSourcePath] in
                 if length (Command i) < length want \<or> take (length want) (Command i) \<noteq> want
                 then Some (ErrMsg ''Genesis Pod source-fetch command differs from original source'') else None
           | _ \<Rightarrow> Some (ErrMsg ''Genesis Pod source-fetch image differs from pinned runner image''))
     | _ \<Rightarrow> Some (ErrMsg ''Genesis Pod runner differs from pinned image and command''))"

definition RequestID :: "KovaBuild \<Rightarrow> string" where
  "RequestID build = (if UID (build_meta build) \<noteq> [] then UID (build_meta build)
     else Namespace (build_meta build) @ ''/'' @ Name (build_meta build))"

definition podIntentWithObservation ::
  "'x ext_scheme \<Rightarrow> 'w runtime \<Rightarrow> 'w KovaBuildReconciler \<Rightarrow> bool \<Rightarrow> KovaBuild \<Rightarrow> activeReservation \<Rightarrow> Observation option \<Rightarrow>
     ('w, goerr + PodCreateIntent) op" where
  "podIntentWithObservation x rt r ctx build entry obs =
    guard (ret (if obs \<noteq> None then AssertNoOrdinaryContext obs (RGenesis r) ctx else None)) (
    if \<not> validReservationHex (RPodAttemptNonce entry) 32 \<or> \<not> validGrantReceiptDigest (RPodTemplateDigest entry) \<or>
       \<not> validGrantReceiptUID (RGrantReceiptUID entry) \<or> \<not> validGrantReceiptDigest (RGrantReceiptDigest entry)
    then ret (Inl (ErrMsg ''Genesis Pod attempt has no reconstructible pre-effect identity''))
    else attempt (grantIntentWithObservation x rt r ctx build entry obs) (\<lambda>grant.
    attempt (ret (NewGrantConfigMap x grant)) (\<lambda>grantCM.
    case RGenesis r of
      None \<Rightarrow> ret (Inl nil_deref)
    | Some g \<Rightarrow>
        if CfgRunnerImage (Cfg r) \<noteq> RunnerImage (ReceiptContract (BReceipt (Bootstrap g)))
        then ret (Inl (ErrMsg ''runner image differs from immutable admission Genesis''))
        else (case RunnerManifestDigest x (CfgRunnerImage (Cfg r)) of
            Inl _ \<Rightarrow> ret (Inl (ErrMsg ''runner image digest is not derived from the original manifest reference''))
          | Inr digest \<Rightarrow>
              if digest \<noteq> CfgRunnerImageDigest (Cfg r)
              then ret (Inl (ErrMsg ''runner image digest is not derived from the original manifest reference''))
              else ret (Inr \<lparr>PodBuild = GrantBuild grant,
                GrantReceipt = \<lparr>LinkName = Name (cm_meta grantCM), LinkUID = RGrantReceiptUID entry,
                  LinkDataDigest = RGrantReceiptDigest entry\<rparr>,
                PodName = buildPodName (Name (build_meta build)), PodAttemptNonce = RPodAttemptNonce entry,
                PodTemplateDigest = RPodTemplateDigest entry, RunnerImageDigest = digest,
                BuildRequestID = RequestID build\<rparr>)))))"

definition podIntent ::
  "'x ext_scheme \<Rightarrow> 'w runtime \<Rightarrow> 'w KovaBuildReconciler \<Rightarrow> KovaBuild \<Rightarrow> activeReservation \<Rightarrow> ('w, goerr + PodCreateIntent) op" where
  "podIntent x rt r build entry = podIntentWithObservation x rt r True build entry None"

section \<open>Observation\<close>

definition observePodReceiptWithObservation ::
  "'x ext_scheme \<Rightarrow> 'w runtime \<Rightarrow> 'w KovaBuildReconciler \<Rightarrow> bool \<Rightarrow> KovaBuild \<Rightarrow> activeReservation \<Rightarrow> Observation option \<Rightarrow>
     ('w, goerr + EffectWitness) op" where
  "observePodReceiptWithObservation x rt r ctx build entry obs =
    guard (ret (AssertNoOrdinaryContext obs (RGenesis r) ctx)) (
    guard (checkGrantReceiptNamespaceWithObservation x rt r False (Namespace (build_meta build)) obs) (
    attempt (podIntentWithObservation x rt r False build entry obs) (\<lambda>intent.
    attempt (Observation_Read rt obs (RGenesis r) (ObservePodCreate x (RecoveryReceipts r) intent)) (\<lambda>witness.
    guard (checkGrantReceiptNamespaceWithObservation x rt r False (Namespace (build_meta build)) obs) (
    ret (Inr witness))))))"

definition observePodReceipt ::
  "'x ext_scheme \<Rightarrow> 'w runtime \<Rightarrow> 'w KovaBuildReconciler \<Rightarrow> KovaBuild \<Rightarrow> activeReservation \<Rightarrow> ('w, goerr + EffectWitness) op" where
  "observePodReceipt x rt r build entry =
    (if \<not> rc_guarded r then ret (Inl (ErrMsg ''Genesis Pod observation requires an original guard''))
     else ObserveValue x rt (RGenesis r) (\<lambda>obs. observePodReceiptWithObservation x rt r False build entry (Some obs)))"

definition verifyPinnedPodReceiptWithObservation ::
  "'x ext_scheme \<Rightarrow> 'w runtime \<Rightarrow> 'w KovaBuildReconciler \<Rightarrow> bool \<Rightarrow> KovaBuild \<Rightarrow> activeReservation \<Rightarrow> bool \<Rightarrow>
     Observation option \<Rightarrow> ('w, goerr option) op" where
  "verifyPinnedPodReceiptWithObservation x rt r ctx build entry allowClosing obs =
    guardE (ret (AssertNoOrdinaryContext obs (RGenesis r) ctx)) (
    if \<not> allowClosing \<and> RClosing entry then ret (Some (Wrap ''Pod attempt is closing'' ErrAdmissionClosed))
    else if RPodReceiptUID entry = [] \<or> RPodReceiptDigest entry = [] then
      (if RPodTemplateDigest entry \<noteq> [] then do {
         _ \<leftarrow> observePodReceiptWithObservation x rt r False build entry obs;
         ret (Some ErrPodReceiptUnpinned) }
       else ret (Some ErrPodReceiptUnpinned))
    else attemptE (observePodReceiptWithObservation x rt r False build entry obs) (\<lambda>witness.
      if EffectReceiptUID witness \<noteq> RPodReceiptUID entry \<or> EffectDataDigest witness \<noteq> RPodReceiptDigest entry
      then ret (Some ErrReceiptChanged) else ret None))"

definition verifyPinnedPodReceipt ::
  "'x ext_scheme \<Rightarrow> 'w runtime \<Rightarrow> 'w KovaBuildReconciler \<Rightarrow> KovaBuild \<Rightarrow> activeReservation \<Rightarrow> bool \<Rightarrow> ('w, goerr option) op" where
  "verifyPinnedPodReceipt x rt r build entry allowClosing =
    (if \<not> rc_guarded r then ret (Some (ErrMsg ''Genesis Pod verification requires an original guard''))
     else Observe x rt (RGenesis r)
       (\<lambda>obs. verifyPinnedPodReceiptWithObservation x rt r False build entry allowClosing (Some obs)))"

section \<open>Arming\<close>

text \<open>The reads of one round, in one observation: the ledger with the entry, after the checks.\<close>

definition observe_unarmed ::
  "'x ext_scheme \<Rightarrow> 'w runtime \<Rightarrow> 'w KovaBuildReconciler \<Rightarrow> KovaBuild \<Rightarrow> string \<Rightarrow>
     ('w, goerr + configmap \<times> reservationState \<times> activeReservation) op" where
  "observe_unarmed x rt r build att =
    ObserveValue x rt (RGenesis r) (\<lambda>obs.
      attempt (readReservationsWithObservation x rt r False (Namespace (build_meta build)) (Some obs)) (\<lambda>(cm, s).
      case entry_if (\<lambda>e. RBuildName e = Name (build_meta build) \<and> RPodAttemptNonce e = att \<and>
          RPodTemplateDigest e = [] \<and> RPodReceiptUID e = [] \<and> \<not> RClosing e \<and> RInFlight e = []) s build of
        None \<Rightarrow> ret (Inl (ErrMsg ''fresh Pod attempt lost its unarmed active charge''))
      | Some entry \<Rightarrow>
          guard (Observation_ReadE rt (Some obs) (RGenesis r) (ensureLiveAdmissionBuild r build)) (
          guard (verifyPinnedGrantWithObservation x rt r False build entry (Some obs)) (
          ret (Inr (cm, s, entry))))))"

definition armFreshPodAttempt ::
  "'x ext_scheme \<Rightarrow> 'w runtime \<Rightarrow> 'w KovaBuildReconciler \<Rightarrow> KovaBuild \<Rightarrow> string \<Rightarrow> string \<Rightarrow>
     ('w, goerr + activeReservation) op" where
  "armFreshPodAttempt x rt r build att digest =
    (if \<not> validReservationHex att 32 \<or> \<not> validGrantReceiptDigest digest
     then ret (Inl (ErrMsg ''invalid Pod attempt or canonical template digest''))
     else for_retry maxReservationCASAttempts (\<lambda>retry.
       rtry (observe_unarmed x rt r build att) (\<lambda>(cm, s, entry). do {
         let entry' = entry\<lparr>RPodTemplateDigest := digest\<rparr>;
         w \<leftarrow> writeReservations x r cm (put_active (reservationKey build) entry' s);
         case w of
           Some err \<Rightarrow>
             if IsConflict err then rguard (waitReservationCAS rt retry) (ret Continue)
             else ret (Return (Inl err))
         | None \<Rightarrow>
             rtry (readReservations x rt r (Namespace (build_meta build))) (\<lambda>(_, observed).
             case entry_if (\<lambda>e. samePodAttempt e entry' \<and> RPodTemplateDigest e = digest \<and> RPodReceiptUID e = [] \<and>
                 \<not> RClosing e \<and> RInFlight e = []) observed build of
               None \<Rightarrow> ret (Return (Inl (ErrMsg ''armed Pod attempt changed before receipt Create'')))
             | Some armed \<Rightarrow> ret (Return (Inr armed))) }))
       (ret (Inl (ErrMsg ''active ledger is busy arming Pod attempt''))))"

section \<open>Pinning\<close>

definition pod_pinned_as :: "activeReservation \<Rightarrow> EffectWitness \<Rightarrow> activeReservation \<Rightarrow> bool" where
  "pod_pinned_as armed witness e \<longleftrightarrow> samePodAttempt e armed \<and> RPodTemplateDigest e = RPodTemplateDigest armed \<and>
     RPodReceiptUID e = EffectReceiptUID witness \<and> RPodReceiptDigest e = EffectDataDigest witness"

definition pinPodReceipt ::
  "'x ext_scheme \<Rightarrow> 'w runtime \<Rightarrow> 'w KovaBuildReconciler \<Rightarrow> KovaBuild \<Rightarrow> activeReservation \<Rightarrow> EffectWitness \<Rightarrow>
     ('w, goerr + activeReservation) op" where
  "pinPodReceipt x rt r build armed witness =
    (let ns = Namespace (build_meta build) in
     if \<not> validGrantReceiptUID (EffectReceiptUID witness) \<or> \<not> validGrantReceiptDigest (EffectDataDigest witness)
     then ret (Inl ErrReceiptChanged)
     else for_retry maxReservationCASAttempts (\<lambda>retry.
       rtry (readReservations x rt r ns) (\<lambda>(cm, s).
       case entry_if (\<lambda>e. samePodAttempt e armed \<and> RPodTemplateDigest e = RPodTemplateDigest armed \<and>
           \<not> RPodCleanupReady e) s build of
         None \<Rightarrow> ret (Return (Inl (ErrMsg ''Pod attempt changed before receipt pin'')))
       | Some entry \<Rightarrow>
           if RPodReceiptUID entry \<noteq> [] then
             (if RPodReceiptUID entry \<noteq> EffectReceiptUID witness \<or> RPodReceiptDigest entry \<noteq> EffectDataDigest witness
              then ret (Return (Inl ErrReceiptChanged)) else ret (Return (Inr entry)))
           else do {
             let entry' = entry\<lparr>RPodReceiptUID := EffectReceiptUID witness, RPodReceiptDigest := EffectDataDigest witness\<rparr>;
             w \<leftarrow> writeReservations x r cm (put_active (reservationKey build) entry' s);
             case w of
               Some err \<Rightarrow>
                 if IsConflict err then rguard (waitReservationCAS rt retry) (ret Continue)
                 else do {
                   back \<leftarrow> readReservations x rt r ns;
                   case back of
                     Inl _ \<Rightarrow> ret (Return (Inl err))
                   | Inr (_, observed) \<Rightarrow>
                       (case entry_if (pod_pinned_as armed witness) observed build of
                          Some pinned \<Rightarrow> ret (Return (Inr pinned))
                        | None \<Rightarrow> ret (Return (Inl err))) }
             | None \<Rightarrow>
                 rtry (readReservations x rt r ns) (\<lambda>(_, observed).
                 case entry_if (pod_pinned_as armed witness) observed build of
                   None \<Rightarrow> ret (Return (Inl ErrReceiptChanged))
                 | Some pinned \<Rightarrow> ret (Return (Inr pinned))) }))
       (ret (Inl (ErrMsg ''active ledger is busy pinning Pod receipt''))))"

section \<open>The issue fence\<close>

definition issue_recorded :: "activeReservation \<Rightarrow> activeReservation \<Rightarrow> bool" where
  "issue_recorded issued e \<longleftrightarrow> samePodAttempt e issued \<and> \<not> RClosing e \<and> \<not> RPodCleanupReady e \<and>
     RPodTemplateDigest e = RPodTemplateDigest issued \<and> RPodReceiptUID e = RPodReceiptUID issued \<and>
     RPodReceiptDigest e = RPodReceiptDigest issued \<and> RInFlight e = [RPodAttemptNonce issued]"

definition freshIssueRecorded ::
  "'x ext_scheme \<Rightarrow> 'w runtime \<Rightarrow> 'w KovaBuildReconciler \<Rightarrow> KovaBuild \<Rightarrow> activeReservation \<Rightarrow> ('w, goerr option) op" where
  "freshIssueRecorded x rt r build issued =
    attemptE (readReservations x rt r (Namespace (build_meta build))) (\<lambda>(_, s).
    if entry_if (issue_recorded issued) s build = None
    then ret (Some (ErrMsg ''Pod Create issue fence is not durably recorded'')) else ret None)"

definition observe_pinned ::
  "'x ext_scheme \<Rightarrow> 'w runtime \<Rightarrow> 'w KovaBuildReconciler \<Rightarrow> KovaBuild \<Rightarrow> activeReservation \<Rightarrow>
     ('w, goerr + configmap \<times> reservationState \<times> activeReservation) op" where
  "observe_pinned x rt r build pinned =
    ObserveValue x rt (RGenesis r) (\<lambda>obs.
      attempt (readReservationsWithObservation x rt r False (Namespace (build_meta build)) (Some obs)) (\<lambda>(cm, s).
      case entry_if (\<lambda>e. samePodAttempt e pinned \<and> RPodTemplateDigest e = RPodTemplateDigest pinned \<and>
          RPodReceiptUID e = RPodReceiptUID pinned \<and> RPodReceiptDigest e = RPodReceiptDigest pinned \<and>
          \<not> RClosing e \<and> \<not> RPodCleanupReady e \<and> RInFlight e = []) s build of
        None \<Rightarrow> ret (Inl (ErrMsg ''pinned Pod attempt changed before Create issue''))
      | Some entry \<Rightarrow>
          guard (Observation_ReadE rt (Some obs) (RGenesis r) (ensureLiveAdmissionBuild r build)) (
          guard (verifyPinnedGrantWithObservation x rt r False build entry (Some obs)) (
          guard (verifyPinnedPodReceiptWithObservation x rt r False build entry False (Some obs)) (
          ret (Inr (cm, s, entry)))))))"

definition authorizeFreshPodCreate ::
  "'x ext_scheme \<Rightarrow> 'w runtime \<Rightarrow> 'w KovaBuildReconciler \<Rightarrow> KovaBuild \<Rightarrow> activeReservation \<Rightarrow> ('w, goerr option) op" where
  "authorizeFreshPodCreate x rt r build pinned =
    for_retry maxReservationCASAttempts (\<lambda>retry.
      rtryE (observe_pinned x rt r build pinned) (\<lambda>(cm, s, entry). do {
        let entry' = entry\<lparr>RInFlight := [RPodAttemptNonce pinned]\<rparr>;
        w \<leftarrow> writeReservations x r cm (put_active (reservationKey build) entry' s);
        case w of
          Some err \<Rightarrow>
            if IsConflict err then rguardE (waitReservationCAS rt retry) (ret Continue)
            else do {
              recorded \<leftarrow> freshIssueRecorded x rt r build entry';
              if recorded = None then ret (Return None) else ret (Return (Some err)) }
        | None \<Rightarrow> do { e \<leftarrow> freshIssueRecorded x rt r build entry'; ret (Return e) } }))
      (ret (Some (ErrMsg ''active ledger is busy issuing Pod Create'')))"

text \<open>The Pod with its digest annotation is what the caller creates; Go sets it on the caller's Pod.\<close>

definition finishFreshPodAttempt ::
  "'x ext_pod_scheme \<Rightarrow> 'w runtime \<Rightarrow> 'w KovaBuildReconciler \<Rightarrow> KovaBuild \<Rightarrow> pod \<Rightarrow> string \<Rightarrow> ('w, goerr + pod) op" where
  "finishFreshPodAttempt x rt r build p att =
    (let ns = Namespace (build_meta build) in
     if Namespace (pod_meta p) \<noteq> ns \<or> Name (pod_meta p) \<noteq> buildPodName (Name (build_meta build)) \<or>
        mget (Annotations (pod_meta p)) podCreateAttemptKey \<noteq> att \<or> \<not> podOwnedByBuild p build
     then ret (Inl (ErrMsg ''Pod template differs from fresh attempt or CR owner''))
     else guard (ret (validateGenesisPodRuntimeIdentity (Cfg r) build p)) (
     attempt (ret (CanonicalPodTemplateDigest x p)) (\<lambda>digest.
     let p' = p\<lparr>pod_meta := (pod_meta p)\<lparr>Annotations :=
       mput PodTemplateDigestAnnotation digest (Annotations (pod_meta p))\<rparr>\<rparr> in
     attempt (armFreshPodAttempt x rt r build att digest) (\<lambda>armed.
     attempt (ObserveValue x rt (RGenesis r) (\<lambda>obs.
       guard (Observation_ReadE rt (Some obs) (RGenesis r) (ensureLiveAdmissionBuild r build)) (
       guard (checkGrantReceiptNamespaceWithObservation x rt r False ns (Some obs)) (
       podIntentWithObservation x rt r False build armed (Some obs))))) (\<lambda>intent.
     attempt (RecordPodCreateOnce x (RecoveryReceipts r) intent) (\<lambda>witness.
     guard (checkGrantReceiptNamespace x rt r ns) (
     attempt (pinPodReceipt x rt r build armed witness) (\<lambda>pinned.
     guard (authorizeFreshPodCreate x rt r build pinned) (
     ret (Inr p'))))))))))"

section \<open>A created Pod\<close>

definition qualifyGenesisPodWithObservation ::
  "'x ext_pod_scheme \<Rightarrow> 'w runtime \<Rightarrow> 'w KovaBuildReconciler \<Rightarrow> bool \<Rightarrow> KovaBuild \<Rightarrow> pod \<Rightarrow> bool \<Rightarrow> Observation option \<Rightarrow>
     ('w, goerr option) op" where
  "qualifyGenesisPodWithObservation x rt r ctx build p allowClosing obs =
    guardE (ret (if obs \<noteq> None then AssertNoOrdinaryContext obs (RGenesis r) ctx else None)) (
    if UID (pod_meta p) = [] \<or> Namespace (pod_meta p) \<noteq> Namespace (build_meta build) \<or>
       Name (pod_meta p) \<noteq> buildPodName (Name (build_meta build)) \<or> \<not> podOwnedByBuild p build
    then ret (Some (ErrMsg ''Genesis Pod has no exact original UID and CR owner''))
    else guardE (ret (validateGenesisPodRuntimeIdentity (Cfg r) build p)) (
    attemptE (readReservationsWithObservation x rt r ctx (Namespace (build_meta build)) obs) (\<lambda>(_, s).
    case entry_if (\<lambda>e. RBuildName e = Name (build_meta build) \<and> RPodAttemptNonce e \<noteq> [] \<and> RPodReceiptUID e \<noteq> [] \<and>
        mget (Annotations (pod_meta p)) podCreateAttemptKey = RPodAttemptNonce e \<and>
        mget (Annotations (pod_meta p)) PodTemplateDigestAnnotation = RPodTemplateDigest e) s build of
      None \<Rightarrow> ret (Some (ErrMsg ''Genesis Pod lacks the original receipted attempt''))
    | Some entry \<Rightarrow>
        if CanonicalPodTemplateDigest x p \<noteq> Inr (RPodTemplateDigest entry)
        then ret (Some (ErrMsg ''Genesis Pod execution template differs from immutable pre-Create receipt''))
        else if obs \<noteq> None then verifyPinnedPodReceiptWithObservation x rt r ctx build entry allowClosing obs
        else verifyPinnedPodReceipt x rt r build entry allowClosing)))"

definition qualifyGenesisPod ::
  "'x ext_pod_scheme \<Rightarrow> 'w runtime \<Rightarrow> 'w KovaBuildReconciler \<Rightarrow> KovaBuild \<Rightarrow> pod \<Rightarrow> bool \<Rightarrow> ('w, goerr option) op" where
  "qualifyGenesisPod x rt r build p allowClosing = qualifyGenesisPodWithObservation x rt r True build p allowClosing None"

definition pinnedGenesisPodForBuild ::
  "'x ext_pod_scheme \<Rightarrow> 'w runtime \<Rightarrow> 'w KovaBuildReconciler \<Rightarrow> KovaBuild \<Rightarrow> bool \<Rightarrow> ('w, goerr + pod) op" where
  "pinnedGenesisPodForBuild x rt r build allowClosing =
    attempt (via (rc_reader r) (\<lambda>rd. Get_pod rd (Namespace (build_meta build)) (buildPodName (Name (build_meta build))))) (\<lambda>p.
    guard (qualifyGenesisPod x rt r build p allowClosing) (ret (Inr p)))"

definition completeGenesisPodCreate ::
  "'x ext_scheme \<Rightarrow> 'w runtime \<Rightarrow> 'w KovaBuildReconciler \<Rightarrow> KovaBuild \<Rightarrow> string \<Rightarrow> ('w, goerr option) op" where
  "completeGenesisPodCreate x rt r build att =
    (let ns = Namespace (build_meta build) in
     for_retry maxReservationCASAttempts (\<lambda>retry.
       rtryE (readReservations x rt r ns) (\<lambda>(cm, s).
       case entry_if (\<lambda>e. RBuildName e = Name (build_meta build) \<and> RPodAttemptNonce e = att \<and> RPodReceiptUID e \<noteq> []) s build of
         None \<Rightarrow> ret (Return (Some (ErrMsg ''Genesis Pod completion lacks exact spent and receipted attempt'')))
       | Some entry \<Rightarrow>
           if RInFlight entry = [] then ret (Return None)
           else if RInFlight entry \<noteq> [att]
           then ret (Return (Some (ErrMsg ''Genesis Pod completion differs from in-flight issue fence'')))
           else rguardE (verifyPinnedPodReceipt x rt r build entry True) (do {
             let entry' = entry\<lparr>RInFlight := []\<rparr>;
             w \<leftarrow> writeReservations x r cm (put_active (reservationKey build) entry' s);
             case w of
               None \<Rightarrow> ret (Return None)
             | Some err \<Rightarrow>
                 if IsConflict err then rguardE (waitReservationCAS rt retry) (ret Continue)
                 else do {
                   back \<leftarrow> readReservations x rt r ns;
                   case back of
                     Inl _ \<Rightarrow> ret (Return (Some err))
                   | Inr (_, observed) \<Rightarrow>
                       if entry_if (\<lambda>e. samePodAttempt e entry' \<and> RPodReceiptUID e = RPodReceiptUID entry' \<and>
                           RInFlight e = []) observed build \<noteq> None
                       then ret (Return None) else ret (Return (Some err)) } })))
       (ret (Some (ErrMsg ''active ledger is busy completing Pod Create''))))"

section \<open>Cleanup\<close>

definition deletePinnedPodReceipt ::
  "'x ext_scheme \<Rightarrow> 'w runtime \<Rightarrow> 'w KovaBuildReconciler \<Rightarrow> KovaBuild \<Rightarrow> activeReservation \<Rightarrow> ('w, goerr option) op" where
  "deletePinnedPodReceipt x rt r build entry =
    (if \<not> RPodCleanupReady entry \<or> \<not> RClosing entry \<or> RPodReceiptUID entry = []
     then ret (Some (ErrMsg ''Pod receipt lacks durable cleanup disposition''))
     else guardE (checkGrantReceiptNamespace x rt r (Namespace (build_meta build))) (
       attemptE (podIntent x rt r build entry) (\<lambda>intent.
       attemptE (ret (NewPodCreateConfigMap x intent)) (\<lambda>expected.
       guardE (delete_receipt (RecoveryReceipts r) (Name (cm_meta expected)) (\<lambda>cm. QualifyPodCreate x intent (Some cm))
         (RPodReceiptUID entry) (RPodReceiptDigest entry)) (
       guardE (checkGrantReceiptNamespace x rt r (Namespace (build_meta build))) (
       Check x (RGenesis r)))))))"

definition releaseGenesisPodReceipt ::
  "'x ext_scheme \<Rightarrow> 'w runtime \<Rightarrow> 'w KovaBuildReconciler \<Rightarrow> KovaBuild \<Rightarrow> configmap \<Rightarrow> reservationState \<Rightarrow> activeReservation \<Rightarrow>
     ('w, goerr + bool) op" where
  "releaseGenesisPodReceipt x rt r build cm s entry =
    (if RPodTemplateDigest entry = [] then ret (Inr True)
     else if RPodReceiptUID entry = [] then do {
       w \<leftarrow> observePodReceipt x rt r build entry;
       case w of
         Inl e \<Rightarrow> ret (Inl (Wrap ''armed Pod receipt outcome is unknown'' e))
       | Inr witness \<Rightarrow> attempt (pinPodReceipt x rt r build entry witness) (\<lambda>_. ret (Inr False)) }
     else if \<not> RPodCleanupReady entry then
       guard (verifyPinnedPodReceipt x rt r build entry True) (
       guard (writeReservations x r cm (put_active (reservationKey build) (entry\<lparr>RPodCleanupReady := True\<rparr>) s)) (
       ret (Inr False)))
     else guard (deletePinnedPodReceipt x rt r build entry) (ret (Inr True)))"

end
