(* ===== verification/Active_Admission.thy ===== *)
theory Active_Admission
  imports Admission_Coordinator Pod_Receipt
begin

text \<open>
  The operations of the controller on the active ledger that use receipts: the admission of a build
  (\<open>admission\<close> of \<open>admission.go\<close>), the start and the end of its Pod creation and the release of its
  reservation (\<open>reservation.go\<close>).
\<close>

section \<open>Admission\<close>

text \<open>The entry of a fresh grant, and the ledger with it.\<close>

definition grant_fence :: "'w KovaBuildReconciler \<Rightarrow> reservationState \<Rightarrow> reservationState" where
  "grant_fence r s = (if rc_guarded r \<and> Fence s = 0 then s\<lparr>Fence := 1\<rparr> else s)"

definition fresh_entry ::
  "'w KovaBuildReconciler \<Rightarrow> KovaBuild \<Rightarrow> int \<Rightarrow> string \<Rightarrow> reservationState \<Rightarrow> activeReservation" where
  "fresh_entry r build slots nonce s =
    \<lparr>RBuildName = Name (build_meta build), RRequester = requesterKey build, RSlots = slots,
     RGrantNonce = (if rc_guarded r then nonce else []),
     RGrantFence = (if rc_guarded r then Fence (grant_fence r s) else 0),
     RGrantObservedRV = [], RGrantReceiptUID = [], RGrantReceiptDigest = [], RGrantCleanupReady = False,
     RPodAttemptNonce = [], RPodTemplateDigest = [], RPodReceiptUID = [], RPodReceiptDigest = [],
     RPodCleanupReady = False, RClosing = False, RInFlight = []\<rparr>"

definition grant_state :: "'w KovaBuildReconciler \<Rightarrow> KovaBuild \<Rightarrow> activeReservation \<Rightarrow> reservationState \<Rightarrow> reservationState" where
  "grant_state r build entry s =
    (put_active (reservationKey build) entry (grant_fence r s))
      \<lparr>LastGrantedRequesterHash := HashRequester (requesterKey build)\<rparr>"

text \<open>
  The second half of a round, with the scans of builds and Pods. The result pairs the permit that
  the deferred release will end with the outcome.
\<close>

definition admission_grant ::
  "'x ext_scheme \<Rightarrow> 'w runtime \<Rightarrow> 'w KovaBuildReconciler \<Rightarrow> KovaBuild \<Rightarrow> string \<Rightarrow> nat \<Rightarrow> nat option \<Rightarrow> configmap \<Rightarrow>
     reservationState \<Rightarrow> ('w, (nat option, nat option \<times> (goerr + admissionDecision)) turn) op" where
  "admission_grant x rt r build grantNonce retry permit cm s =
    (let ns = Namespace (build_meta build); key = reservationKey build; fail = (\<lambda>e. (permit, Inl e)) in
     ttry fail (via (rc_reader r) (\<lambda>rd. List_builds rd ns 0)) (\<lambda>builds.
     tguard fail (ensureNoUnreservedRunner x r ns s builds) (
     case map_of (the_active s) key of
       Some existing \<Rightarrow>
         if RBuildName existing \<noteq> Name (build_meta build) \<or> RRequester existing \<noteq> requesterKey build
         then ret (Leave (fail (ErrMsg ''admission reservation does not match KovaBuild identity'')))
         else if RClosing existing then ret (Leave (fail (Wrap ''grant is closing'' ErrAdmissionClosed)))
         else tguard fail (if rc_guarded r then verifyPinnedGrant x rt r build existing else ret None) (
           ret (Leave (permit, Inr (granting (RSlots existing)))))
     | None \<Rightarrow>
         let decision = decideAdmission build builds (the_active s) (MaxActiveJobs (Cfg r))
               (MaxActiveJobsPerRequester (Cfg r)) (CfgWorkerSlots (Cfg r)) (LastGrantedRequesterHash s) in
         if \<not> Admitted decision then ret (Leave (permit, Inr decision))
         else let entry = fresh_entry r build (Allocation decision) grantNonce s in do {
           w \<leftarrow> writeReservations x r cm (grant_state r build entry s);
           case w of
             Some err \<Rightarrow>
               if IsConflict err \<or> IsAlreadyExists err
               then tguard fail (waitReservationCAS rt retry) (ret (Again permit))
               else ret (Leave (fail err))
           | None \<Rightarrow>
               tguard fail (if rc_guarded r then finishFreshGrant x rt r build entry else ret None) (
               ret (Leave (permit, Inr decision))) })))"

text \<open>The permit of a fresh grant: \<open>Inr None\<close> means that another grant of this process is open.\<close>

definition admission_permit ::
  "'w runtime \<Rightarrow> 'w KovaBuildReconciler \<Rightarrow> string \<Rightarrow> nat option \<Rightarrow> ('w, goerr + bool \<times> nat option) op" where
  "admission_permit rt r ns permit =
    (case Coordinator r of
       Some c \<Rightarrow>
         if rc_guarded r \<and> permit = None
         then attempt (tryBegin rt c ns) (\<lambda>p. ret (Inr (p = None, p)))
         else ret (Inr (False, permit))
     | None \<Rightarrow> ret (Inr (False, permit)))"

definition admission_round ::
  "'x ext_scheme \<Rightarrow> 'w runtime \<Rightarrow> 'w KovaBuildReconciler \<Rightarrow> KovaBuild \<Rightarrow> string \<Rightarrow> nat \<Rightarrow> nat option \<Rightarrow>
     ('w, (nat option, nat option \<times> (goerr + admissionDecision)) turn) op" where
  "admission_round x rt r build grantNonce retry permit =
    (let ns = Namespace (build_meta build); fail = (\<lambda>e. (permit, Inl e)) in
     tguard fail (Ctx_Err rt) (
     ttry fail (readReservations x rt r ns) (\<lambda>(cm, s).
     tguard fail (ensureLiveAdmissionBuild r build) (
     if map_of (the_active s) (reservationKey build) \<noteq> None
     then admission_grant x rt r build grantNonce retry permit cm s
     else (case saturatedAdmission build (the_active s) (MaxActiveJobs (Cfg r)) (MaxActiveJobsPerRequester (Cfg r))
             (CfgWorkerSlots (Cfg r)) of
         Some blocked \<Rightarrow>
           tguard fail (VerifyForBuild x rt (queueStoreForNamespace r ns) build) (
           ret (Leave (permit, Inr blocked)))
       | None \<Rightarrow>
           ttry fail (admission_permit rt r ns permit) (\<lambda>(busy, permit').
           if busy then ret (Leave (permit', Inr locally_deferred))
           else tguard (\<lambda>e. (permit', Inl e)) (VerifyForBuild x rt (queueStoreForNamespace r ns) build) (
             admission_grant x rt r build grantNonce retry permit' cm s)))))))"

definition admission ::
  "'x ext_scheme \<Rightarrow> 'w runtime \<Rightarrow> 'w KovaBuildReconciler \<Rightarrow> KovaBuild \<Rightarrow> ('w, goerr + admissionDecision) op" where
  "admission x rt r build =
    attempt (if rc_guarded r then newPodCreateAttempt rt else ret (Inr [])) (\<lambda>grantNonce. do {
      (permit, result) \<leftarrow> for_loop maxReservationCASAttempts None (admission_round x rt r build grantNonce)
        (\<lambda>permit. ret (permit, Inl (ErrMsg ''active admission ledger is busy granting'')));
      permit_release (Coordinator r) permit;
      ret result })"

section \<open>Pod creation\<close>

definition beginPodCreate ::
  "'x ext_scheme \<Rightarrow> 'w runtime \<Rightarrow> 'w KovaBuildReconciler \<Rightarrow> KovaBuild \<Rightarrow> ('w, goerr + string) op" where
  "beginPodCreate x rt r build =
    attempt (newPodCreateAttempt rt) (\<lambda>att.
    for_retry maxReservationCASAttempts (\<lambda>retry.
      rguard (Ctx_Err rt) (
      rtry (readReservations x rt r (Namespace (build_meta build))) (\<lambda>(cm, s).
      rguard (ensureLiveAdmissionBuild r build) (
      case entry_if (\<lambda>e. RBuildName e = Name (build_meta build)) s build of
        None \<Rightarrow> ret (Return (Inl (ErrMsg ''KovaBuild has no matching active reservation'')))
      | Some entry \<Rightarrow>
          if RClosing entry then ret (Return (Inl (Wrap ''grant is closing'' ErrAdmissionClosed)))
          else rguard (if rc_guarded r then verifyPinnedGrant x rt r build entry else ret None) (
          if rc_guarded r \<and> RPodAttemptNonce entry \<noteq> [] then ret (Return (Inl (ErrAdmissionRecovery 1)))
          else if RInFlight entry \<noteq> [] then ret (Return (Inl (ErrAdmissionRecovery (length (RInFlight entry)))))
          else do {
            let entry' = (if rc_guarded r then entry\<lparr>RPodAttemptNonce := att\<rparr>
              else entry\<lparr>RInFlight := RInFlight entry @ [att]\<rparr>);
            w \<leftarrow> writeReservations x r cm (put_active (reservationKey build) entry' s);
            case w of
              None \<Rightarrow> ret (Return (Inr att))
            | Some err \<Rightarrow>
                if IsConflict err then rguard (waitReservationCAS rt retry) (ret Continue)
                else do {
                  recorded \<leftarrow> podCreateAttemptRecorded x rt r build att;
                  if recorded = Inr True then ret (Return (Inr att)) else ret (Return (Inl err)) } })))))
      (ret (Inl (ErrMsg ''active admission ledger is busy starting Pod create''))))"

text \<open>\<open>append(s[:i], s[i+1:]...)\<close> at the first index of the value.\<close>

definition completePodCreate ::
  "'x ext_scheme \<Rightarrow> 'w runtime \<Rightarrow> 'w KovaBuildReconciler \<Rightarrow> KovaBuild \<Rightarrow> string \<Rightarrow> ('w, goerr option) op" where
  "completePodCreate x rt r build att =
    (if rc_guarded r then completeGenesisPodCreate x rt r build att
     else for_retry maxReservationCASAttempts (\<lambda>retry.
       rguardE (Ctx_Err rt) (
       rtryE (readReservations x rt r (Namespace (build_meta build))) (\<lambda>(cm, s).
       case entry_if (\<lambda>e. RBuildName e = Name (build_meta build)) s build of
         None \<Rightarrow> ret (Return (Some (ErrMsg ''KovaBuild lost its active reservation while completing Pod create'')))
       | Some entry \<Rightarrow>
           if att \<notin> set (RInFlight entry) then ret (Return None)
           else do {
             let entry' = entry\<lparr>RInFlight := remove1 att (RInFlight entry)\<rparr>;
             w \<leftarrow> writeReservations x r cm (put_active (reservationKey build) entry' s);
             case w of
               None \<Rightarrow> ret (Return None)
             | Some err \<Rightarrow>
                 if IsConflict err then rguardE (waitReservationCAS rt retry) (ret Continue)
                 else do {
                   recorded \<leftarrow> podCreateAttemptRecorded x rt r build att;
                   if recorded = Inr False then ret (Return None) else ret (Return (Some err)) } })))
       (ret (Some (ErrMsg ''active admission ledger is busy completing Pod create''))))"

section \<open>Release\<close>

text \<open>In a guarded installation the release goes on with the build as the server has it.\<close>

definition release_subject ::
  "'w KovaBuildReconciler \<Rightarrow> KovaBuild \<Rightarrow> ('w, goerr + KovaBuild) op" where
  "release_subject r build =
    (if rc_guarded r then
       attempt (via (rc_reader r) (\<lambda>rd. Get_build rd (Namespace (build_meta build)) (Name (build_meta build)))) (\<lambda>now.
       if UID (build_meta now) \<noteq> UID (build_meta build) \<or>
          (\<not> isTerminalPhase (Phase (Status now)) \<and> DeletionTimestamp (build_meta now) = None)
       then ret (Inl (ErrMsg ''Genesis active grant cannot be released before its original CR is terminal or deleting''))
       else ret (Inr now))
     else ret (Inr build))"

text \<open>A receipt step of the release: go on, take another round, or give up.\<close>

definition receipt_gate ::
  "'w runtime \<Rightarrow> nat \<Rightarrow> KovaBuild \<Rightarrow> ('w, goerr + bool) op \<Rightarrow> ('w, (KovaBuild, goerr option) turn) op \<Rightarrow>
     ('w, (KovaBuild, goerr option) turn) op" where
  "receipt_gate rt retry build m k = do {
    ready \<leftarrow> m;
    case ready of
      Inl err \<Rightarrow>
        if IsConflict err then tguard Some (waitReservationCAS rt retry) (ret (Again build))
        else ret (Leave (Some err))
    | Inr go \<Rightarrow> if go then k else ret (Again build) }"

definition remove_active ::
  "'x ext_scheme \<Rightarrow> 'w runtime \<Rightarrow> 'w KovaBuildReconciler \<Rightarrow> nat \<Rightarrow> KovaBuild \<Rightarrow> configmap \<Rightarrow> reservationState \<Rightarrow>
     ('w, (KovaBuild, goerr option) turn) op" where
  "remove_active x rt r retry build cm s = do {
    w \<leftarrow> writeReservations x r cm (del_active (reservationKey build) s);
    case w of
      None \<Rightarrow> ret (Leave None)
    | Some err \<Rightarrow>
        if IsConflict err then tguard Some (waitReservationCAS rt retry) (ret (Again build))
        else ret (Leave (Some err)) }"

definition release_round ::
  "'x ext_scheme \<Rightarrow> 'w runtime \<Rightarrow> 'w KovaBuildReconciler \<Rightarrow> nat \<Rightarrow> KovaBuild \<Rightarrow> ('w, (KovaBuild, goerr option) turn) op" where
  "release_round x rt r retry build =
    tguard Some (Ctx_Err rt) (
    ttry Some (readReservations x rt r (Namespace (build_meta build))) (\<lambda>(cm, s).
    case map_of (the_active s) (reservationKey build) of
      None \<Rightarrow> ret (Leave None)
    | Some entry \<Rightarrow>
        if RBuildName entry \<noteq> Name (build_meta build)
        then ret (Leave (Some (ErrMsg ''admission reservation has mismatched build name'')))
        else if \<not> RClosing entry
        then ret (Leave (Some (ErrMsg ''admission reservation cannot be released before its cleanup fence'')))
        else ttry Some (release_subject r build) (\<lambda>now.
          if RInFlight entry \<noteq> [] then ret (Leave (Some (ErrAdmissionRecovery (length (RInFlight entry)))))
          else ttry Some (getOwnedPod r now) (\<lambda>pod.
          if pod \<noteq> None then ret (Leave (Some (ErrMsg ''runner Pod still exists while releasing active capacity'')))
          else if rc_guarded r then
            receipt_gate rt retry now (releaseGenesisPodReceipt x rt r now cm s entry) (
            receipt_gate rt retry now (releaseGenesisGrantReceipt x rt r now cm s entry) (
            remove_active x rt r retry now cm s))
          else remove_active x rt r retry now cm s))))"

definition releaseReservation ::
  "'x ext_scheme \<Rightarrow> 'w runtime \<Rightarrow> 'w KovaBuildReconciler \<Rightarrow> KovaBuild \<Rightarrow> ('w, goerr option) op" where
  "releaseReservation x rt r build =
    for_loop maxReservationCASAttempts build (release_round x rt r)
      (\<lambda>_. ret (Some (ErrMsg ''active admission ledger is busy releasing'')))"

end
