(* ===== verification/Reservation_Protocol.thy ===== *)
theory Reservation_Protocol
  imports Active_Admission Queue_Steps
begin

text \<open>
  The active ledger as a compare-and-swap ledger: what the controller may rely on, the decoded
  state, and the abstract protocol that every commit follows. The second instance of the locale
  \<open>cas_ledger\<close>, besides the queue ledger.
\<close>

section \<open>The hypotheses\<close>

definition receipts_namespace :: "'w KovaBuildReconciler \<Rightarrow> string" where
  "receipts_namespace r = (case RGenesis r of None \<Rightarrow> []
     | Some g \<Rightarrow> ReceiptNamespace (ReceiptContract (BReceipt (Bootstrap g))))"

text \<open>
  The typed ConfigMap client of one namespace reads directly; a Create may return the stored object,
  an error, or both.
\<close>

definition typed_create_commits ::
  "okey \<Rightarrow> configmap \<Rightarrow> event list \<Rightarrow> event \<Rightarrow> configmap option \<times> goerr option \<Rightarrow> bool" where
  "typed_create_commits k cm l e r \<longleftrightarrow>
     (\<exists>new. current l k = None \<and> Data new = Data cm \<and> e = Own k (Some (OConfigMap new)) \<and> \<not> definitive (snd r))"

definition lawful_configmaps :: "('w \<Rightarrow> event list) \<Rightarrow> string \<Rightarrow> 'w configmaps \<Rightarrow> bool" where
  "lawful_configmaps log ns a \<longleftrightarrow>
     (\<forall>n. calm log (CM_Get a n)) \<and>
     (\<forall>n w. wp (CM_Get a n) (\<lambda>r w'.
        (\<forall>cm. r = Inr cm \<longrightarrow> current (log w') (KConfigMap, ns, n) = Some (OConfigMap cm)) \<and>
        (\<forall>e. r = Inl e \<and> IsNotFound e \<longrightarrow> current (log w') (KConfigMap, ns, n) = None)) w) \<and>
     (\<forall>cm. requests log (ReqCreate (KConfigMap, ns, Name (cm_meta cm)) (OConfigMap cm)) (\<lambda>r. snd r \<noteq> None)
        (typed_create_commits (KConfigMap, ns, Name (cm_meta cm)) cm) (CM_Create a cm)) \<and>
     (\<forall>n u. requests log (ReqDelete (KConfigMap, ns, n) u) (\<lambda>r. r \<noteq> None)
        (delete_commits (KConfigMap, ns, n) u) (CM_Delete a n u))"

definition lawful_reconciler :: "('w \<Rightarrow> event list) \<Rightarrow> 'x ext_scheme \<Rightarrow> 'w runtime \<Rightarrow> 'w KovaBuildReconciler \<Rightarrow> bool" where
  "lawful_reconciler log x rt r \<longleftrightarrow> dns_names x \<and> lawful_runtime log rt \<and> results (Rand16 rt) (\<lambda>raw. length raw = 16) \<and>
     (\<forall>c. RClient r = Some c \<longrightarrow> lawful_client log c) \<and> (\<forall>a. APIReader r = Some a \<longrightarrow> lawful_reader log a) \<and>
     (\<forall>g. RGenesis r = Some g \<longrightarrow> lawful_guard log g \<and> DataKey (QueueTemplate (Bootstrap g)) = dataKey \<and>
        DataKey (ActiveTemplate (Bootstrap g)) = reservationDataKey) \<and>
     (\<forall>a. RecoveryReceipts r = Some a \<longrightarrow> lawful_configmaps log (receipts_namespace r) a) \<and>
     (\<forall>c. Coordinator r = Some c \<longrightarrow> quiet log (CoordLoad c) \<and> (\<forall>g. quiet log (CoordSave c g)))"

lemma lawful_queue_store:
  "lawful_reconciler log x rt r \<Longrightarrow> lawful_store log x rt (queueStoreForNamespace r ns)"
  by (auto simp: lawful_reconciler_def lawful_store_def queueStoreForNamespace_def rc_reader_def lawful_client_def
      intro: lawful_reader_truncate split: option.splits)

lemma lawful_rc_reader: "lawful_reconciler log x rt r \<Longrightarrow> rc_reader r = Some rd \<Longrightarrow> lawful_reader log rd"
  by (auto simp: lawful_reconciler_def rc_reader_def lawful_client_def intro: lawful_reader_truncate split: option.splits)

lemma calm_via: "(\<And>a. r = Some a \<Longrightarrow> calm log (f a)) \<Longrightarrow> calm log (via r f)"
  by (auto simp: via_def intro: calm_intros split: option.split)

lemma calm_reads:
  assumes "lawful_reconciler log x rt r"
  shows "calm log (via (rc_reader r) (\<lambda>rd. Get_cm rd ns n))" "calm log (via (rc_reader r) (\<lambda>rd. Get_build rd ns n))"
    "calm log (via (rc_reader r) (\<lambda>rd. Get_pod rd ns n))" "calm log (via (rc_reader r) (\<lambda>rd. List_builds rd ns i))"
    "calm log (via (rc_reader r) (\<lambda>rd. List_pods rd ns m))"
  using lawful_rc_reader [OF assms] by (auto simp: lawful_reader_def intro!: calm_via)

lemma rd_Get_cm_via: "rd_Get_cm (queueStoreForNamespace r m) ns n = via (rc_reader r) (\<lambda>rd. Get_cm rd ns n)"
  by (simp add: rd_Get_cm_def via_def reader_def queueStoreForNamespace_def rc_reader_def split: option.split)

lemma rd_Get_build_via: "rd_Get_build (queueStoreForNamespace r m) ns n = via (rc_reader r) (\<lambda>rd. Get_build rd ns n)"
  by (simp add: rd_Get_build_def via_def reader_def queueStoreForNamespace_def rc_reader_def split: option.split)

lemma calmE_rc_Check: "lawful_reconciler log x rt r \<Longrightarrow> calmE log (Check x (RGenesis r))"
  by (intro calmE_Check) (auto simp: lawful_reconciler_def)

section \<open>Decoded states\<close>

definition decode_reservations :: "'x ext_scheme \<Rightarrow> 'w KovaBuildReconciler \<Rightarrow> string \<Rightarrow> goerr + reservationState" where
  "decode_reservations x r raw =
    (case Decode raw unmarshal_reservations allowedReservationField of
       Inl e \<Rightarrow> Inl e
     | Inr s \<Rightarrow>
         if validateReservationState x s \<noteq> None \<or> validateReservationLimits (Cfg r) s \<noteq> None \<or>
            RVersion s \<noteq> (if rc_guarded r then 2 else 1)
         then Inl (ErrMsg ''unsupported state'') else Inr s)"

definition good_active :: "'w KovaBuildReconciler \<Rightarrow> reservationState \<Rightarrow> bool" where
  "good_active r s \<longleftrightarrow> validateReservationLimits (Cfg r) s = None \<and> RVersion s = (if rc_guarded r then 2 else 1) \<and>
     go_map (the_active s)"

lemma decode_active_raw:
  "decode_active x r cm = Inr (cm', s) \<Longrightarrow> cm' = cm \<and> decode_reservations x r (mget (Data cm) reservationDataKey) = Inr s"
  by (auto simp: decode_active_def decodeReservations_def decode_reservations_def Let_def
      split: sum.splits option.splits if_splits)

lemma unmarshal_reservations_go_map: "unmarshal_reservations j = Some s \<Longrightarrow> go_map (the_active s)"
proof (cases j)
  case (JObj kvs)
  assume "unmarshal_reservations j = Some s"
  then have "field kvs ''active'' (unmarshal_map unmarshal_reservation) None = Some (RActive s)"
    unfolding JObj by (auto split: bind_splits)
  then show ?thesis
    using field_unmarshal_map [of kvs "''active''" unmarshal_reservation]
    by (cases "RActive s") (auto simp: the_active_def dest: unmarshal_entries_go_map)
qed auto

lemma decode_reservations_Inr:
  assumes "decode_reservations x r raw = Inr s"
  shows "good_active r s" "ValidString raw" "validateReservationState x s = None"
proof -
  from assms have d: "Decode raw unmarshal_reservations allowedReservationField = Inr s"
    and rest: "validateReservationState x s = None" "validateReservationLimits (Cfg r) s = None"
      "RVersion s = (if rc_guarded r then 2 else 1)"
    by (auto simp: decode_reservations_def split: sum.splits if_splits)
  from d obtain j where "unmarshal_reservations j = Some s" "ValidString raw" by (auto simp: Decode_Inr)
  with rest unmarshal_reservations_go_map [of j s] show "good_active r s" "ValidString raw" "validateReservationState x s = None"
    by (auto simp: good_active_def)
qed

lemma decode_encode_active:
  assumes "dns_names x" and "good_active r s" and "encodeReservations x s = Inr raw"
  shows "decode_reservations x r raw = Inr s"
proof -
  have valid: "validateReservationState x s = None"
    using assms(3) by (auto simp: encodeReservations_def split: option.splits)
  then obtain es where es: "RActive s = Some es" by (auto simp: validateReservationState_iff)
  then have "go_map es" using assms(2) by (simp add: good_active_def the_active_def)
  from decode_marshal_reservations [OF valid assms(1) es this] encodeReservations_valid(1) [OF valid assms(1)]
  show ?thesis using assms(2,3) valid by (simp add: decode_reservations_def good_active_def)
qed

definition active_key :: "string \<Rightarrow> okey" where
  "active_key ns = (KConfigMap, ns, reservationConfigMap)"

lemma CheckLedger_calm: "calmE log (ret (if b then CheckLedger x gd cm role else None))"
  by (rule calmE_ret) (auto dest: CheckLedger_no_conflict split: if_splits)

lemma decodeReservations_no_conflict: "decodeReservations x cm = Inl e \<Longrightarrow> \<not> IsConflict e"
proof -
  have va: "validate_active x v w p u c es = Some e \<Longrightarrow> \<not> IsConflict e" for v w p u c es e
    by (induction x v w p u c es rule: validate_active.induct) (auto simp: Let_def split: if_splits)
  assume "decodeReservations x cm = Inl e"
  then show ?thesis
    by (auto simp: decodeReservations_def validateReservationState_def Let_def dest: Decode_no_conflict va
        split: sum.splits option.splits if_splits)
qed

lemma limits_no_conflict: "validateReservationLimits cfg s = Some e \<Longrightarrow> \<not> IsConflict e"
  by (auto simp: validateReservationLimits_def ValidateReservationCapacity_def split: if_splits option.splits)

lemma decode_active_no_conflict: "decode_active x r cm = Inl e \<Longrightarrow> \<not> IsConflict e"
  by (auto simp: decode_active_def dest: decodeReservations_no_conflict limits_no_conflict
      split: sum.splits option.splits if_splits)

lemma calm_readReservations:
  assumes "lawful_reconciler log x rt r"
  shows "calm log (readReservationsWithObservation x rt r ctx ns obs)"
proof -
  have rt: "lawful_runtime log rt" using assms by (simp add: lawful_reconciler_def)
  have fetch: "calm log (fetch_reservations x r ns)"
    unfolding fetch_reservations_def by (intro calm_attempt calm_reads [OF assms] calm_guard CheckLedger_calm) (auto intro: calm_ret)
  show ?thesis
    unfolding readReservationsWithObservation_def
    by (intro calm_intros calmE_rc_Check [OF assms] calm_Observation_Read [OF rt] fetch)
      (auto dest: AssertNoOrdinaryContext_no_conflict decode_active_no_conflict)
qed

lemma yields_readReservations:
  assumes "lawful_reconciler log x rt r"
  shows "yields log (readReservationsWithObservation x rt r ctx ns obs)
    (\<lambda>(cm, s). carries (decode_reservations x r) (active_key ns) reservationDataKey cm s)
    (\<lambda>(cm, s). {(active_key ns, OConfigMap cm)})"
proof -
  let ?P = "\<lambda>cm w. cm_key cm = active_key ns \<and> stored (log w) (active_key ns) (OConfigMap cm) \<and>
      ValidString (ResourceVersion (cm_meta cm))"
  have get: "wp (via (rc_reader r) (\<lambda>rd. Get_cm rd ns reservationConfigMap)) (\<lambda>q w'. \<forall>cm. q = Inr cm \<longrightarrow> ?P cm w') w" for w
    unfolding rd_Get_cm_via [symmetric, where m = ns]
    by (rule wp_mono [OF rd_Get_cm_stored [OF lawful_queue_store [OF assms]]]) (auto simp: cm_key_def active_key_def)
  have fetch: "wp (fetch_reservations x r ns) (\<lambda>q w'. \<forall>cm. q = Inr cm \<longrightarrow> ?P cm w') w" for w
    unfolding fetch_reservations_def wp_attempt
    by (rule wp_mono [OF get]) (auto simp: wp_guard wp_ret split: sum.split option.split)
  have obs: "wp (Observation_Read rt obs (RGenesis r) (fetch_reservations x r ns)) (\<lambda>q w'. \<forall>cm. q = Inr cm \<longrightarrow> ?P cm w') w" for w
    unfolding Observation_Read_def
    by (cases "Assert obs (RGenesis r)", simp only: option.case wp_bind, rule wpI)
      (auto simp: wp_ret fetch split: option.split)
  have main: "wp (readReservationsWithObservation x rt r ctx ns obs) (\<lambda>q w'. \<forall>cm s. q = Inr (cm, s) \<longrightarrow> ?P cm w' \<and>
      decode_reservations x r (mget (Data cm) reservationDataKey) = Inr s) w" for w
    unfolding readReservationsWithObservation_def wp_guard
  proof (rule wpI, split option.split, intro conjI impI allI)
    fix w'
    show "wp (attempt (if obs \<noteq> None then Observation_Read rt obs (RGenesis r) (fetch_reservations x r ns)
        else fetch_reservations x r ns) (\<lambda>cm. ret (decode_active x r cm)))
      (\<lambda>q w'. \<forall>cm s. q = Inr (cm, s) \<longrightarrow> ?P cm w' \<and> decode_reservations x r (mget (Data cm) reservationDataKey) = Inr s) w'"
      unfolding wp_attempt
      by (cases "obs \<noteq> None", simp_all only: if_True if_False simp_thms)
        (rule wp_mono [OF obs] wp_mono [OF fetch], auto simp: wp_ret dest: decode_active_raw split: sum.split)+
  qed simp_all
  show ?thesis
    unfolding yields_def
    by (intro allI, rule wp_mono [OF wp_conj [OF calmD [OF calm_readReservations [OF assms]] main]])
      (auto simp: carries_def)
qed

section \<open>The ledger as a compare-and-swap ledger\<close>

lemma valid_reservationDataKey: "ValidString reservationDataKey"
  by (rule ValidString_ascii) simp

lemma writeReservations_cas:
  assumes "lawful_reconciler log x rt r" and "cm_key cm = active_key ns"
    and "stored (log w) (active_key ns) (OConfigMap cm)" and "ValidString (ResourceVersion (cm_meta cm))"
    and "decode_reservations x r (mget (Data cm) reservationDataKey) = Inr c" and "good_active r t"
  shows "wp (writeReservations x r cm t) (\<lambda>q w'. still (log w) (log w') \<and> q \<noteq> None \<or>
    (\<exists>raw. encodeReservations x t = Inr raw \<and>
       cas_post (active_key ns) reservationDataKey (mget (Data cm) reservationDataKey) raw (log w) (log w') q)) w"
proof (cases "encodeReservations x t")
  case (Inl e)
  then show ?thesis by (auto simp: writeReservations_def wp_ret grows.refl)
next
  case (Inr raw)
  let ?post = "\<lambda>q w'. cas_post (active_key ns) reservationDataKey (mget (Data cm) reservationDataKey) raw (log w) (log w') q"
  have dns: "dns_names x" using assms(1) by (simp add: lawful_reconciler_def)
  have vraw: "ValidString raw"
    by (rule decode_reservations_Inr(2) [OF decode_encode_active [OF dns assms(6) Inr]])
  have post: "wp m ?post w \<Longrightarrow> wp m (\<lambda>q w'. still (log w) (log w') \<and> (\<exists>e. q = Some e) \<or> ?post q w') w" for m
    by (erule wp_mono) auto
  have patch: "wp (PatchLedgerData x (RGenesis r) cm Active raw) ?post w" if g: "RGenesis r = Some g" for g
    using PatchLedgerData_cas [of log g Active "ActiveTemplate (Bootstrap g)" cm raw x w]
      assms(1,2,4) decode_reservations_Inr(2) [OF assms(5)] g vraw valid_reservationDataKey
    by (auto simp: lawful_reconciler_def role_template_def)
  have update: "wp (viaE (RClient r) (\<lambda>c. Update_cm c (cm\<lparr>Data := [(reservationDataKey, raw)]\<rparr>))) ?post w"
    using update_cas [of log _ w cm reservationDataKey raw] assms(1-3)
    by (auto simp: viaE_def lawful_reconciler_def wp_ret cas_post_failed grows.refl split: option.split)
  show ?thesis
    unfolding writeReservations_def Inr sum.case
    using patch update by (auto simp: wp_ret grows.refl rc_guarded_def Option.is_none_def intro!: post)
qed

interpretation active: cas_ledger "lawful_reconciler log x rt r" "encodeReservations x" "decode_reservations x r"
  "good_active r" log "active_key ns" reservationDataKey "readReservations x rt r ns" "writeReservations x r"
  for log :: "'w \<Rightarrow> event list" and x :: "'x ext_scheme" and rt :: "'w runtime" and r :: "'w KovaBuildReconciler"
    and ns :: string
proof
  show "decode_reservations x r raw = Inr c \<Longrightarrow> ValidString raw" for raw c by (rule decode_reservations_Inr(2))
  show "decode_reservations x r raw = Inr c \<Longrightarrow> good_active r c" for raw c by (rule decode_reservations_Inr(1))
  assume ok: "lawful_reconciler log x rt r"
  then have dns: "dns_names x" by (simp add: lawful_reconciler_def)
  show "good_active r c \<Longrightarrow> encodeReservations x c = Inr raw \<Longrightarrow> decode_reservations x r raw = Inr c" for c raw
    by (rule decode_encode_active [OF dns])
  then show "good_active r c \<Longrightarrow> encodeReservations x c = Inr raw \<Longrightarrow> ValidString raw" for c raw
    by (blast intro: decode_reservations_Inr(2))
  show "wp (readReservations x rt r ns) (\<lambda>q w'. still (log w) (log w') \<and> (\<forall>e. q = Inl e \<longrightarrow> \<not> IsConflict e) \<and>
      (\<forall>cm c. q = Inr (cm, c) \<longrightarrow> cm_key cm = active_key ns \<and> stored (log w') (active_key ns) (OConfigMap cm) \<and>
        ValidString (ResourceVersion (cm_meta cm)) \<and>
        decode_reservations x r (mget (Data cm) reservationDataKey) = Inr c)) w" for w
    unfolding readReservations_def
    by (rule wp_mono [OF wp_conj [OF calmD [OF calm_readReservations [OF ok]] yieldsD [OF yields_readReservations [OF ok]]]])
      (auto simp: carries_def)
  show "cm_key cm = active_key ns \<Longrightarrow> stored (log w) (active_key ns) (OConfigMap cm) \<Longrightarrow>
      ValidString (ResourceVersion (cm_meta cm)) \<Longrightarrow>
      decode_reservations x r (mget (Data cm) reservationDataKey) = Inr c \<Longrightarrow> good_active r t \<Longrightarrow>
      wp (writeReservations x r cm t) (\<lambda>q w'. still (log w) (log w') \<and> q \<noteq> None \<or>
        (\<exists>raw. encodeReservations x t = Inr raw \<and>
          cas_post (active_key ns) reservationDataKey (mget (Data cm) reservationDataKey) raw (log w) (log w') q)) w" for cm w c t
    by (rule writeReservations_cas [OF ok])
qed

section \<open>The abstract protocol\<close>

text \<open>
  One commit of the active ledger. A grant takes free capacity; in a guarded installation (\<open>g\<close>) its
  receipt is armed and pinned, the one Pod attempt is spent, armed, pinned and issued, and completed
  when the outcome of the Create is known. Cleanup closes the entry first, marks the two receipts,
  the Pod's before the grant's, and frees the entry last.
\<close>

datatype active_label =
    AGrant string activeReservation | AArm string | APin string | ASpend string string | APodArm string
  | APodPin string | AIssue string | AComplete string | AClose string | APodMark string | AMark string | AFree string

definition unused_entry :: "activeReservation \<Rightarrow> bool" where
  "unused_entry e \<longleftrightarrow> RGrantObservedRV e = [] \<and> RGrantReceiptUID e = [] \<and> \<not> RGrantCleanupReady e \<and>
     RPodAttemptNonce e = [] \<and> RPodTemplateDigest e = [] \<and> RPodReceiptUID e = [] \<and> \<not> RPodCleanupReady e \<and>
     \<not> RClosing e \<and> RInFlight e = []"

inductive active_step :: "bool \<Rightarrow> active_label \<Rightarrow> reservationState \<Rightarrow> reservationState \<Rightarrow> bool" for g :: bool where
  grant: "map_of (the_active c) k = None \<Longrightarrow> int (length (the_active c)) < MaxJobs c \<Longrightarrow>
    used_slots (the_active c) + RSlots e \<le> WorkerSlots c \<Longrightarrow>
    int (jobs_of (RRequester e) (the_active c)) < MaxPerRequester c \<Longrightarrow> 1 \<le> RSlots e \<Longrightarrow> unused_entry e \<Longrightarrow>
    c' = (put_active k e (if g \<and> Fence c = 0 then c\<lparr>Fence := 1\<rparr> else c))
      \<lparr>LastGrantedRequesterHash := HashRequester (RRequester e)\<rparr> \<Longrightarrow> active_step g (AGrant k e) c c'"
| arm: "g \<Longrightarrow> map_of (the_active c) k = Some e \<Longrightarrow> RGrantObservedRV e = [] \<Longrightarrow> \<not> RClosing e \<Longrightarrow> v \<noteq> [] \<Longrightarrow>
    active_step g (AArm k) c (put_active k (e\<lparr>RGrantObservedRV := v\<rparr>) c)"
| pin: "g \<Longrightarrow> map_of (the_active c) k = Some e \<Longrightarrow> RGrantObservedRV e \<noteq> [] \<Longrightarrow> RGrantReceiptUID e = [] \<Longrightarrow> u \<noteq> [] \<Longrightarrow>
    active_step g (APin k) c (put_active k (e\<lparr>RGrantReceiptUID := u, RGrantReceiptDigest := d\<rparr>) c)"
| spend: "g \<Longrightarrow> map_of (the_active c) k = Some e \<Longrightarrow> RGrantReceiptUID e \<noteq> [] \<Longrightarrow> RPodAttemptNonce e = [] \<Longrightarrow>
    \<not> RClosing e \<Longrightarrow> n \<noteq> [] \<Longrightarrow> active_step g (ASpend k n) c (put_active k (e\<lparr>RPodAttemptNonce := n\<rparr>) c)"
| pod_arm: "g \<Longrightarrow> map_of (the_active c) k = Some e \<Longrightarrow> RPodAttemptNonce e \<noteq> [] \<Longrightarrow> RPodTemplateDigest e = [] \<Longrightarrow>
    \<not> RClosing e \<Longrightarrow> d \<noteq> [] \<Longrightarrow> active_step g (APodArm k) c (put_active k (e\<lparr>RPodTemplateDigest := d\<rparr>) c)"
| pod_pin: "g \<Longrightarrow> map_of (the_active c) k = Some e \<Longrightarrow> RPodTemplateDigest e \<noteq> [] \<Longrightarrow> RPodReceiptUID e = [] \<Longrightarrow> u \<noteq> [] \<Longrightarrow>
    active_step g (APodPin k) c (put_active k (e\<lparr>RPodReceiptUID := u, RPodReceiptDigest := d\<rparr>) c)"
| issue: "map_of (the_active c) k = Some e \<Longrightarrow> \<not> RClosing e \<Longrightarrow> RInFlight e = [] \<Longrightarrow>
    (g \<Longrightarrow> RPodReceiptUID e \<noteq> [] \<and> n = RPodAttemptNonce e) \<Longrightarrow>
    active_step g (AIssue k) c (put_active k (e\<lparr>RInFlight := [n]\<rparr>) c)"
| complete: "map_of (the_active c) k = Some e \<Longrightarrow> RInFlight e = [n] \<Longrightarrow> (g \<Longrightarrow> RPodReceiptUID e \<noteq> []) \<Longrightarrow>
    active_step g (AComplete k) c (put_active k (e\<lparr>RInFlight := []\<rparr>) c)"
| close_free: "map_of (the_active c) k = None \<Longrightarrow> active_step g (AClose k) c (c\<lparr>Fence := Fence c + 1\<rparr>)"
| close: "map_of (the_active c) k = Some e \<Longrightarrow>
    active_step g (AClose k) c (put_active k (e\<lparr>RClosing := True\<rparr>) (c\<lparr>Fence := Fence c + 1\<rparr>))"
| pod_mark: "g \<Longrightarrow> map_of (the_active c) k = Some e \<Longrightarrow> RClosing e \<Longrightarrow> RInFlight e = [] \<Longrightarrow> RPodReceiptUID e \<noteq> [] \<Longrightarrow>
    active_step g (APodMark k) c (put_active k (e\<lparr>RPodCleanupReady := True\<rparr>) c)"
| mark: "g \<Longrightarrow> map_of (the_active c) k = Some e \<Longrightarrow> RClosing e \<Longrightarrow> RInFlight e = [] \<Longrightarrow> RGrantReceiptUID e \<noteq> [] \<Longrightarrow>
    (RPodTemplateDigest e \<noteq> [] \<Longrightarrow> RPodCleanupReady e) \<Longrightarrow>
    active_step g (AMark k) c (put_active k (e\<lparr>RGrantCleanupReady := True\<rparr>) c)"
| free: "map_of (the_active c) k = Some e \<Longrightarrow> RClosing e \<Longrightarrow> RInFlight e = [] \<Longrightarrow>
    (g \<Longrightarrow> RGrantObservedRV e \<noteq> [] \<Longrightarrow> RGrantCleanupReady e) \<Longrightarrow>
    (g \<Longrightarrow> RPodTemplateDigest e \<noteq> [] \<Longrightarrow> RPodCleanupReady e) \<Longrightarrow>
    active_step g (AFree k) c (del_active k c)"

text \<open>The own events of an operation: steps of the ledger with the labels of the operation, and requests
  for receipts, which live in another namespace.\<close>

definition active_event ::
  "'x ext_scheme \<Rightarrow> 'w KovaBuildReconciler \<Rightarrow> string \<Rightarrow> (active_label \<Rightarrow> bool) \<Rightarrow> event list \<Rightarrow> event \<Rightarrow> bool" where
  "active_event x r ns L = ledger_event (decode_reservations x r) (active_key ns) reservationDataKey
     (\<lambda>c c'. \<exists>l. L l \<and> active_step (rc_guarded r) l c c')"

definition effect_event :: "'w KovaBuildReconciler \<Rightarrow> string \<Rightarrow> event list \<Rightarrow> event \<Rightarrow> bool" where
  "effect_event r ns h e \<longleftrightarrow> receipts_namespace r \<noteq> ns \<and> (\<exists>n. touches (KConfigMap, receipts_namespace r, n) h e)"

definition reservation_event ::
  "'x ext_scheme \<Rightarrow> 'w KovaBuildReconciler \<Rightarrow> string \<Rightarrow> (active_label \<Rightarrow> bool) \<Rightarrow> event list \<Rightarrow> event \<Rightarrow> bool" where
  "reservation_event x r ns L h e \<longleftrightarrow> active_event x r ns L h e \<or> effect_event r ns h e"

lemma the_active_simps [simp]:
  "the_active (put_active k e c) = mput k e (the_active c)" "the_active (del_active k c) = mdel k (the_active c)"
  "the_active (c\<lparr>Fence := f\<rparr>) = the_active c" "the_active (c\<lparr>LastGrantedRequesterHash := h\<rparr>) = the_active c"
  by (simp_all add: the_active_def put_active_def del_active_def)

lemma active_limits_simps [simp]:
  "MaxJobs (put_active k e c) = MaxJobs c" "MaxPerRequester (put_active k e c) = MaxPerRequester c"
  "WorkerSlots (put_active k e c) = WorkerSlots c" "RVersion (put_active k e c) = RVersion c"
  "MaxJobs (del_active k c) = MaxJobs c" "MaxPerRequester (del_active k c) = MaxPerRequester c"
  "WorkerSlots (del_active k c) = WorkerSlots c" "RVersion (del_active k c) = RVersion c"
  by (simp_all add: put_active_def del_active_def)

lemma validateReservationLimits_iff:
  "validateReservationLimits cfg s = None \<longleftrightarrow> ValidateReservationCapacity cfg = None \<and>
     MaxJobs s = MaxActiveJobs cfg \<and> MaxPerRequester s = MaxActiveJobsPerRequester cfg \<and> WorkerSlots s = CfgWorkerSlots cfg"
  by (auto simp: validateReservationLimits_def split: option.split)

lemma good_active_updates [simp]:
  "good_active r c \<Longrightarrow> good_active r (put_active k e c)" "good_active r c \<Longrightarrow> good_active r (del_active k c)"
  "good_active r (c\<lparr>Fence := f\<rparr>) \<longleftrightarrow> good_active r c"
  "good_active r (c\<lparr>LastGrantedRequesterHash := h\<rparr>) \<longleftrightarrow> good_active r c"
  by (simp_all add: good_active_def validateReservationLimits_iff gomap_simps)

lemma carries_good_active:
  "carries (decode_reservations x r) k reservationDataKey cm c \<Longrightarrow> good_active r c \<and> validateReservationState x c = None"
  by (auto simp: carries_def dest: decode_reservations_Inr)

end
