(* ===== verification/Reservation_Steps.thy ===== *)
theory Reservation_Steps
  imports Reservation_Protocol
begin

text \<open>
  Every operation of the controller on the active ledger keeps to the protocol: whatever other
  processes do in between, each version of the ledger that the operation stores is one step of
  \<open>active_step\<close> from the version it replaces, with the labels that belong to the operation; apart
  from that it only touches receipts.
\<close>

section \<open>Reads\<close>

lemma quiet_Observation_Read:
  "lawful_runtime log rt \<Longrightarrow> quiet log m \<Longrightarrow> quiet log (Observation_Read rt obs gd m)"
  unfolding Observation_Read_def
  by (intro keeps_intros) (auto simp: lawful_runtime_def intro: calmE_quiet)

lemma quiet_Observation_ReadE:
  "lawful_runtime log rt \<Longrightarrow> quiet log m \<Longrightarrow> quiet log (Observation_ReadE rt obs gd m)"
  unfolding Observation_ReadE_def
  by (intro keeps_intros) (auto simp: lawful_runtime_def intro: calmE_quiet)

text \<open>The facts about a lawful reconciler that the proofs share.\<close>

lemma quiet_base:
  assumes "lawful_reconciler log x rt r"
  shows "lawful_runtime log rt" "quiet log (Check x (RGenesis r))" "quiet log (Ctx_Err rt)"
    "quiet log (waitReservationCAS rt i)" "quiet log (newPodCreateAttempt rt)"
    "quiet log (readReservationsWithObservation x rt r ctx ns obs)" "quiet log (readReservations x rt r ns)"
    "quiet log (ensureLiveAdmissionBuild r build)"
proof -
  show rt: "lawful_runtime log rt" using assms by (simp add: lawful_reconciler_def)
  show "quiet log (Check x (RGenesis r))" by (rule calmE_quiet [OF calmE_rc_Check [OF assms]])
  show "quiet log (Ctx_Err rt)" "quiet log (waitReservationCAS rt i)" "quiet log (newPodCreateAttempt rt)"
    using rt by (auto simp: lawful_runtime_def waitReservationCAS_def newPodCreateAttempt_def
        intro: keeps_intros calm_quiet calmE_quiet)
  show "quiet log (readReservationsWithObservation x rt r ctx ns obs)" for ctx ns obs
    by (rule calm_quiet [OF calm_readReservations [OF assms]])
  then show "quiet log (readReservations x rt r ns)" by (simp add: readReservations_def)
  show "quiet log (ensureLiveAdmissionBuild r build)"
    unfolding ensureLiveAdmissionBuild_def by (intro keeps_intros calm_quiet [OF calm_reads(2) [OF assms]])
qed

lemma quiet_ObserveValue:
  assumes "lawful_reconciler log x rt r" and "\<And>obs. quiet log (read obs)"
  shows "quiet log (ObserveValue x rt (RGenesis r) read)"
  unfolding ObserveValue_def by (intro keeps_intros quiet_base [OF assms(1)] assms(2))

lemma quiet_Observe:
  assumes "lawful_reconciler log x rt r" and "\<And>obs. quiet log (read obs)"
  shows "quiet log (Observe x rt (RGenesis r) read)"
  unfolding Observe_def by (intro keeps_intros quiet_base [OF assms(1)] assms(2))

lemma quiet_queue_reads:
  assumes "lawful_store log x rt s"
  shows "quiet log (lookupWithObservation x rt s ctx ident obs)"
    "quiet log (observePinnedReceiptWithObservation x rt s ctx build entry obs)"
    "quiet log (verifyForBuildWithObservation x rt s ctx build obs)"
proof -
  have rt: "lawful_runtime log rt" using assms by (simp add: lawful_store_def)
  have read: "quiet log (readWithObservation x rt s ctx obs)" for ctx obs
    by (rule calm_quiet [OF calm_readWithObservation [OF assms]])
  then show look: "quiet log (lookupWithObservation x rt s ctx ident obs)" for ctx ident obs
    unfolding lookupWithObservation_def by (intro keeps_intros)
  show pin: "quiet log (observePinnedReceiptWithObservation x rt s ctx build entry obs)" for entry
    unfolding observePinnedReceiptWithObservation_def
    by (intro keeps_intros quiet_CheckReceiptNamespace [OF assms] quiet_Check [OF assms]
        calm_quiet [OF calm_rd_Get_cm [OF assms]] quiet_Observation_Read [OF rt])
  show "quiet log (verifyForBuildWithObservation x rt s ctx build obs)"
    unfolding verifyForBuildWithObservation_def CheckReadyObserved_def CheckReady_def read_ledger_def
    by (intro keeps_intros look pin read)
qed

lemma quiet_checkGrantReceiptNamespace:
  assumes "lawful_reconciler log x rt r"
  shows "quiet log (checkGrantReceiptNamespaceWithObservation x rt r ctx ns obs)"
  unfolding checkGrantReceiptNamespaceWithObservation_def CheckReceiptNamespaceObserved_def CheckReceiptNamespace_def
  by (intro keeps_intros quiet_CheckReceiptNamespace [OF lawful_queue_store [OF assms]])

lemma quiet_grantIntent:
  assumes "lawful_reconciler log x rt r"
  shows "quiet log (grantIntentWithObservation x rt r ctx build grant obs)"
  unfolding grantIntentWithObservation_def VerifyForBuildSnapshot_def VerifyForBuildObserved_def Lookup_def LookupObserved_def
  by (intro keeps_intros quiet_base(2) [OF assms] quiet_queue_reads [OF lawful_queue_store [OF assms]])

lemma quiet_CM_Get: "lawful_reconciler log x rt r \<Longrightarrow> RecoveryReceipts r = Some a \<Longrightarrow> quiet log (CM_Get a n)"
  by (auto simp: lawful_reconciler_def lawful_configmaps_def intro: calm_quiet)

lemma quiet_observeEffect:
  assumes "lawful_reconciler log x rt r"
  shows "quiet log (observeEffect (RecoveryReceipts r) expected kind)"
  unfolding observeEffect_def by (intro keeps_intros quiet_CM_Get [OF assms])

lemma quiet_grant_reads:
  assumes "lawful_reconciler log x rt r"
  shows "quiet log (observeGrantReceiptWithObservation x rt r ctx build entry obs)"
    "quiet log (observeGrantReceipt x rt r build entry)"
    "quiet log (verifyPinnedGrantWithObservation x rt r ctx build entry obs)"
    "quiet log (verifyPinnedGrant x rt r build entry)"
    "quiet log (verifyPinnedGrantForCleanup x rt r build entry)"
proof -
  note rt = quiet_base(1) [OF assms]
  show obs: "quiet log (observeGrantReceiptWithObservation x rt r ctx build entry obs)" for ctx obs
    unfolding observeGrantReceiptWithObservation_def ObserveGrant_def
    by (intro keeps_intros quiet_checkGrantReceiptNamespace [OF assms] quiet_grantIntent [OF assms]
        quiet_Observation_Read [OF rt] quiet_observeEffect [OF assms])
  then show ob: "quiet log (observeGrantReceipt x rt r build entry)"
    unfolding observeGrantReceipt_def by (intro keeps_intros quiet_ObserveValue [OF assms])
  show ver: "quiet log (verifyPinnedGrantWithObservation x rt r ctx build entry obs)" for ctx obs
    unfolding verifyPinnedGrantWithObservation_def by (intro keeps_intros obs)
  then show "quiet log (verifyPinnedGrant x rt r build entry)"
    unfolding verifyPinnedGrant_def by (intro keeps_intros quiet_Observe [OF assms])
  show "quiet log (verifyPinnedGrantForCleanup x rt r build entry)"
    unfolding verifyPinnedGrantForCleanup_def by (intro keeps_intros ob)
qed

lemma quiet_podIntent:
  assumes "lawful_reconciler log x rt r"
  shows "quiet log (podIntentWithObservation x rt r ctx build entry obs)"
  unfolding podIntentWithObservation_def by (intro keeps_intros quiet_grantIntent [OF assms])

lemma quiet_pod_reads:
  assumes "lawful_reconciler log x rt r"
  shows "quiet log (observePodReceiptWithObservation x rt r ctx build entry obs)"
    "quiet log (observePodReceipt x rt r build entry)"
    "quiet log (verifyPinnedPodReceiptWithObservation x rt r ctx build entry allow obs)"
    "quiet log (verifyPinnedPodReceipt x rt r build entry allow)"
    "quiet log (freshIssueRecorded x rt r build entry)"
    "quiet log (podCreateAttemptRecorded x rt r build att)"
proof -
  note rt = quiet_base(1) [OF assms]
  show obs: "quiet log (observePodReceiptWithObservation x rt r ctx build entry obs)" for ctx obs
    unfolding observePodReceiptWithObservation_def ObservePodCreate_def
    by (intro keeps_intros quiet_checkGrantReceiptNamespace [OF assms] quiet_podIntent [OF assms]
        quiet_Observation_Read [OF rt] quiet_observeEffect [OF assms])
  then show "quiet log (observePodReceipt x rt r build entry)"
    unfolding observePodReceipt_def by (intro keeps_intros quiet_ObserveValue [OF assms])
  show ver: "quiet log (verifyPinnedPodReceiptWithObservation x rt r ctx build entry allow obs)" for ctx obs
    unfolding verifyPinnedPodReceiptWithObservation_def by (intro keeps_intros obs)
  then show "quiet log (verifyPinnedPodReceipt x rt r build entry allow)"
    unfolding verifyPinnedPodReceipt_def by (intro keeps_intros quiet_Observe [OF assms])
  show "quiet log (freshIssueRecorded x rt r build entry)"
    unfolding freshIssueRecorded_def by (intro keeps_intros quiet_base [OF assms])
  show "quiet log (podCreateAttemptRecorded x rt r build att)"
    unfolding podCreateAttemptRecorded_def by (intro keeps_intros quiet_base [OF assms])
qed

lemma quiet_reservationCovered:
  assumes "lawful_reconciler log x rt r"
  shows "quiet log (reservationCovered x r ns s build)"
  unfolding reservationCovered_def by (intro keeps_intros calm_quiet [OF calm_reads(1) [OF assms]])

lemma quiet_ensureNoUnreservedRunner:
  assumes "lawful_reconciler log x rt r"
  shows "quiet log (ensureNoUnreservedRunner x r ns s builds)"
proof -
  have builds: "quiet log (active_builds_covered x r ns s bs)" for bs
  proof (induction bs)
    case (Cons b bs)
    then show ?case unfolding active_builds_covered.simps by (intro keeps_intros quiet_reservationCovered [OF assms])
  qed (simp add: keeps_ret)
  have pods: "quiet log (runner_pods_covered x r ns s builds ps)" for ps
  proof (induction ps)
    case (Cons p ps)
    then show ?case unfolding runner_pods_covered.simps by (intro keeps_intros quiet_reservationCovered [OF assms])
  qed (simp add: keeps_ret)
  show ?thesis
    unfolding ensureNoUnreservedRunner_def by (intro keeps_intros builds pods calm_quiet [OF calm_reads(5) [OF assms]])
qed

lemma quiet_getOwnedPod: "lawful_reconciler log x rt r \<Longrightarrow> quiet log (getOwnedPod r build)"
  unfolding getOwnedPod_def by (intro keeps_intros calm_quiet [OF calm_reads(3)])

lemma quiet_coordinator:
  assumes "lawful_reconciler log x rt r"
  shows "quiet log (permit_release (Coordinator r) p)" "quiet log (admission_permit rt r ns permit)"
proof -
  have c: "quiet log (CoordLoad c)" "quiet log (CoordSave c g)" if "Coordinator r = Some c" for c g
    using assms that by (auto simp: lawful_reconciler_def)
  show "quiet log (permit_release (Coordinator r) p)"
    unfolding permit_release_def by (auto intro!: keeps_intros c split: option.split)
  show "quiet log (admission_permit rt r ns permit)"
    unfolding admission_permit_def tryBegin_def by (intro keeps_intros quiet_base [OF assms] c)
qed

section \<open>Receipts\<close>

text \<open>The intents of a build name the receipt namespace of the installation.\<close>

definition receipt_build :: "'w KovaBuildReconciler \<Rightarrow> string \<Rightarrow> PinnedBuild \<Rightarrow> bool" where
  "receipt_build r ns b \<longleftrightarrow> PBNamespace b = ns \<and> PBReceiptNamespace b = receipts_namespace r"

lemma results_grantIntent:
  "results (grantIntentWithObservation x rt r ctx build grant obs)
     (\<lambda>i. receipt_build r (Namespace (build_meta build)) (GrantBuild i))"
  unfolding grantIntentWithObservation_def
  by (intro results_intros) (auto simp: receipt_build_def pinned_build_def receipts_namespace_def Let_def)

lemma results_podIntent:
  "results (podIntentWithObservation x rt r ctx build entry obs)
     (\<lambda>i. receipt_build r (Namespace (build_meta build)) (PodBuild i))"
  unfolding podIntentWithObservation_def
  by (intro results_guard results_if results_ret results_attempt_post [OF results_grantIntent] results_attempt results_intros) auto

lemma results_ObserveValue:
  "(\<And>obs. results (read obs) P) \<Longrightarrow> results (ObserveValue x rt gd read) P"
proof -
  assume read: "\<And>obs. results (read obs) P"
  have "results (do { q \<leftarrow> read obs; e \<leftarrow> Ctx_Err rt; e' \<leftarrow> Check x gd;
      case q of Inl a \<Rightarrow> ret (Inl (case join_err (join_err (Some a) e) e' of Some err \<Rightarrow> err | None \<Rightarrow> a))
      | Inr v \<Rightarrow> ret (case join_err e e' of Some b \<Rightarrow> Inl b | None \<Rightarrow> Inr v) }) P" for obs
    unfolding results_def wp_bind
  proof
    fix w
    have "wp (read obs) (\<lambda>q _. \<forall>v. q = Inr v \<longrightarrow> P v) w" using read by (simp add: results_def)
    then show "wp (read obs) (\<lambda>q. wp (Ctx_Err rt) (\<lambda>e. wp (Check x gd) (\<lambda>e'.
        wp (case q of Inl a \<Rightarrow> ret (Inl (case join_err (join_err (Some a) e) e' of Some err \<Rightarrow> err | None \<Rightarrow> a))
          | Inr v \<Rightarrow> ret (case join_err e e' of Some b \<Rightarrow> Inl b | None \<Rightarrow> Inr v)) (\<lambda>r _. \<forall>v. r = Inr v \<longrightarrow> P v)))) w"
      by (rule wp_mono) (rule wpI, rule wpI, auto simp: wp_ret split: sum.split option.split)
  qed
  then show ?thesis unfolding ObserveValue_def by (intro results_case_option results_guard results_ret) auto
qed

lemma receipt_other_namespace:
  "NewGrantConfigMap x i = Inr cm \<Longrightarrow> receipt_build r ns (GrantBuild i) \<Longrightarrow> receipts_namespace r \<noteq> ns"
  "NewPodCreateConfigMap x p = Inr cm \<Longrightarrow> receipt_build r ns (PodBuild p) \<Longrightarrow> receipts_namespace r \<noteq> ns"
  by (auto simp: NewGrantConfigMap_def GrantIntent_validate_def NewPodCreateConfigMap_def PodCreateIntent_validate_def
      PinnedBuild_validate_def receipt_build_def split: option.splits if_splits)

lemma keeps_CM_requests:
  assumes "lawful_reconciler log x rt r" and "RecoveryReceipts r = Some a" and "receipts_namespace r \<noteq> ns"
  shows "keeps log (effect_event r ns) (CM_Create a cm)" "keeps log (effect_event r ns) (CM_Delete a n u)"
proof -
  let ?ns = "receipts_namespace r"
  have law: "lawful_configmaps log ?ns a" using assms(1,2) by (simp add: lawful_reconciler_def)
  have mono: "touches (KConfigMap, ?ns, n) h e \<Longrightarrow> effect_event r ns h e" for n h e
    using assms(3) by (auto simp: effect_event_def)
  have "keeps log (touches (req_key (ReqCreate (KConfigMap, ?ns, Name (cm_meta cm)) (OConfigMap cm)))) (CM_Create a cm)"
    by (rule keeps_requests [where commits = "typed_create_commits (KConfigMap, ?ns, Name (cm_meta cm)) cm" and fails = "\<lambda>r. snd r \<noteq> None"])
      (use law in \<open>auto simp: lawful_configmaps_def typed_create_commits_def touches_def\<close>)
  then show "keeps log (effect_event r ns) (CM_Create a cm)" by (rule keeps_mono) (simp add: mono)
  have "keeps log (touches (req_key (ReqDelete (KConfigMap, ?ns, n) u))) (CM_Delete a n u)"
    by (rule keeps_requests [where commits = "delete_commits (KConfigMap, ?ns, n) u" and fails = "\<lambda>r. r \<noteq> None"])
      (use law in \<open>auto simp: lawful_configmaps_def delete_commits_def touches_def\<close>)
  then show "keeps log (effect_event r ns) (CM_Delete a n u)" by (rule keeps_mono) (simp add: mono)
qed

lemma keeps_recordEffectOnce:
  assumes "lawful_reconciler log x rt r" and "receipts_namespace r \<noteq> ns"
  shows "keeps log (effect_event r ns) (recordEffectOnce (RecoveryReceipts r) expected kind)"
  unfolding recordEffectOnce_def
  by (intro keeps_intros keeps_CM_requests [OF assms(1) _ assms(2)] quiet_keeps [OF quiet_CM_Get [OF assms(1)]])

lemma keeps_records:
  assumes "lawful_reconciler log x rt r"
  shows "receipt_build r ns (GrantBuild i) \<Longrightarrow> keeps log (effect_event r ns) (RecordGrantOnce x (RecoveryReceipts r) i)"
    "receipt_build r ns (PodBuild p) \<Longrightarrow> keeps log (effect_event r ns) (RecordPodCreateOnce x (RecoveryReceipts r) p)"
proof -
  show "keeps log (effect_event r ns) (RecordGrantOnce x (RecoveryReceipts r) i)" if "receipt_build r ns (GrantBuild i)"
    unfolding RecordGrantOnce_def
    by (rule keeps_attempt_results [where P = "\<lambda>cm. NewGrantConfigMap x i = Inr cm", OF keeps_ret results_ret])
      (assumption, rule keeps_recordEffectOnce [OF assms receipt_other_namespace(1) [OF _ that]])
  show "keeps log (effect_event r ns) (RecordPodCreateOnce x (RecoveryReceipts r) p)" if "receipt_build r ns (PodBuild p)"
    unfolding RecordPodCreateOnce_def
    by (rule keeps_attempt_results [where P = "\<lambda>cm. NewPodCreateConfigMap x p = Inr cm", OF keeps_ret results_ret])
      (assumption, rule keeps_recordEffectOnce [OF assms receipt_other_namespace(2) [OF _ that]])
qed

lemma keeps_delete_receipt:
  assumes "lawful_reconciler log x rt r" and "receipts_namespace r \<noteq> ns"
  shows "keeps log (effect_event r ns) (delete_receipt (RecoveryReceipts r) n qualify u d)"
  unfolding delete_receipt_def
  by (intro keeps_intros keeps_CM_requests [OF assms(1) _ assms(2)] quiet_keeps [OF quiet_CM_Get [OF assms(1)]])

text \<open>What a successful check says about the entry.\<close>

lemma results_newPodCreateAttempt:
  "lawful_reconciler log x rt r \<Longrightarrow> results (newPodCreateAttempt rt) (\<lambda>n. n \<noteq> [])"
  unfolding newPodCreateAttempt_def
  by (rule results_attempt_post [where Q = "\<lambda>raw. length raw = 16"])
    (auto simp: lawful_reconciler_def hex_encode_def intro!: results_ret)

lemma join_err_None [simp]: "join_err a b = None \<longleftrightarrow> a = None \<and> b = None"
  by (cases a; cases b) (simp_all add: join_err_def)

lemma succeeds_if_Observe:
  assumes "\<And>obs. succeeds_if (read obs) P"
  shows "succeeds_if (Observe x rt gd read) P"
proof -
  have "succeeds_if (do { a \<leftarrow> read obs; b \<leftarrow> Ctx_Err rt; c \<leftarrow> Check x gd; ret (join_err (join_err a b) c) }) P" for obs
    unfolding succeeds_if_def wp_bind
  proof
    fix w
    have "wp (read obs) (\<lambda>q _. q = None \<longrightarrow> P) w" using assms by (simp add: succeeds_if_def)
    then show "wp (read obs) (\<lambda>a. wp (Ctx_Err rt) (\<lambda>b. wp (Check x gd) (\<lambda>c.
        wp (ret (join_err (join_err a b) c)) (\<lambda>q _. q = None \<longrightarrow> P)))) w"
      by (rule wp_mono) (rule wpI, rule wpI, simp add: wp_ret)
  qed
  then show ?thesis
    unfolding Observe_def by (auto intro: succeeds_if_guardE succeeds_if_ret split: option.split)
qed

lemma succeeds_if_verifyPinnedGrant:
  "succeeds_if (verifyPinnedGrant x rt r build entry) (RGrantReceiptUID entry \<noteq> [] \<and> \<not> RClosing entry)"
  unfolding verifyPinnedGrant_def verifyPinnedGrantWithObservation_def
  by (intro succeeds_if_if succeeds_if_Observe results_intros) auto

lemma yields_ObserveValue:
  fixes read :: "Observation \<Rightarrow> ('w, goerr + 'b) op"
  assumes "lawful_reconciler log x rt r" and "\<And>obs. yields log (read obs) P N"
  shows "yields log (ObserveValue x rt (RGenesis r) read) P N"
proof -
  have rest: "wp (Ctx_Err rt) (\<lambda>b. wp (Check x (RGenesis r)) (\<lambda>c w'. wp (case q of
        Inl a \<Rightarrow> ret (Inl (case join_err (join_err (Some a) b) c of Some err \<Rightarrow> err | None \<Rightarrow> a))
      | Inr v \<Rightarrow> ret (case join_err b c of Some e \<Rightarrow> Inl e | None \<Rightarrow> Inr v))
      (\<lambda>q w'. still (log w) (log w') \<and> (\<forall>v. q = Inr v \<longrightarrow> P v \<and> knows (N v) (log w'))) w')) w1"
    if "still (log w) (log w1)" and "\<forall>v. q = Inr v \<longrightarrow> P v \<and> knows (N v) (log w1)" for w w1 and q :: "goerr + 'b"
    by (rule wp_mono [OF keepsD [OF quiet_base(3) [OF assms(1)]]], simp,
        rule wp_mono [OF keepsD [OF quiet_base(2) [OF assms(1)]]], simp)
      (use that in \<open>auto simp: wp_ret intro: grows_trans knows_grows split: sum.splits option.splits\<close>)
  have "yields log (do { q \<leftarrow> read obs; b \<leftarrow> Ctx_Err rt; c \<leftarrow> Check x (RGenesis r);
      case q of Inl a \<Rightarrow> ret (Inl (case join_err (join_err (Some a) b) c of Some err \<Rightarrow> err | None \<Rightarrow> a))
      | Inr v \<Rightarrow> ret (case join_err b c of Some e \<Rightarrow> Inl e | None \<Rightarrow> Inr v) }) P N" for obs
    unfolding yields_def wp_bind by (intro allI, rule wp_mono [OF yieldsD [OF assms(2)]]) (use rest in blast)
  note body = this
  show ?thesis
  proof (cases "RGenesis r")
    case None
    then show ?thesis by (simp add: ObserveValue_def yields_def wp_ret grows.refl)
  next
    case (Some g)
    show ?thesis
      unfolding ObserveValue_def Some option.case yields_def wp_guard
      unfolding Some [symmetric]
      by (intro allI, rule wp_mono [OF keepsD [OF quiet_base(2) [OF assms(1)]]], simp)
        (auto split: option.split intro!: wp_mono [OF yieldsD [OF body]] intro: grows_trans)
  qed
qed

end
