(* ===== verification/Reservation_Refine.thy ===== *)
theory Reservation_Refine
  imports Reservation_Steps
begin

text \<open>
  The refinement itself: each operation on the active ledger, with the steps of the protocol that
  its commits may be.
\<close>

section \<open>Writes\<close>

lemma entry_if_Some: "entry_if P s build = Some e \<longleftrightarrow> map_of (the_active s) (reservationKey build) = Some e \<and> P e"
  by (auto simp: entry_if_def split: option.split)

lemma keeps_active_write:
  assumes "lawful_reconciler log x rt r" and "carries (decode_reservations x r) (active_key ns) reservationDataKey cm c"
    and "(active_key ns, OConfigMap cm) \<in> K" and "good_active r c'"
    and "validateReservationState x c' = None \<Longrightarrow> active_step (rc_guarded r) l c c'" and "L l"
  shows "keeps_given K log (reservation_event x r ns L) (writeReservations x r cm c')"
proof (rule active.keeps_save_valid [where S = "\<lambda>c c'. \<exists>l. L l \<and> active_step (rc_guarded r) l c c'", OF assms(1-4)])
  show "\<exists>l. L l \<and> active_step (rc_guarded r) l c c'" if "encodeReservations x c' = Inr raw" for raw
    using that assms(5,6) by (auto simp: encodeReservations_def split: option.splits)
qed (auto simp: reservation_event_def active_event_def)

lemma put_valid:
  assumes "validateReservationState x (put_active k e c) = None" and "go_map (the_active c)"
  shows "\<not> invalid_receipts (RVersion c) e" "\<not> invalid_reservation x (WorkerSlots c) k e"
proof -
  have "RActive (put_active k e c) = Some (mput k e (the_active c))" by (simp add: put_active_def)
  moreover have "(k, e) \<in> set (mput k e (the_active c))" using assms(2) by (simp add: set_mput)
  ultimately have "valid_reservation x (RVersion c) (WorkerSlots c) (k, e)"
    using assms(1) by (fastforce simp: validateReservationState_iff)
  then show "\<not> invalid_receipts (RVersion c) e" "\<not> invalid_reservation x (WorkerSlots c) k e"
    by (simp_all add: valid_reservation_def)
qed

lemma keeps_active_entry:
  assumes "lawful_reconciler log x rt r" and "carries (decode_reservations x r) (active_key ns) reservationDataKey cm c"
    and "(active_key ns, OConfigMap cm) \<in> K"
    and "\<not> invalid_receipts (if rc_guarded r then 2 else 1) e \<Longrightarrow> active_step (rc_guarded r) l c (put_active k e c)"
    and "L l"
  shows "keeps_given K log (reservation_event x r ns L) (writeReservations x r cm (put_active k e c))"
proof (rule keeps_active_write [where L = L, OF assms(1-3) _ _ assms(5)])
  have good: "good_active r c" using carries_good_active [OF assms(2)] ..
  then show "good_active r (put_active k e c)" by simp
  show "active_step (rc_guarded r) l c (put_active k e c)" if "validateReservationState x (put_active k e c) = None"
    using put_valid(1) [OF that] assms(4) good by (simp add: good_active_def split: if_splits)
qed

text \<open>What a valid entry of the two versions looks like, as far as the steps need it.\<close>

lemma receipts_facts:
  assumes "\<not> invalid_receipts (if g then 2 else 1) e"
  shows "RGrantObservedRV e \<noteq> [] \<Longrightarrow> g" "RGrantReceiptUID e \<noteq> [] \<Longrightarrow> g \<and> RGrantObservedRV e \<noteq> []"
    "RPodAttemptNonce e \<noteq> [] \<Longrightarrow> g" "RPodTemplateDigest e \<noteq> [] \<Longrightarrow> g \<and> RPodAttemptNonce e \<noteq> []"
    "RPodReceiptUID e \<noteq> [] \<Longrightarrow> g \<and> RPodTemplateDigest e \<noteq> []"
    "g \<Longrightarrow> RInFlight e = [n] \<Longrightarrow> n = RPodAttemptNonce e \<and> RPodReceiptUID e \<noteq> []"
    "RPodCleanupReady e \<Longrightarrow> g \<and> RClosing e \<and> RInFlight e = [] \<and> RPodReceiptUID e \<noteq> []"
    "RGrantCleanupReady e \<Longrightarrow> g \<and> RClosing e \<and> RInFlight e = [] \<and> RGrantReceiptUID e \<noteq> [] \<and>
       (RPodTemplateDigest e \<noteq> [] \<longrightarrow> RPodCleanupReady e)"
  using assms by (cases g; auto simp: invalid_receipts_def legacy_with_grant_def invalid_grant_state_def)+

lemmas issue_facts = receipts_facts(6) [of True, simplified]

lemma digest_nonempty: "validGrantReceiptDigest d \<Longrightarrow> d \<noteq> []"
  by (auto simp: validGrantReceiptDigest_def HasPrefix_def)

section \<open>Grants\<close>

text \<open>The quiet calls of the operations.\<close>

lemma keeps_reads:
  assumes "lawful_reconciler log x rt r"
  shows "keeps_given K log R (Check x (RGenesis r))" "keeps_given K log R (Ctx_Err rt)"
    "keeps_given K log R (waitReservationCAS rt i)" "keeps_given K log R (newPodCreateAttempt rt)"
    "keeps_given K log R (readReservations x rt r ns)" "keeps_given K log R (ensureLiveAdmissionBuild r build)"
    "keeps_given K log R (verifyPinnedGrant x rt r build entry)" "keeps_given K log R (verifyPinnedGrantForCleanup x rt r build entry)"
    "keeps_given K log R (observeGrantReceipt x rt r build entry)" "keeps_given K log R (observePodReceipt x rt r build entry)"
    "keeps_given K log R (verifyPinnedPodReceipt x rt r build entry allow)"
    "keeps_given K log R (freshIssueRecorded x rt r build entry)" "keeps_given K log R (podCreateAttemptRecorded x rt r build att)"
    "keeps_given K log R (checkGrantReceiptNamespaceWithObservation x rt r ctx ns obs)"
    "keeps_given K log R (grantIntentWithObservation x rt r ctx build entry obs)"
    "keeps_given K log R (podIntentWithObservation x rt r ctx build entry obs)"
    "keeps_given K log R (ensureNoUnreservedRunner x r ns s builds)" "keeps_given K log R (getOwnedPod r build)"
    "keeps_given K log R (permit_release (Coordinator r) p)" "keeps_given K log R (admission_permit rt r ns permit)"
    "keeps_given K log R (VerifyForBuild x rt (queueStoreForNamespace r ns) build)"
    "keeps_given K log R (via (rc_reader r) (\<lambda>rd. List_builds rd ns j))"
    "keeps_given K log R (via (rc_reader r) (\<lambda>rd. Get_build rd ns m))"
proof -
  show "keeps_given K log R (VerifyForBuild x rt (queueStoreForNamespace r ns) build)"
    unfolding VerifyForBuild_def VerifyForBuildSnapshot_def
    by (intro keeps_intros quiet_keeps [OF quiet_queue_reads(3) [OF lawful_queue_store [OF assms]]])
qed (rule quiet_keeps, rule quiet_base [OF assms] quiet_grant_reads [OF assms] quiet_pod_reads [OF assms]
    quiet_checkGrantReceiptNamespace [OF assms] quiet_grantIntent [OF assms] quiet_podIntent [OF assms]
    quiet_ensureNoUnreservedRunner [OF assms] quiet_getOwnedPod [OF assms] quiet_coordinator [OF assms]
    calm_quiet [OF calm_reads(4) [OF assms]] calm_quiet [OF calm_reads(2) [OF assms]])+

lemma keeps_armFreshGrant:
  assumes "lawful_reconciler log x rt r" and "L (AArm (reservationKey build))"
  shows "keeps log (reservation_event x r (Namespace (build_meta build)) L) (armFreshGrant x rt r build original)"
  unfolding armFreshGrant_def Let_def
  by (intro keeps_for_retry keeps_ret active.keeps_rtry_load [OF assms(1)])
    (intro keeps_intros keeps_reads [OF assms(1)]
      keeps_active_entry [where L = L and l = "AArm (reservationKey build)", OF assms(1)] active_step.arm,
      use assms(2) in \<open>auto simp: entry_if_Some validGrantObservedRV_def dest: receipts_facts(1)\<close>)

lemma keeps_pinGrantReceipt:
  assumes "lawful_reconciler log x rt r" and "L (APin (reservationKey build))"
  shows "keeps log (reservation_event x r (Namespace (build_meta build)) L) (pinGrantReceipt x rt r build armed witness)"
  unfolding pinGrantReceipt_def Let_def
  by (intro keeps_if keeps_for_retry keeps_ret active.keeps_rtry_load [OF assms(1)])
    (intro keeps_intros keeps_reads [OF assms(1)]
      keeps_active_entry [where L = L and l = "APin (reservationKey build)", OF assms(1)] active_step.pin,
      use assms(2) in \<open>auto simp: entry_if_Some validGrantReceiptUID_def dest: receipts_facts(2)\<close>)

lemma keeps_effect: "keeps log (effect_event r ns) m \<Longrightarrow> keeps_given K log (reservation_event x r ns L) m"
  by (rule keeps_weaken, erule keeps_mono) (simp add: reservation_event_def)

lemma keeps_ObserveValue:
  assumes "lawful_reconciler log x rt r" and "\<And>obs. quiet log (read obs)"
  shows "keeps_given K log R (ObserveValue x rt (RGenesis r) read)"
  by (rule quiet_keeps [OF quiet_ObserveValue [OF assms]])

lemma keeps_finishFreshGrant:
  assumes "lawful_reconciler log x rt r" and "L (AArm (reservationKey build))" and "L (APin (reservationKey build))"
  shows "keeps log (reservation_event x r (Namespace (build_meta build)) L) (finishFreshGrant x rt r build original)"
proof -
  note reads = keeps_reads [OF assms(1)]
  have "results (ObserveValue x rt (RGenesis r) (\<lambda>obs.
      guard (Observation_ReadE rt (Some obs) (RGenesis r) (ensureLiveAdmissionBuild r build)) (
      guard (checkGrantReceiptNamespaceWithObservation x rt r False (Namespace (build_meta build)) (Some obs)) (
      grantIntentWithObservation x rt r False build armed (Some obs)))))
      (\<lambda>i. receipt_build r (Namespace (build_meta build)) (GrantBuild i))" for armed
    by (intro results_ObserveValue results_guard results_grantIntent)
  then show ?thesis
    unfolding finishFreshGrant_def checkGrantReceiptNamespace_def
    by (intro keeps_attemptE keeps_armFreshGrant [where L = L, OF assms(1,2)] keeps_attemptE_results
        keeps_ObserveValue [OF assms(1)])
      (assumption | intro keeps_intros reads keeps_pinGrantReceipt [where L = L, OF assms(1,3)]
        quiet_Observation_ReadE quiet_base [OF assms(1)] keeps_effect keeps_records [OF assms(1)])+
qed

section \<open>Admission\<close>

lemma used_slots_mput: "go_map m \<Longrightarrow> map_of m k = None \<Longrightarrow> used_slots (mput k e m) = used_slots m + RSlots e"
  by (induction k e m rule: mput.induct) (auto simp: go_map_Cons split: if_splits)

lemma jobs_of_mput: "go_map m \<Longrightarrow> map_of m k = None \<Longrightarrow>
    jobs_of q (mput k e m) = jobs_of q m + (if RRequester e = q then 1 else 0)"
  by (induction k e m rule: mput.induct) (auto simp: go_map_Cons split: if_splits)

lemma grant_step:
  assumes "good_active r s" and "map_of (the_active s) (reservationKey build) = None"
    and "validateReservationState x (grant_state r build (fresh_entry r build n nonce s) s) = None"
  shows "active_step (rc_guarded r) (AGrant (reservationKey build) (fresh_entry r build n nonce s)) s
    (grant_state r build (fresh_entry r build n nonce s) s)"
proof -
  let ?e = "fresh_entry r build n nonce s" and ?k = "reservationKey build"
  have sorted: "go_map (the_active s)" using assms(1) by (simp add: good_active_def)
  have act: "RActive (grant_state r build ?e s) = Some (mput ?k ?e (the_active s))"
    by (simp add: grant_state_def put_active_def grant_fence_def)
  have header: "MaxJobs (grant_state r build ?e s) = MaxJobs s" "MaxPerRequester (grant_state r build ?e s) = MaxPerRequester s"
    "WorkerSlots (grant_state r build ?e s) = WorkerSlots s"
    by (simp_all add: grant_state_def grant_fence_def)
  have req: "RRequester ?e = requesterKey build" by (simp add: fresh_entry_def)
  have limits: "within_limits (grant_state r build ?e s)" and "valid_reservation x (RVersion (grant_state r build ?e s)) (WorkerSlots s) (?k, ?e)"
    using assms(3) act header set_mput [OF sorted] by (auto simp: validateReservationState_iff)
  then have "1 \<le> RSlots ?e" by (auto dest: valid_reservation_slots)
  moreover have "int (length (the_active s)) < MaxJobs s" "used_slots (the_active s) + RSlots ?e \<le> WorkerSlots s"
    using limits act header length_mput [OF sorted, of ?k ?e] used_slots_mput [OF sorted assms(2)] assms(2)
    by (simp_all add: within_limits_def)
  moreover have "int (jobs_of (RRequester ?e) (mput ?k ?e (the_active s))) \<le> MaxPerRequester s"
    using limits act header by (simp add: within_limits_def)
  then have "int (jobs_of (RRequester ?e) (the_active s)) < MaxPerRequester s"
    by (simp add: jobs_of_mput [OF sorted assms(2)])
  moreover have "unused_entry ?e" by (simp add: unused_entry_def fresh_entry_def)
  ultimately show ?thesis
    by (intro active_step.grant assms(2)) (auto simp: grant_state_def grant_fence_def req)
qed

abbreviation admission_labels :: "KovaBuild \<Rightarrow> active_label \<Rightarrow> bool" where
  "admission_labels build \<equiv> \<lambda>l. (\<exists>e. l = AGrant (reservationKey build) e) \<or> l = AArm (reservationKey build) \<or>
     l = APin (reservationKey build)"

lemma keeps_admission_grant:
  assumes "lawful_reconciler log x rt r"
    and "carries (decode_reservations x r) (active_key (Namespace (build_meta build))) reservationDataKey cm s"
    and "(active_key (Namespace (build_meta build)), OConfigMap cm) \<in> K"
  shows "keeps_given K log (reservation_event x r (Namespace (build_meta build)) (admission_labels build))
    (admission_grant x rt r build nonce retry permit cm s)"
proof -
  let ?ns = "Namespace (build_meta build)"
  have good: "good_active r s" using carries_good_active [OF assms(2)] ..
  have stored: "keeps_given K log (reservation_event x r ?ns (admission_labels build))
      (writeReservations x r cm (grant_state r build (fresh_entry r build n nonce s) s))"
    if "map_of (the_active s) (reservationKey build) = None" for n
    by (rule keeps_active_write [OF assms, where l = "AGrant (reservationKey build) (fresh_entry r build n nonce s)"])
      (use good grant_step [OF good that] in \<open>auto simp: grant_state_def grant_fence_def\<close>)
  show ?thesis
    unfolding admission_grant_def Let_def
    by (intro keeps_intros keeps_reads [OF assms(1)] stored keeps_weaken [OF keeps_finishFreshGrant [OF assms(1)]]) auto
qed

lemma keeps_admission:
  assumes "lawful_reconciler log x rt r"
  shows "keeps log (reservation_event x r (Namespace (build_meta build)) (admission_labels build)) (admission x rt r build)"
proof -
  have round: "keeps log (reservation_event x r (Namespace (build_meta build)) (admission_labels build))
      (admission_round x rt r build nonce retry permit)" for nonce retry permit
    unfolding admission_round_def Let_def readReservations_def
    by (intro keeps_tguard keeps_reads [OF assms] keeps_ttry_yields [OF yields_readReservations [OF assms]])
      (intro keeps_intros keeps_reads [OF assms] keeps_admission_grant [OF assms], auto)
  show ?thesis
    unfolding admission_def by (intro keeps_intros keeps_reads [OF assms] round)
qed

section \<open>The Pod attempt\<close>

lemma keeps_beginPodCreate:
  assumes "lawful_reconciler log x rt r"
  shows "keeps log (reservation_event x r (Namespace (build_meta build))
    (\<lambda>l. if rc_guarded r then \<exists>n. l = ASpend (reservationKey build) n else l = AIssue (reservationKey build)))
    (beginPodCreate x rt r build)" (is "keeps log (reservation_event x r ?ns ?L) _")
proof -
  let ?k = "reservationKey build"
  have stored: "keeps_given K log (reservation_event x r ?ns ?L) (writeReservations x r cm (put_active ?k
      (if rc_guarded r then e\<lparr>RPodAttemptNonce := n\<rparr> else e\<lparr>RInFlight := RInFlight e @ [n]\<rparr>) c))"
    if "carries (decode_reservations x r) (active_key ?ns) reservationDataKey cm c"
      "(active_key ?ns, OConfigMap cm) \<in> K" "map_of (the_active c) ?k = Some e" "\<not> RClosing e" "RInFlight e = []"
      "rc_guarded r \<longrightarrow> RGrantReceiptUID e \<noteq> []" "\<not> (rc_guarded r \<and> RPodAttemptNonce e \<noteq> [])" "n \<noteq> []" for K cm c e n
    by (rule keeps_active_entry [where l = "if rc_guarded r then ASpend ?k n else AIssue ?k", OF assms that(1,2)])
      (use that active_step.issue [of c ?k e "rc_guarded r" n] active_step.spend [of "rc_guarded r" c ?k e n] in auto)
  have pinned: "succeeds_if (if rc_guarded r then verifyPinnedGrant x rt r build e else ret None)
      (rc_guarded r \<longrightarrow> RGrantReceiptUID e \<noteq> [])" for e
    using succeeds_if_verifyPinnedGrant [of x rt r build e]
    by (auto simp: succeeds_if_def wp_ret elim: wp_mono)
  show ?thesis
    unfolding beginPodCreate_def Let_def
    by (rule keeps_attempt_results [OF keeps_reads(4) [OF assms] results_newPodCreateAttempt [OF assms]],
        intro keeps_for_retry keeps_ret, rule keeps_rguard [OF keeps_reads(2) [OF assms]],
        rule active.keeps_rtry_load [OF assms], simp only: prod.case, rule keeps_rguard [OF keeps_reads(6) [OF assms]],
        intro keeps_case_option keeps_if keeps_ret keeps_rguard_succeeds [OF _ pinned])
      (intro keeps_intros keeps_reads [OF assms] stored; simp add: entry_if_Some)+
qed

lemma yields_entry:
  assumes "lawful_reconciler log x rt r" and "\<And>cm s e. quiet log (f cm s e)" and "\<And>cm s e. results (f cm s e) (\<lambda>u. u = (cm, s, e))"
  shows "yields log (attempt (readReservationsWithObservation x rt r ctx (Namespace (build_meta build)) obs) (\<lambda>(cm, s).
      case entry_if P s build of None \<Rightarrow> ret (Inl err) | Some e \<Rightarrow> f cm s e))
    (\<lambda>(cm, s, e). carries (decode_reservations x r) (active_key (Namespace (build_meta build))) reservationDataKey cm s \<and>
       map_of (the_active s) (reservationKey build) = Some e \<and> P e)
    (\<lambda>(cm, s, e). {(active_key (Namespace (build_meta build)), OConfigMap cm)})"
proof (rule yields_attempt [OF yields_readReservations [OF assms(1)]], goal_cases)
  case (1 v)
  show ?case by (auto intro!: keeps_intros assms(2) split: prod.split)
next
  case (2 v w)
  obtain cm s where v: "v = (cm, s)" by (cases v)
  show ?case
  proof (cases "entry_if P s build")
    case None
    then show ?thesis by (simp add: v wp_ret)
  next
    case (Some e)
    have "wp (f cm s e) (\<lambda>q _. \<forall>u. q = Inr u \<longrightarrow> u = (cm, s, e)) w" using assms(3) by (simp add: results_def)
    then show ?thesis
      unfolding v prod.case Some option.case by (rule wp_mono) (use 2 Some v in \<open>auto simp: entry_if_Some\<close>)
  qed
qed

abbreviation observes_entry ::
  "('w \<Rightarrow> event list) \<Rightarrow> 'x ext_scheme \<Rightarrow> 'w KovaBuildReconciler \<Rightarrow> KovaBuild \<Rightarrow> (activeReservation \<Rightarrow> bool) \<Rightarrow>
     ('w, goerr + configmap \<times> reservationState \<times> activeReservation) op \<Rightarrow> bool" where
  "observes_entry log x r build P m \<equiv> yields log m
    (\<lambda>(cm, s, e). carries (decode_reservations x r) (active_key (Namespace (build_meta build))) reservationDataKey cm s \<and>
       map_of (the_active s) (reservationKey build) = Some e \<and> P e)
    (\<lambda>(cm, s, e). {(active_key (Namespace (build_meta build)), OConfigMap cm)})"

lemma yields_observe_unarmed:
  assumes "lawful_reconciler log x rt r"
  shows "observes_entry log x r build (\<lambda>e. RBuildName e = Name (build_meta build) \<and> RPodAttemptNonce e = att \<and>
    RPodTemplateDigest e = [] \<and> RPodReceiptUID e = [] \<and> \<not> RClosing e \<and> RInFlight e = []) (observe_unarmed x rt r build att)"
  unfolding observe_unarmed_def
  by (rule yields_ObserveValue [OF assms], rule yields_entry [OF assms])
    (intro keeps_intros quiet_Observation_ReadE quiet_base [OF assms] quiet_grant_reads [OF assms],
      intro results_intros, simp)

lemma yields_observe_pinned:
  assumes "lawful_reconciler log x rt r"
  shows "observes_entry log x r build (\<lambda>e. samePodAttempt e pinned \<and> RPodTemplateDigest e = RPodTemplateDigest pinned \<and>
    RPodReceiptUID e = RPodReceiptUID pinned \<and> RPodReceiptDigest e = RPodReceiptDigest pinned \<and>
    \<not> RClosing e \<and> \<not> RPodCleanupReady e \<and> RInFlight e = []) (observe_pinned x rt r build pinned)"
  unfolding observe_pinned_def
  by (rule yields_ObserveValue [OF assms], rule yields_entry [OF assms])
    (intro keeps_intros quiet_Observation_ReadE quiet_base [OF assms] quiet_grant_reads [OF assms] quiet_pod_reads [OF assms],
      intro results_intros, simp)

lemma keeps_armFreshPodAttempt:
  assumes "lawful_reconciler log x rt r" and "L (APodArm (reservationKey build))"
  shows "keeps log (reservation_event x r (Namespace (build_meta build)) L) (armFreshPodAttempt x rt r build att digest)"
  unfolding armFreshPodAttempt_def Let_def
  by (intro keeps_if keeps_for_retry keeps_ret keeps_rtry_yields [OF yields_observe_unarmed [OF assms(1)]] keeps_case_prod)
    (intro keeps_intros keeps_reads [OF assms(1)]
      keeps_active_entry [where L = L and l = "APodArm (reservationKey build)", OF assms(1)] active_step.pod_arm,
      use assms(2) in \<open>auto simp: validReservationHex_def dest!: digest_nonempty dest: receipts_facts(4)\<close>)

lemma keeps_pinPodReceipt:
  assumes "lawful_reconciler log x rt r" and "L (APodPin (reservationKey build))"
  shows "keeps log (reservation_event x r (Namespace (build_meta build)) L) (pinPodReceipt x rt r build armed witness)"
  unfolding pinPodReceipt_def Let_def
  by (intro keeps_if keeps_for_retry keeps_ret active.keeps_rtry_load [OF assms(1)])
    (intro keeps_intros keeps_reads [OF assms(1)]
      keeps_active_entry [where L = L and l = "APodPin (reservationKey build)", OF assms(1)] active_step.pod_pin,
      use assms(2) in \<open>auto simp: entry_if_Some validGrantReceiptUID_def dest: receipts_facts(5)\<close>)

lemma keeps_authorizeFreshPodCreate:
  assumes "lawful_reconciler log x rt r" and "L (AIssue (reservationKey build))"
  shows "keeps log (reservation_event x r (Namespace (build_meta build)) L) (authorizeFreshPodCreate x rt r build pinned)"
  unfolding authorizeFreshPodCreate_def Let_def
  by (intro keeps_for_retry keeps_ret keeps_rtryE_yields [OF yields_observe_pinned [OF assms(1)]] keeps_case_prod)
    (intro keeps_intros keeps_reads [OF assms(1)]
      keeps_active_entry [where L = L and l = "AIssue (reservationKey build)", OF assms(1)] active_step.issue,
      use assms(2) in \<open>auto simp: samePodAttempt_def dest: issue_facts\<close>)

lemma keeps_finishFreshPodAttempt:
  assumes "lawful_reconciler log x rt r" and "L (APodArm (reservationKey build))" and "L (APodPin (reservationKey build))"
    and "L (AIssue (reservationKey build))"
  shows "keeps log (reservation_event x r (Namespace (build_meta build)) L) (finishFreshPodAttempt x rt r build p att)"
proof -
  note reads = keeps_reads [OF assms(1)]
  have "results (ObserveValue x rt (RGenesis r) (\<lambda>obs.
      guard (Observation_ReadE rt (Some obs) (RGenesis r) (ensureLiveAdmissionBuild r build)) (
      guard (checkGrantReceiptNamespaceWithObservation x rt r False (Namespace (build_meta build)) (Some obs)) (
      podIntentWithObservation x rt r False build armed (Some obs)))))
      (\<lambda>i. receipt_build r (Namespace (build_meta build)) (PodBuild i))" for armed
    by (intro results_ObserveValue results_guard results_podIntent)
  note intent = keeps_attempt_results [OF keeps_ObserveValue [OF assms(1)] this]
  show ?thesis
    unfolding finishFreshPodAttempt_def checkGrantReceiptNamespace_def Let_def
    by (intro keeps_if keeps_ret keeps_guard keeps_attempt [OF keeps_ret] intent
        keeps_attempt [OF keeps_armFreshPodAttempt [where L = L, OF assms(1,2)]])
      (assumption | intro keeps_intros reads keeps_pinPodReceipt [where L = L, OF assms(1,3)]
        keeps_authorizeFreshPodCreate [where L = L, OF assms(1,4)]
        quiet_Observation_ReadE quiet_base [OF assms(1)] keeps_effect keeps_records [OF assms(1)])+
qed

lemma keeps_completeGenesisPodCreate:
  assumes "lawful_reconciler log x rt r" and "L (AComplete (reservationKey build))"
  shows "keeps log (reservation_event x r (Namespace (build_meta build)) L) (completeGenesisPodCreate x rt r build att)"
  unfolding completeGenesisPodCreate_def Let_def
  by (intro keeps_for_retry keeps_ret active.keeps_rtryE_load [OF assms(1)])
    (intro keeps_intros keeps_reads [OF assms(1)]
      keeps_active_entry [where L = L and l = "AComplete (reservationKey build)", OF assms(1)] active_step.complete,
      use assms(2) in \<open>auto simp: entry_if_Some\<close>)

lemma one_in_flight:
  assumes "carries (decode_reservations x r) k reservationDataKey cm c" and "map_of (the_active c) b = Some e" and "n \<in> set (RInFlight e)"
  shows "RInFlight e = [n]"
proof -
  have "validateReservationState x c = None" using carries_good_active [OF assms(1)] by simp
  then have "\<not> invalid_reservation x (WorkerSlots c) b e"
    using assms(2) by (auto simp: validateReservationState_iff valid_reservation_def the_active_def dest!: map_of_SomeD)
  then show ?thesis using assms(3) by (cases "RInFlight e") (auto simp: invalid_reservation_def)
qed

lemma keeps_completePodCreate:
  assumes "lawful_reconciler log x rt r" and "L (AComplete (reservationKey build))"
  shows "keeps log (reservation_event x r (Namespace (build_meta build)) L) (completePodCreate x rt r build att)"
proof (cases "rc_guarded r")
  case True
  then show ?thesis
    using keeps_completeGenesisPodCreate [where L = L, OF assms] by (simp add: completePodCreate_def)
next
  case False
  let ?k = "reservationKey build" and ?ns = "Namespace (build_meta build)"
  have stored: "keeps_given K log (reservation_event x r ?ns L)
      (writeReservations x r cm (put_active ?k (e\<lparr>RInFlight := remove1 n (RInFlight e)\<rparr>) c))"
    if "carries (decode_reservations x r) (active_key ?ns) reservationDataKey cm c"
      "(active_key ?ns, OConfigMap cm) \<in> K" "map_of (the_active c) ?k = Some e" "n \<in> set (RInFlight e)" for K cm c e n
    by (rule keeps_active_entry [where L = L and l = "AComplete ?k", OF assms(1) that(1,2)])
      (use one_in_flight [OF that(1,3,4)] that False assms(2) active_step.complete [of c ?k e n "rc_guarded r"] in auto)
  show ?thesis
    unfolding completePodCreate_def Let_def using False
    by (simp only: if_False) (intro keeps_for_retry keeps_ret keeps_rguardE keeps_reads [OF assms(1)]
        active.keeps_rtryE_load [OF assms(1)], intro keeps_intros keeps_reads [OF assms(1)] stored, auto simp: entry_if_Some)
qed

section \<open>Cleanup\<close>

lemma keeps_rtryE_ret:
  "(\<And>v. q = Inr v \<Longrightarrow> keeps_given K log R (f v)) \<Longrightarrow> keeps_given K log R (rtryE (ret q) f)"
  by (rule keeps_rtryE_post [OF keeps_ret, where P = "\<lambda>v. q = Inr v"]) (auto simp: wp_ret)

lemma keeps_fenceReservation:
  assumes "lawful_reconciler log x rt r" and "L (AClose (reservationKey build))"
  shows "keeps log (reservation_event x r (Namespace (build_meta build)) L) (fenceReservation x rt r build)"
proof -
  let ?k = "reservationKey build" and ?ns = "Namespace (build_meta build)"
  have stored: "keeps_given K log (reservation_event x r ?ns L) (writeReservations x r cm c')"
    if "carries (decode_reservations x r) (active_key ?ns) reservationDataKey cm c"
      "(active_key ?ns, OConfigMap cm) \<in> K" "fence_state build c = Inr c'" for K cm c c'
    by (rule keeps_active_write [where L = L and l = "AClose ?k", OF assms(1) that(1,2)])
      (use carries_good_active [OF that(1)] that(3) assms(2) in
        \<open>auto simp: fence_state_def Let_def intro: active_step.intros split: option.splits if_splits\<close>)
  show ?thesis
    unfolding fenceReservation_def
    by (intro keeps_for_retry keeps_ret active.keeps_rtryE_load [OF assms(1)], simp only: prod.case,
        rule keeps_rtryE_ret, intro keeps_intros keeps_reads [OF assms(1)] stored) auto
qed

end
