(* ===== verification/Reservation_Release.thy ===== *)
theory Reservation_Release
  imports Reservation_Refine
begin

text \<open>
  The release of a reservation: capacity is freed only for a closed entry without a Pod creation in
  flight, after the runner Pod and, in a guarded installation, the receipts of the Pod and of the
  grant were seen to be gone.
\<close>

section \<open>Operations that see keys absent\<close>

text \<open>If the versions in \<open>K\<close> were stored before: with result \<open>q\<close>, every key of \<open>S q\<close> was free at some time during the operation.\<close>

definition clears :: "(okey \<times> obj) set \<Rightarrow> ('w \<Rightarrow> event list) \<Rightarrow> ('w, 'a) op \<Rightarrow> ('a \<Rightarrow> okey set) \<Rightarrow> bool" where
  "clears K log m S \<longleftrightarrow> (\<forall>w. knows K (log w) \<longrightarrow> wp m (\<lambda>q w'. grows (\<lambda>_ _. True) (log w) (log w') \<and>
     (\<forall>k \<in> S q. absent_between k (log w) (log w'))) w)"

named_theorems clears_intros \<open>closure rules for cleared keys\<close>

lemma clears_keeps: "keeps_given K log R m \<Longrightarrow> clears K log m (\<lambda>_. {})"
  unfolding clears_def
  by (intro allI impI, rule wp_mono [OF keepsD [where K = K]], assumption) (auto elim: grows_mono)

lemma clears_ret: "S q = {} \<Longrightarrow> clears K log (ret q) S"
  by (simp add: clears_def wp_ret grows.refl)

lemma clears_bind:
  fixes m :: "('w, 'a) op" and f :: "'a \<Rightarrow> ('w, 'b) op"
  assumes "clears K log m S" and "\<And>w. wp m (\<lambda>q _. P q) w" and "\<And>q. P q \<Longrightarrow> clears K log (f q) (\<lambda>x. U x - S q)"
  shows "clears K log (State_Monad.bind m f) U"
  unfolding clears_def wp_bind
proof (intro allI impI)
  fix w
  assume K: "knows K (log w)"
  have "wp m (\<lambda>q w'. (grows (\<lambda>_ _. True) (log w) (log w') \<and> (\<forall>k \<in> S q. absent_between k (log w) (log w'))) \<and> P q) w"
    using wp_conj [OF assms(1) [unfolded clears_def, rule_format, OF K] assms(2)] .
  then show "wp m (\<lambda>q. wp (f q) (\<lambda>x w'. grows (\<lambda>_ _. True) (log w) (log w') \<and>
      (\<forall>k \<in> U x. absent_between k (log w) (log w')))) w"
  proof (rule wp_mono, elim conjE)
    fix q w'
    assume g: "grows (\<lambda>_ _. True) (log w) (log w')" and s: "\<forall>k \<in> S q. absent_between k (log w) (log w')" and "P q"
    have "wp (f q) (\<lambda>x w''. grows (\<lambda>_ _. True) (log w') (log w'') \<and>
        (\<forall>k \<in> U x - S q. absent_between k (log w') (log w''))) w'"
      using assms(3) [OF \<open>P q\<close>] knows_grows [OF K g] by (simp add: clears_def)
    then show "wp (f q) (\<lambda>x w'. grows (\<lambda>_ _. True) (log w) (log w') \<and> (\<forall>k \<in> U x. absent_between k (log w) (log w'))) w'"
    proof (rule wp_mono, elim conjE, intro conjI ballI)
      fix x w'' k
      assume g': "grows (\<lambda>_ _. True) (log w') (log w'')" and u: "\<forall>k \<in> U x - S q. absent_between k (log w') (log w'')"
      show "grows (\<lambda>_ _. True) (log w) (log w'')" by (rule grows_trans [OF g' g])
      assume "k \<in> U x"
      then show "absent_between k (log w) (log w'')"
        using s u by (cases "k \<in> S q") (auto intro: absent_between_mono [OF _ grows.refl g'] absent_between_mono [OF _ g grows.refl])
    qed
  qed
qed

lemma clears_mono: "clears K log m S \<Longrightarrow> (\<And>q. T q \<subseteq> S q) \<Longrightarrow> clears K log m T"
  unfolding clears_def by (blast intro: wp_mono)

lemma clears_if [clears_intros]: "(b \<Longrightarrow> clears K log m S) \<Longrightarrow> (\<not> b \<Longrightarrow> clears K log n S) \<Longrightarrow> clears K log (if b then m else n) S"
  by simp

abbreviation on_ok :: "okey set \<Rightarrow> goerr option \<Rightarrow> okey set" where
  "on_ok A q \<equiv> (if q = None then A else {})"

lemma clears_fail [clears_intros]: "clears K log (ret (Some e)) (on_ok A)"
  by (rule clears_ret) simp

lemma clears_after [clears_intros]: "keeps_given K log R m \<Longrightarrow> clears K log k (on_ok A) \<Longrightarrow> clears K log (guardE m k) (on_ok A)"
  unfolding guardE_def
  by (rule clears_bind [OF clears_keeps, where P = "\<lambda>_. True"])
    (auto simp: wpI intro: clears_ret elim: clears_mono split: option.split)

lemma clears_before: "clears K log m (on_ok A) \<Longrightarrow> keeps_given K log R k \<Longrightarrow> clears K log (guardE m k) (on_ok A)"
  unfolding guardE_def
proof (rule clears_bind [where S = "on_ok A" and P = "\<lambda>_. True"])
  fix q :: "goerr option"
  assume "keeps_given K log R k"
  then have "clears K log k (\<lambda>x. on_ok A x - A)" by (rule clears_mono [OF clears_keeps]) simp
  then show "clears K log (case q of None \<Rightarrow> k | Some e \<Rightarrow> ret (Some e)) (\<lambda>x. on_ok A x - on_ok A q)"
    by (auto intro: clears_ret split: option.split)
qed (auto simp: wpI)

lemma clears_attemptE:
  "keeps_given K log R m \<Longrightarrow> results m P \<Longrightarrow> (\<And>v. P v \<Longrightarrow> clears K log (f v) (on_ok A)) \<Longrightarrow> clears K log (attemptE m f) (on_ok A)"
  unfolding attemptE_def
  by (rule clears_bind [OF clears_keeps, where P = "\<lambda>q. \<forall>v. q = Inr v \<longrightarrow> P v"])
    (auto simp: results_def intro: clears_ret elim: clears_mono split: sum.split)

section \<open>Receipts\<close>

definition grant_receipt_key :: "'w KovaBuildReconciler \<Rightarrow> activeReservation \<Rightarrow> okey" where
  "grant_receipt_key r e = (KConfigMap, receipts_namespace r, grantReceiptPrefix @ RGrantNonce e)"

definition pod_receipt_key :: "'w KovaBuildReconciler \<Rightarrow> activeReservation \<Rightarrow> okey" where
  "pod_receipt_key r e = (KConfigMap, receipts_namespace r, podReceiptPrefix @ RPodAttemptNonce e)"

lemma clears_CM_Get:
  assumes "lawful_reconciler log x rt r"
  shows "clears K log (via (RecoveryReceipts r) (\<lambda>a. CM_Get a n))
    (\<lambda>q. if \<exists>e. q = Inl e \<and> IsNotFound e then {(KConfigMap, receipts_namespace r, n)} else {})"
proof (cases "RecoveryReceipts r")
  case None
  then show ?thesis by (simp add: via_def clears_def wp_ret grows.refl)
next
  case (Some a)
  then have law: "lawful_configmaps log (receipts_namespace r) a" using assms by (simp add: lawful_reconciler_def)
  have calm: "calm log (CM_Get a n)" using law by (simp add: lawful_configmaps_def)
  have absent: "wp (CM_Get a n) (\<lambda>q w'. (\<forall>cm. q = Inr cm \<longrightarrow> current (log w') (KConfigMap, receipts_namespace r, n) = Some (OConfigMap cm)) \<and>
      (\<forall>e. q = Inl e \<and> IsNotFound e \<longrightarrow> current (log w') (KConfigMap, receipts_namespace r, n) = None)) w" for w
    using law unfolding lawful_configmaps_def by blast
  show ?thesis
    unfolding Some via_def option.case clears_def
  proof (intro allI impI, rule wp_mono [OF wp_conj [OF calmD [OF calm] absent]], elim conjE)
    fix w w' and q :: "goerr + configmap"
    assume st: "still (log w) (log w')"
      and no: "\<forall>e. q = Inl e \<and> IsNotFound e \<longrightarrow> current (log w') (KConfigMap, receipts_namespace r, n) = None"
    show "grows (\<lambda>_ _. True) (log w) (log w') \<and> (\<forall>k \<in> if \<exists>e. q = Inl e \<and> IsNotFound e
        then {(KConfigMap, receipts_namespace r, n)} else {}. absent_between k (log w) (log w'))"
      using still_grows [OF st] absent_between_now [OF st] no by auto
  qed
qed

lemma clears_delete_receipt:
  assumes "lawful_reconciler log x rt r" and "receipts_namespace r \<noteq> ns"
  shows "clears K log (delete_receipt (RecoveryReceipts r) n qualify u d) (on_ok {(KConfigMap, receipts_namespace r, n)})"
proof -
  let ?k = "(KConfigMap, receipts_namespace r, n)"
  have seen: "clears K log (do { after \<leftarrow> via (RecoveryReceipts r) (\<lambda>a. CM_Get a n);
      case after of Inr _ \<Rightarrow> ret (Some err) | Inl e \<Rightarrow> if IsNotFound e then ret None else ret (Some e) }) (on_ok {?k})" for err
    by (rule clears_bind [OF clears_CM_Get [OF assms(1)], where P = "\<lambda>_. True"])
      (auto simp: wpI intro!: clears_ret split: sum.split)
  note effects = keeps_weaken [OF keeps_CM_requests(2) [OF assms(1) _ assms(2)]] quiet_keeps [OF quiet_CM_Get [OF assms(1)]]
  show ?thesis
    unfolding delete_receipt_def
  proof (rule clears_bind [OF clears_keeps [where R = "effect_event r ns"], where P = "\<lambda>_. True"])
    show "clears K log (guardE (case q of Inl e \<Rightarrow> if IsNotFound e then ret None else ret (Some e)
        | Inr cm \<Rightarrow> (case qualify cm of Inl _ \<Rightarrow> ret (Some ErrReceiptChanged)
          | Inr witness \<Rightarrow> if EffectReceiptUID witness \<noteq> u \<or> EffectDataDigest witness \<noteq> d then ret (Some ErrReceiptChanged)
              else do { q \<leftarrow> viaE (RecoveryReceipts r) (\<lambda>a. CM_Delete a n (Some u));
                case q of None \<Rightarrow> ret None | Some e \<Rightarrow> if IsNotFound e then ret None else ret (Some e) }))
        (do { after \<leftarrow> via (RecoveryReceipts r) (\<lambda>a. CM_Get a n);
          case after of Inr _ \<Rightarrow> ret (Some (ErrMsg ''receipt still exists after UID-preconditioned Delete''))
          | Inl e \<Rightarrow> if IsNotFound e then ret None else ret (Some e) })) (\<lambda>x. on_ok {?k} x - {})" for q
      unfolding Diff_empty by (rule clears_after [where R = "effect_event r ns", OF _ seen]) (intro keeps_intros effects)
  qed (auto simp: wpI intro!: keeps_intros effects)
qed

lemma results_intents:
  "results (grantIntentWithObservation x rt r ctx build grant obs)
     (\<lambda>i. receipt_build r (Namespace (build_meta build)) (GrantBuild i) \<and> GrantNonce i = RGrantNonce grant)"
  "results (podIntentWithObservation x rt r ctx build grant obs)
     (\<lambda>i. receipt_build r (Namespace (build_meta build)) (PodBuild i) \<and> PodAttemptNonce i = RPodAttemptNonce grant)"
proof -
  show grant: "results (grantIntentWithObservation x rt r ctx build grant obs)
     (\<lambda>i. receipt_build r (Namespace (build_meta build)) (GrantBuild i) \<and> GrantNonce i = RGrantNonce grant)" for ctx obs
    unfolding grantIntentWithObservation_def
    by (intro results_intros) (auto simp: receipt_build_def pinned_build_def receipts_namespace_def Let_def)
  show "results (podIntentWithObservation x rt r ctx build grant obs)
     (\<lambda>i. receipt_build r (Namespace (build_meta build)) (PodBuild i) \<and> PodAttemptNonce i = RPodAttemptNonce grant)"
    unfolding podIntentWithObservation_def
    by (intro results_guard results_if results_ret results_attempt_post [OF grant] results_attempt results_intros) auto
qed

lemma receipt_names:
  "NewGrantConfigMap x i = Inr cm \<Longrightarrow> Name (cm_meta cm) = grantReceiptPrefix @ GrantNonce i"
  "NewPodCreateConfigMap x p = Inr cm \<Longrightarrow> Name (cm_meta cm) = podReceiptPrefix @ PodAttemptNonce p"
  by (auto simp: NewGrantConfigMap_def NewPodCreateConfigMap_def newEffectConfigMap_def split: option.splits sum.splits)

lemma deletePinnedGrantReceipt:
  assumes "lawful_reconciler log x rt r"
  shows "keeps log (effect_event r (Namespace (build_meta build))) (deletePinnedGrantReceipt x rt r build entry)"
    and "clears K log (deletePinnedGrantReceipt x rt r build entry) (on_ok {grant_receipt_key r entry})"
proof -
  note reads = keeps_reads [OF assms]
  note intent = results_intents(1) [of x rt r True build entry None]
  have expected: "results (ret (NewGrantConfigMap x i)) (\<lambda>cm. NewGrantConfigMap x i = Inr cm)" for i
    by (rule results_ret)
  show "keeps log (effect_event r (Namespace (build_meta build))) (deletePinnedGrantReceipt x rt r build entry)"
    unfolding deletePinnedGrantReceipt_def checkGrantReceiptNamespace_def grantIntent_def
    by (intro keeps_if keeps_ret keeps_guardE keeps_attemptE_results [OF _ intent] keeps_attemptE_results [OF _ expected]
        reads keeps_delete_receipt [OF assms] receipt_other_namespace(1)) auto
  show "clears K log (deletePinnedGrantReceipt x rt r build entry) (on_ok {grant_receipt_key r entry})"
    unfolding deletePinnedGrantReceipt_def checkGrantReceiptNamespace_def grantIntent_def
  proof (intro clears_if clears_fail, rule clears_after [OF reads(14) [where R = "\<lambda>_ _. False"]],
      rule clears_attemptE [OF reads(15) [where R = "\<lambda>_ _. False"] intent],
      rule clears_attemptE [OF keeps_ret [where R = "\<lambda>_ _. False"] expected])
    fix i cm
    assume i: "receipt_build r (Namespace (build_meta build)) (GrantBuild i) \<and> GrantNonce i = RGrantNonce entry"
      and cm: "NewGrantConfigMap x i = Inr cm"
    have key: "grant_receipt_key r entry = (KConfigMap, receipts_namespace r, Name (cm_meta cm))"
      using receipt_names(1) [OF cm] i by (simp add: grant_receipt_key_def)
    show "clears K log (guardE (delete_receipt (RecoveryReceipts r) (Name (cm_meta cm)) (\<lambda>cm. QualifyGrant x i (Some cm))
        (RGrantReceiptUID entry) (RGrantReceiptDigest entry))
        (guardE (checkGrantReceiptNamespaceWithObservation x rt r True (Namespace (build_meta build)) None) (Check x (RGenesis r))))
        (on_ok {grant_receipt_key r entry})"
      unfolding key
      by (rule clears_before [OF clears_delete_receipt [OF assms receipt_other_namespace(1) [OF cm conjunct1 [OF i]]],
          where R = "\<lambda>_ _. False"]) (intro keeps_guardE reads)
  qed
qed

lemma deletePinnedPodReceipt:
  assumes "lawful_reconciler log x rt r"
  shows "keeps log (effect_event r (Namespace (build_meta build))) (deletePinnedPodReceipt x rt r build entry)"
    and "clears K log (deletePinnedPodReceipt x rt r build entry) (on_ok {pod_receipt_key r entry})"
proof -
  note reads = keeps_reads [OF assms]
  note intent = results_intents(2) [of x rt r True build entry None]
  have expected: "results (ret (NewPodCreateConfigMap x i)) (\<lambda>cm. NewPodCreateConfigMap x i = Inr cm)" for i
    by (rule results_ret)
  show "keeps log (effect_event r (Namespace (build_meta build))) (deletePinnedPodReceipt x rt r build entry)"
    unfolding deletePinnedPodReceipt_def checkGrantReceiptNamespace_def podIntent_def
    by (intro keeps_if keeps_ret keeps_guardE keeps_attemptE_results [OF _ intent] keeps_attemptE_results [OF _ expected]
        reads keeps_delete_receipt [OF assms] receipt_other_namespace(2)) auto
  show "clears K log (deletePinnedPodReceipt x rt r build entry) (on_ok {pod_receipt_key r entry})"
    unfolding deletePinnedPodReceipt_def checkGrantReceiptNamespace_def podIntent_def
  proof (intro clears_if clears_fail, rule clears_after [OF reads(14) [where R = "\<lambda>_ _. False"]],
      rule clears_attemptE [OF reads(16) [where R = "\<lambda>_ _. False"] intent],
      rule clears_attemptE [OF keeps_ret [where R = "\<lambda>_ _. False"] expected])
    fix i cm
    assume i: "receipt_build r (Namespace (build_meta build)) (PodBuild i) \<and> PodAttemptNonce i = RPodAttemptNonce entry"
      and cm: "NewPodCreateConfigMap x i = Inr cm"
    have key: "pod_receipt_key r entry = (KConfigMap, receipts_namespace r, Name (cm_meta cm))"
      using receipt_names(2) [OF cm] i by (simp add: pod_receipt_key_def)
    show "clears K log (guardE (delete_receipt (RecoveryReceipts r) (Name (cm_meta cm)) (\<lambda>cm. QualifyPodCreate x i (Some cm))
        (RPodReceiptUID entry) (RPodReceiptDigest entry))
        (guardE (checkGrantReceiptNamespaceWithObservation x rt r True (Namespace (build_meta build)) None) (Check x (RGenesis r))))
        (on_ok {pod_receipt_key r entry})"
      unfolding key
      by (rule clears_before [OF clears_delete_receipt [OF assms receipt_other_namespace(2) [OF cm conjunct1 [OF i]]],
          where R = "\<lambda>_ _. False"]) (intro keeps_guardE reads)
  qed
qed

section \<open>The gates of a release\<close>

text \<open>An entry whose receipts no longer stand in the way, and the keys that were seen free for it.\<close>

definition grant_settled :: "activeReservation \<Rightarrow> bool" where
  "grant_settled e \<longleftrightarrow> RGrantObservedRV e = [] \<or> RGrantCleanupReady e"

definition pod_settled :: "activeReservation \<Rightarrow> bool" where
  "pod_settled e \<longleftrightarrow> RPodTemplateDigest e = [] \<or> RPodCleanupReady e"

abbreviation grant_gone :: "'w KovaBuildReconciler \<Rightarrow> activeReservation \<Rightarrow> okey set" where
  "grant_gone r e \<equiv> (if RGrantObservedRV e = [] then {} else {grant_receipt_key r e})"

abbreviation pod_gone :: "'w KovaBuildReconciler \<Rightarrow> activeReservation \<Rightarrow> okey set" where
  "pod_gone r e \<equiv> (if RPodTemplateDigest e = [] then {} else {pod_receipt_key r e})"

abbreviation when_true :: "okey set \<Rightarrow> goerr + bool \<Rightarrow> okey set" where
  "when_true A q \<equiv> (if q = Inr True then A else {})"

lemma clears_when_true:
  "clears K log m (on_ok A) \<Longrightarrow> clears K log (guard m (ret (Inr True))) (when_true A)"
  unfolding guard_def
  by (rule clears_bind [where P = "\<lambda>_. True"]) (auto simp: wpI intro!: clears_ret split: option.split)

lemma clears_never_true:
  assumes "keeps_given K log R m" and "results m (\<lambda>go. \<not> go)"
  shows "clears K log m (when_true A)"
  unfolding clears_def
proof (intro allI impI)
  fix w
  assume "knows K (log w)"
  from wp_conj [OF keepsD [OF assms(1) this] assms(2) [unfolded results_def, rule_format]]
  show "wp m (\<lambda>q w'. grows (\<lambda>_ _. True) (log w) (log w') \<and> (\<forall>k \<in> when_true A q. absent_between k (log w) (log w'))) w"
    by (rule wp_mono) (auto elim: grows_mono)
qed

lemma release_gates:
  assumes "lawful_reconciler log x rt r" and "RClosing entry" and "RInFlight entry = []"
    and "carries (decode_reservations x r) (active_key (Namespace (build_meta build))) reservationDataKey cm s"
    and "map_of (the_active s) (reservationKey build) = Some entry" and "(active_key (Namespace (build_meta build)), OConfigMap cm) \<in> K"
    and "\<And>l. l \<in> {APin (reservationKey build), AMark (reservationKey build), APodPin (reservationKey build), APodMark (reservationKey build)} \<Longrightarrow> L l"
  shows "keeps_given K log (reservation_event x r (Namespace (build_meta build)) L) (releaseGenesisGrantReceipt x rt r build cm s entry)"
    "keeps_given K log (reservation_event x r (Namespace (build_meta build)) L) (releaseGenesisPodReceipt x rt r build cm s entry)"
proof -
  note reads = keeps_reads [OF assms(1)]
  have mark: "keeps_given K log (reservation_event x r (Namespace (build_meta build)) L)
      (writeReservations x r cm (put_active (reservationKey build) (entry\<lparr>RGrantCleanupReady := True\<rparr>) s))"
    by (rule keeps_active_entry [where L = L and l = "AMark (reservationKey build)", OF assms(1,4,6)])
      (use assms(2-5,7) receipts_facts(8) [of "rc_guarded r" "entry\<lparr>RGrantCleanupReady := True\<rparr>"] in
        \<open>auto intro!: active_step.mark\<close>)
  have pod_mark: "keeps_given K log (reservation_event x r (Namespace (build_meta build)) L)
      (writeReservations x r cm (put_active (reservationKey build) (entry\<lparr>RPodCleanupReady := True\<rparr>) s))"
    by (rule keeps_active_entry [where L = L and l = "APodMark (reservationKey build)", OF assms(1,4,6)])
      (use assms(2-5,7) receipts_facts(7) [of "rc_guarded r" "entry\<lparr>RPodCleanupReady := True\<rparr>"] in
        \<open>auto intro!: active_step.pod_mark\<close>)
  show "keeps_given K log (reservation_event x r (Namespace (build_meta build)) L) (releaseGenesisGrantReceipt x rt r build cm s entry)"
    unfolding releaseGenesisGrantReceipt_def
    by (intro keeps_intros reads mark keeps_weaken [OF keeps_pinGrantReceipt [OF assms(1)]] keeps_effect deletePinnedGrantReceipt(1) [OF assms(1)] assms(7)) simp
  show "keeps_given K log (reservation_event x r (Namespace (build_meta build)) L) (releaseGenesisPodReceipt x rt r build cm s entry)"
    unfolding releaseGenesisPodReceipt_def
    by (intro keeps_intros reads pod_mark keeps_weaken [OF keeps_pinPodReceipt [OF assms(1)]] keeps_effect deletePinnedPodReceipt(1) [OF assms(1)] assms(7)) simp
qed

lemma gates_settle:
  assumes "lawful_reconciler log x rt r" and "RClosing entry" and "RInFlight entry = []"
    and "carries (decode_reservations x r) (active_key (Namespace (build_meta build))) reservationDataKey cm s"
    and "map_of (the_active s) (reservationKey build) = Some entry" and "(active_key (Namespace (build_meta build)), OConfigMap cm) \<in> K"
  shows "results (releaseGenesisGrantReceipt x rt r build cm s entry) (\<lambda>go. go \<longrightarrow> grant_settled entry)"
    "results (releaseGenesisPodReceipt x rt r build cm s entry) (\<lambda>go. go \<longrightarrow> pod_settled entry)"
    "clears K log (releaseGenesisGrantReceipt x rt r build cm s entry) (when_true (grant_gone r entry))"
    "clears K log (releaseGenesisPodReceipt x rt r build cm s entry) (when_true (pod_gone r entry))"
proof -
  show "results (releaseGenesisGrantReceipt x rt r build cm s entry) (\<lambda>go. go \<longrightarrow> grant_settled entry)"
    unfolding releaseGenesisGrantReceipt_def by (intro results_intros) (auto simp: grant_settled_def)
  show "results (releaseGenesisPodReceipt x rt r build cm s entry) (\<lambda>go. go \<longrightarrow> pod_settled entry)"
    unfolding releaseGenesisPodReceipt_def by (intro results_intros) (auto simp: pod_settled_def)
  note keeps = release_gates [where L = "\<lambda>_. True", OF assms]
  show "clears K log (releaseGenesisGrantReceipt x rt r build cm s entry) (when_true (grant_gone r entry))"
  proof (cases "RGrantObservedRV entry = [] \<or> RGrantReceiptUID entry \<noteq> [] \<and> RGrantCleanupReady entry")
    case True
    then show ?thesis
      unfolding releaseGenesisGrantReceipt_def
      by (auto intro!: clears_ret clears_when_true deletePinnedGrantReceipt(2) [OF assms(1)])
  next
    case False
    then have "results (releaseGenesisGrantReceipt x rt r build cm s entry) (\<lambda>go. \<not> go)"
      unfolding releaseGenesisGrantReceipt_def by (intro results_intros) auto
    then show ?thesis using keeps(1) by (intro clears_never_true) auto
  qed
  show "clears K log (releaseGenesisPodReceipt x rt r build cm s entry) (when_true (pod_gone r entry))"
  proof (cases "RPodTemplateDigest entry = [] \<or> RPodReceiptUID entry \<noteq> [] \<and> RPodCleanupReady entry")
    case True
    then show ?thesis
      unfolding releaseGenesisPodReceipt_def
      by (auto intro!: clears_ret clears_when_true deletePinnedPodReceipt(2) [OF assms(1)])
  next
    case False
    then have "results (releaseGenesisPodReceipt x rt r build cm s entry) (\<lambda>go. \<not> go)"
      unfolding releaseGenesisPodReceipt_def by (intro results_intros) auto
    then show ?thesis using keeps(2) by (intro clears_never_true) auto
  qed
qed

section \<open>The order of a release\<close>

text \<open>
  The removal of the entry of build \<open>b\<close> by a release that began at the log \<open>l0\<close>: the entry was closed
  and nothing in flight, its receipts were settled, and every key in its way was free since \<open>l0\<close>.
\<close>

definition in_the_way :: "'w KovaBuildReconciler \<Rightarrow> KovaBuild \<Rightarrow> activeReservation \<Rightarrow> okey set" where
  "in_the_way r b e = insert (KPod, Namespace (build_meta b), buildPodName (Name (build_meta b)))
     (if rc_guarded r then pod_gone r e \<union> grant_gone r e else {})"

definition freed_event ::
  "'x ext_scheme \<Rightarrow> 'w KovaBuildReconciler \<Rightarrow> KovaBuild \<Rightarrow> event list \<Rightarrow> event list \<Rightarrow> event \<Rightarrow> bool" where
  "freed_event x r b l0 h ev \<longleftrightarrow> (\<exists>c e. map_of (the_active c) (reservationKey b) = Some e \<and> RClosing e \<and> RInFlight e = [] \<and>
     (rc_guarded r \<longrightarrow> grant_settled e \<and> pod_settled e) \<and> (\<forall>k \<in> in_the_way r b e. absent_between k l0 h) \<and>
     ledger_event (decode_reservations x r) (active_key (Namespace (build_meta b))) reservationDataKey
       (\<lambda>c1 c2. c1 = c \<and> c2 = del_active (reservationKey b) c) h ev)"

definition active_release_event ::
  "'x ext_scheme \<Rightarrow> 'w KovaBuildReconciler \<Rightarrow> KovaBuild \<Rightarrow> event list \<Rightarrow> event list \<Rightarrow> event \<Rightarrow> bool" where
  "active_release_event x r b l0 h ev \<longleftrightarrow> freed_event x r b l0 h ev \<or>
     reservation_event x r (Namespace (build_meta b))
       (\<lambda>l. l \<in> {APin (reservationKey b), AMark (reservationKey b), APodPin (reservationKey b), APodMark (reservationKey b)}) h ev"

text \<open>A direct reader of Pods: not found means that there is none now.\<close>

definition direct_pods :: "('w \<Rightarrow> event list) \<Rightarrow> 'w KovaBuildReconciler \<Rightarrow> bool" where
  "direct_pods log r \<longleftrightarrow> (\<forall>rd ns n w. rc_reader r = Some rd \<longrightarrow>
     wp (Get_pod rd ns n) (\<lambda>q w'. \<forall>e. q = Inl e \<and> IsNotFound e \<longrightarrow> current (log w') (KPod, ns, n) = None) w)"

lemma clears_getOwnedPod:
  assumes "lawful_reconciler log x rt r" and "direct_pods log r"
  shows "clears K log (getOwnedPod r b)
    (\<lambda>q. if q = Inr None then {(KPod, Namespace (build_meta b), buildPodName (Name (build_meta b)))} else {})"
proof -
  let ?k = "(KPod, Namespace (build_meta b), buildPodName (Name (build_meta b)))"
  let ?get = "via (rc_reader r) (\<lambda>rd. Get_pod rd (Namespace (build_meta b)) (buildPodName (Name (build_meta b))))"
  have absent: "wp ?get (\<lambda>q w'. \<forall>e. q = Inl e \<and> IsNotFound e \<longrightarrow> current (log w') ?k = None) w" for w
    using assms(2) by (cases "rc_reader r") (auto simp: direct_pods_def via_def wp_ret)
  have "clears K log ?get (\<lambda>q. if \<exists>e. q = Inl e \<and> IsNotFound e then {?k} else {})"
    unfolding clears_def
    by (intro allI impI, rule wp_mono [OF wp_conj [OF calmD [OF calm_reads(3) [OF assms(1)]] absent]])
      (auto intro: still_grows absent_between_now)
  then show ?thesis
    unfolding getOwnedPod_def
    by (rule clears_bind [where P = "\<lambda>_. True"]) (auto simp: wpI intro!: clears_ret split: sum.split)
qed

text \<open>What a run that began at \<open>l\<close> knows: its own events, versions that were stored, keys that were free.\<close>

definition cleared ::
  "('w \<Rightarrow> event list) \<Rightarrow> (event list \<Rightarrow> event \<Rightarrow> bool) \<Rightarrow> (okey \<times> obj) set \<Rightarrow> okey set \<Rightarrow> event list \<Rightarrow> 'w \<Rightarrow> bool" where
  "cleared log R K A l w \<longleftrightarrow> grows R l (log w) \<and> knows K (log w) \<and> (\<forall>k \<in> A. absent_between k l (log w))"

abbreviation ends_in ::
  "('w \<Rightarrow> event list) \<Rightarrow> (event list \<Rightarrow> event \<Rightarrow> bool) \<Rightarrow> event list \<Rightarrow> ('a \<Rightarrow> bool) \<Rightarrow> 'w \<Rightarrow> ('w, 'a) op \<Rightarrow> bool" where
  "ends_in log R l I w m \<equiv> wp m (\<lambda>q w'. grows R l (log w') \<and> I q) w"

lemma ends_in_bind:
  assumes "cleared log R K A l w" and "keeps_given K log R m" and "clears K log m S" and "\<And>w. wp m (\<lambda>q _. P q) w"
    and "\<And>q w'. P q \<Longrightarrow> cleared log R K (A \<union> S q) l w' \<Longrightarrow> ends_in log R l I w' (f q)"
  shows "ends_in log R l I w (State_Monad.bind m f)"
proof -
  have w: "grows R l (log w)" "knows K (log w)" "\<forall>k \<in> A. absent_between k l (log w)"
    using assms(1) by (auto simp: cleared_def)
  have "wp m (\<lambda>q w'. cleared log R K (A \<union> S q) l w' \<and> P q) w"
  proof (rule wp_mono [OF wp_conj [OF wp_conj [OF keepsD [OF assms(2) w(2)]
        assms(3) [unfolded clears_def, rule_format, OF w(2)]] assms(4)]], elim conjE)
    fix q w'
    assume g: "grows R (log w) (log w')" and s: "\<forall>k \<in> S q. absent_between k (log w) (log w')" and "P q"
    have "absent_between k l (log w')" if "k \<in> A \<union> S q" for k
      using that w(3) s by (auto intro: absent_between_mono [OF _ grows.refl g] absent_between_mono [OF _ w(1) grows.refl])
    then show "cleared log R K (A \<union> S q) l w' \<and> P q"
      using \<open>P q\<close> grows_trans [OF g w(1)] knows_grows [OF w(2) g] by (simp add: cleared_def)
  qed
  then show ?thesis unfolding wp_bind by (rule wp_mono) (use assms(5) in blast)
qed

lemma ends_in_quiet:
  assumes "cleared log R K A l w" and "quiet log m" and "\<And>q w'. cleared log R K A l w' \<Longrightarrow> ends_in log R l I w' (f q)"
  shows "ends_in log R l I w (State_Monad.bind m f)"
  by (rule ends_in_bind [OF assms(1) quiet_keeps [OF assms(2)] clears_keeps [OF quiet_keeps [OF assms(2)]], where P = "\<lambda>_. True"])
    (auto simp: wpI intro: assms(3))

lemma ends_in_load:
  assumes "lawful_reconciler log x rt r" and "cleared log R K A l w" and "\<And>e. I (Leave (fail e))"
    and "\<And>cm s w'. carries (decode_reservations x r) (active_key ns) reservationDataKey cm s \<Longrightarrow>
      cleared log R (insert (active_key ns, OConfigMap cm) K) A l w' \<Longrightarrow> ends_in log R l I w' (f (cm, s))"
  shows "ends_in log R l I w (ttry fail (readReservations x rt r ns) f)"
  unfolding wp_ttry readReservations_def
proof (rule wp_mono [OF yieldsD [OF yields_readReservations [OF assms(1)]]], elim conjE)
  fix w' and q :: "goerr + configmap \<times> reservationState"
  assume st: "still (log w) (log w')" and q: "\<forall>v. q = Inr v \<longrightarrow> (case v of (cm, s) \<Rightarrow>
      carries (decode_reservations x r) (active_key ns) reservationDataKey cm s) \<and>
      knows (case v of (cm, s) \<Rightarrow> {(active_key ns, OConfigMap cm)}) (log w')"
  have "cleared log R K A l w'"
    using assms(2) knows_grows [OF _ st]
    by (auto simp: cleared_def intro: grows_trans [OF still_grows [OF st]] absent_between_mono [OF _ grows.refl st])
  then show "case q of Inl e \<Rightarrow> grows R l (log w') \<and> I (Leave (fail e)) | Inr v \<Rightarrow> ends_in log R l I w' (f v)"
    using q assms(3,4) by (auto simp: cleared_def split: sum.split)
qed

lemma keeps_del_exact:
  assumes "lawful_reconciler log x rt r" and "carries (decode_reservations x r) (active_key ns) reservationDataKey cm s"
    and "(active_key ns, OConfigMap cm) \<in> K"
  shows "keeps_given K log (ledger_event (decode_reservations x r) (active_key ns) reservationDataKey
    (\<lambda>c1 c2. c1 = s \<and> c2 = del_active k s)) (writeReservations x r cm (del_active k s))"
  by (rule active.keeps_save_valid [where S = "\<lambda>c1 c2. c1 = s \<and> c2 = del_active k s", OF assms])
    (use carries_good_active [OF assms(2)] in auto)

definition same_build :: "KovaBuild \<Rightarrow> KovaBuild \<Rightarrow> bool" where
  "same_build a b \<longleftrightarrow> Namespace (build_meta a) = Namespace (build_meta b) \<and> Name (build_meta a) = Name (build_meta b) \<and>
     UID (build_meta a) = UID (build_meta b)"

lemma same_build_trans: "same_build a b \<Longrightarrow> same_build b c \<Longrightarrow> same_build a c"
  by (simp add: same_build_def)

lemma same_buildD:
  assumes "same_build a b"
  shows "Namespace (build_meta a) = Namespace (build_meta b)" "Name (build_meta a) = Name (build_meta b)"
    "reservationKey a = reservationKey b" "active_release_event x r a = active_release_event x r b" "in_the_way r a = in_the_way r b"
proof -
  show eqs: "Namespace (build_meta a) = Namespace (build_meta b)" "Name (build_meta a) = Name (build_meta b)"
    "reservationKey a = reservationKey b"
    using assms by (simp_all add: same_build_def reservationKey_def)
  then show "in_the_way r a = in_the_way r b" by (simp add: in_the_way_def fun_eq_iff)
  with eqs show "active_release_event x r a = active_release_event x r b"
    by (simp add: active_release_event_def freed_event_def fun_eq_iff)
qed

lemma ends_in_wait:
  assumes "lawful_reconciler log x rt r" and "grows R l (log w)" and "I (Again b)" and "\<And>e. I (Leave (Some e))"
  shows "ends_in log R l I w (tguard Some (waitReservationCAS rt i) (ret (Again b)))"
  unfolding wp_tguard
  by (rule wp_mono [OF runs_to_keeps [OF keeps_reads(3) [OF assms(1), where K = "{}"] _ assms(2)]])
    (auto simp: wp_ret assms(3,4) split: option.split)

lemma remove_active_freed:
  assumes "lawful_reconciler log x rt r" and "cleared log (active_release_event x r b l) K A l w"
    and "carries (decode_reservations x r) (active_key (Namespace (build_meta b))) reservationDataKey cm s"
    and "(active_key (Namespace (build_meta b)), OConfigMap cm) \<in> K"
    and "map_of (the_active s) (reservationKey b) = Some e" and "RClosing e" and "RInFlight e = []"
    and "rc_guarded r \<longrightarrow> grant_settled e \<and> pod_settled e" and "in_the_way r b e \<subseteq> A" and "\<And>q. I (Leave q)" and "I (Again b)"
  shows "ends_in log (active_release_event x r b l) l I w (remove_active x rt r retry b cm s)"
proof -
  let ?R = "active_release_event x r b l"
  have w: "grows ?R l (log w)" "knows K (log w)" and A: "\<forall>k \<in> A. absent_between k l (log w)" using assms(2) by (auto simp: cleared_def)
  have stored: "wp (writeReservations x r cm (del_active (reservationKey b) s)) (\<lambda>_ w'. grows ?R l (log w')) w"
  proof (rule wp_mono [OF keepsD [OF keeps_del_exact [OF assms(1,3,4)] w(2)]])
    fix w'
    assume g: "grows (ledger_event (decode_reservations x r) (active_key (Namespace (build_meta b))) reservationDataKey
        (\<lambda>c1 c2. c1 = s \<and> c2 = del_active (reservationKey b) s)) (log w) (log w')"
    have "grows ?R (log w) (log w')"
    proof (rule grows_mono_prefix [OF g])
      fix h ev
      assume "\<exists>y. h = log w @ y" and ev: "ledger_event (decode_reservations x r) (active_key (Namespace (build_meta b)))
        reservationDataKey (\<lambda>c1 c2. c1 = s \<and> c2 = del_active (reservationKey b) s) h ev"
      then have "\<forall>k \<in> in_the_way r b e. absent_between k l h" using A assms(9) absent_between_append by blast
      then have "freed_event x r b l h ev" unfolding freed_event_def using assms(5-8) ev by blast
      then show "?R h ev" by (simp add: active_release_event_def)
    qed
    then show "grows ?R l (log w')" by (rule grows_trans [OF _ w(1)])
  qed
  show ?thesis
    unfolding remove_active_def wp_bind
    by (rule wp_mono [OF stored])
      (auto simp: wp_ret assms(10) split: option.split intro!: ends_in_wait [OF assms(1)] assms(11))
qed

lemma results_release_subject:
  assumes "lawful_reconciler log x rt r"
  shows "results (release_subject r b) (\<lambda>now. same_build now b)"
proof -
  have get: "results (via (rc_reader r) (\<lambda>rd. Get_build rd ns n)) (\<lambda>now. Namespace (build_meta now) = ns \<and> Name (build_meta now) = n)" for ns n
  proof (cases "rc_reader r")
    case (Some rd)
    then have "lawful_reader log rd" using lawful_rc_reader [OF assms] by blast
    then have "wp (Get_build rd ns n) (\<lambda>r w'. \<forall>b. r = Inr b \<longrightarrow> Namespace (build_meta b) = ns \<and> Name (build_meta b) = n \<and>
        stored (log w') (KBuild, ns, n) (OBuild b)) w" for w
      unfolding lawful_reader_def by blast
    note get = this
    show ?thesis unfolding Some via_def option.case results_def by (intro allI, rule wp_mono [OF get]) blast
  qed (simp add: via_def results_def wp_ret)
  show ?thesis
    unfolding release_subject_def
    by (intro results_if results_attempt_post [OF get] results_ret) (auto simp: same_build_def)
qed

lemma ends_in_gate:
  assumes "lawful_reconciler log x rt r" and "cleared log R K A l w" and "keeps_given K log R m"
    and "clears K log m (when_true B)" and "results m (\<lambda>go. go \<longrightarrow> P)"
    and "\<And>w'. P \<Longrightarrow> cleared log R K (A \<union> B) l w' \<Longrightarrow> ends_in log R l I w' k" and "I (Again b)" and "\<And>e. I (Leave (Some e))"
  shows "ends_in log R l I w (receipt_gate rt i b m k)"
  unfolding receipt_gate_def
proof (rule ends_in_bind [OF assms(2-4), where P = "\<lambda>q. \<forall>v. q = Inr v \<longrightarrow> v \<longrightarrow> P"])
  show "wp m (\<lambda>q _. \<forall>v. q = Inr v \<longrightarrow> v \<longrightarrow> P) w" for w using assms(5) by (simp add: results_def)
  fix q w'
  assume P: "\<forall>v. q = Inr v \<longrightarrow> v \<longrightarrow> P" and c: "cleared log R K (A \<union> when_true B q) l w'"
  then have g: "grows R l (log w')" by (simp add: cleared_def)
  show "ends_in log R l I w' (case q of
      Inl err \<Rightarrow> if IsConflict err then tguard Some (waitReservationCAS rt i) (ret (Again b)) else ret (Leave (Some err))
    | Inr go \<Rightarrow> if go then k else ret (Again b))"
  proof (cases q)
    case (Inl err)
    have "ends_in log R l I w' (tguard Some (waitReservationCAS rt i) (ret (Again b)))"
      by (rule ends_in_wait [OF assms(1) g assms(7,8)])
    with Inl g show ?thesis by (simp add: wp_ret assms(8))
  next
    case (Inr go)
    then have "go \<Longrightarrow> ends_in log R l I w' k" using P c assms(6) [of w'] by auto
    with Inr g show ?thesis by (simp add: wp_ret assms(7))
  qed
qed

lemma ends_in_ttry:
  assumes "cleared log R K A l w" and "keeps_given K log R m" and "clears K log m S" and "results m P" and "\<And>e. I (Leave (fail e))"
    and "\<And>v w'. P v \<Longrightarrow> cleared log R K (A \<union> S (Inr v)) l w' \<Longrightarrow> ends_in log R l I w' (f v)"
  shows "ends_in log R l I w (ttry fail m f)"
  unfolding ttry_def
proof (rule ends_in_bind [OF assms(1-3), where P = "\<lambda>q. \<forall>v. q = Inr v \<longrightarrow> P v"])
  show "wp m (\<lambda>q _. \<forall>v. q = Inr v \<longrightarrow> P v) w" for w using assms(4) by (simp add: results_def)
  show "ends_in log R l I w' (case q of Inl e \<Rightarrow> ret (Leave (fail e)) | Inr v \<Rightarrow> f v)"
    if "\<forall>v. q = Inr v \<longrightarrow> P v" "cleared log R K (A \<union> S q) l w'" for q w'
    using that assms(5,6) by (cases q) (auto simp: wp_ret cleared_def)
qed

abbreviation stays :: "KovaBuild \<Rightarrow> (KovaBuild, 'a) turn \<Rightarrow> bool" where
  "stays b t \<equiv> \<forall>b'. t = Again b' \<longrightarrow> same_build b' b"

abbreviation runner_key :: "KovaBuild \<Rightarrow> okey" where
  "runner_key b \<equiv> (KPod, Namespace (build_meta b), buildPodName (Name (build_meta b)))"

lemma release_free_order:
  assumes "lawful_reconciler log x rt r"
    and c: "cleared log (active_release_event x r b l) {(active_key (Namespace (build_meta b)), OConfigMap cm)} {runner_key b} l w2"
    and now: "same_build now b"
    and cs: "carries (decode_reservations x r) (active_key (Namespace (build_meta b))) reservationDataKey cm s"
    and e: "map_of (the_active s) (reservationKey b) = Some e" "RClosing e" "RInFlight e = []"
  shows "ends_in log (active_release_event x r b l) l (stays b) w2 (if rc_guarded r then
      receipt_gate rt i now (releaseGenesisPodReceipt x rt r now cm s e) (
      receipt_gate rt i now (releaseGenesisGrantReceipt x rt r now cm s e) (remove_active x rt r i now cm s))
    else remove_active x rt r i now cm s)"
    (is "ends_in log ?R l ?I w2 _")
proof -
  let ?pod = "runner_key b"
  note same = same_buildD [OF now]
  let ?K = "{(active_key (Namespace (build_meta now)), OConfigMap cm)}"
  have c': "cleared log ?R ?K {?pod} l w2" using c by (simp add: same(1))
  note facts = e(2,3) cs [folded same(1)] e(1) [folded same(3)] singletonI
  have sub: "keeps_given K log (reservation_event x r (Namespace (build_meta now)) (\<lambda>l. l \<in> {APin (reservationKey now),
      AMark (reservationKey now), APodPin (reservationKey now), APodMark (reservationKey now)})) m \<Longrightarrow> keeps_given K log ?R m" for K m
    unfolding same by (erule keeps_mono) (simp add: active_release_event_def)
  show ?thesis
  proof (cases "rc_guarded r")
    case True
    have way: "in_the_way r now e \<subseteq> {?pod} \<union> pod_gone r e \<union> grant_gone r e"
      unfolding in_the_way_def same(1,2) using True by auto
    have remove: "ends_in log ?R l ?I w3 (remove_active x rt r i now cm s)"
      if "pod_settled e" "grant_settled e" "cleared log ?R ?K ({?pod} \<union> pod_gone r e \<union> grant_gone r e) l w3" for w3
      by (rule remove_active_freed [OF assms(1), where b = now, unfolded same(4), OF that(3) facts(3,5,4,1,2) _ way])
        (use that now in auto)
    have "ends_in log ?R l ?I w2 (receipt_gate rt i now (releaseGenesisPodReceipt x rt r now cm s e) (
        receipt_gate rt i now (releaseGenesisGrantReceipt x rt r now cm s e) (remove_active x rt r i now cm s)))"
    proof (rule ends_in_gate [OF assms(1) c' sub [OF release_gates(2) [OF assms(1) facts]]
            gates_settle(4,2) [OF assms(1) facts]])
      fix w3
      assume "pod_settled e" and c3: "cleared log ?R ?K ({?pod} \<union> pod_gone r e) l w3"
      show "ends_in log ?R l ?I w3 (receipt_gate rt i now (releaseGenesisGrantReceipt x rt r now cm s e) (remove_active x rt r i now cm s))"
        by (rule ends_in_gate [OF assms(1) c3 sub [OF release_gates(1) [OF assms(1) facts]]
            gates_settle(3,1) [OF assms(1) facts]], assumption, rule remove [OF \<open>pod_settled e\<close>]) (use now in auto)
    qed (use now in auto)
    then show ?thesis using True by simp
  next
    case False
    then show ?thesis
      using remove_active_freed [OF assms(1), where b = now, unfolded same(4), OF c' facts(3,5,4,1,2)] now
      by (auto simp: in_the_way_def same)
  qed
qed

lemma release_round_order:
  assumes "lawful_reconciler log x rt r" and "direct_pods log r" and "grows (active_release_event x r b l) l (log w)"
  shows "ends_in log (active_release_event x r b l) l (stays b) w (release_round x rt r i b)"
    (is "ends_in log ?R l ?I w _")
proof -
  have q: "quiet log (release_subject r b)" "quiet log (getOwnedPod r now)" "quiet log (Ctx_Err rt)" for now
    unfolding release_subject_def
    by (intro keeps_intros calm_quiet [OF calm_reads(2) [OF assms(1)]] quiet_getOwnedPod [OF assms(1)] quiet_base [OF assms(1)])+
  have subject: "ends_in log ?R l ?I w2 (ttry Some (release_subject r b) (\<lambda>now.
      if RInFlight e \<noteq> [] then ret (Leave (Some (ErrAdmissionRecovery (length (RInFlight e)))))
      else ttry Some (getOwnedPod r now) (\<lambda>pod.
        if pod \<noteq> None then ret (Leave (Some (ErrMsg ''runner Pod still exists while releasing active capacity'')))
        else if rc_guarded r then
          receipt_gate rt i now (releaseGenesisPodReceipt x rt r now cm s e) (
          receipt_gate rt i now (releaseGenesisGrantReceipt x rt r now cm s e) (remove_active x rt r i now cm s))
        else remove_active x rt r i now cm s)))"
    if c: "cleared log ?R {(active_key (Namespace (build_meta b)), OConfigMap cm)} {} l w2"
      and cs: "carries (decode_reservations x r) (active_key (Namespace (build_meta b))) reservationDataKey cm s"
      and e: "map_of (the_active s) (reservationKey b) = Some e" "RClosing e" for w2 cm s e
  proof (rule ends_in_ttry [OF c quiet_keeps [OF q(1)] clears_keeps [OF quiet_keeps [OF q(1)]] results_release_subject [OF assms(1)]])
    fix now w3
    assume now: "same_build now b"
      and c3: "cleared log ?R {(active_key (Namespace (build_meta b)), OConfigMap cm)} ({} \<union> {}) l w3"
    note gone = clears_getOwnedPod [OF assms(1,2), of _ now, unfolded same_buildD(1,2) [OF now]]
    show "ends_in log ?R l ?I w3 (if RInFlight e \<noteq> [] then ret (Leave (Some (ErrAdmissionRecovery (length (RInFlight e)))))
      else ttry Some (getOwnedPod r now) (\<lambda>pod.
        if pod \<noteq> None then ret (Leave (Some (ErrMsg ''runner Pod still exists while releasing active capacity'')))
        else if rc_guarded r then
          receipt_gate rt i now (releaseGenesisPodReceipt x rt r now cm s e) (
          receipt_gate rt i now (releaseGenesisGrantReceipt x rt r now cm s e) (remove_active x rt r i now cm s))
        else remove_active x rt r i now cm s))"
    proof (cases "RInFlight e = []")
      case True
      note free = release_free_order [OF assms(1) _ now cs e True]
      show ?thesis
        unfolding True
        by (simp only: simp_thms if_False, rule ends_in_ttry [OF c3 quiet_keeps [OF q(2)] gone, where P = "\<lambda>_. True"])
          (use free in \<open>auto simp: results_def wpI wp_ret cleared_def [of _ _ _ "{}"] split: if_splits\<close>)
    qed (use c3 in \<open>simp add: wp_ret cleared_def\<close>)
  qed simp
  have start: "cleared log ?R {} {} l w" using assms(3) by (simp add: cleared_def)
  show ?thesis
    unfolding release_round_def tguard_def
  proof (rule ends_in_quiet [OF start q(3)])
    fix p w1
    assume c1: "cleared log ?R {} {} l w1"
    then have g1: "grows ?R l (log w1)" by (simp add: cleared_def)
    let ?read = "\<lambda>k. ttry Some (readReservations x rt r (Namespace (build_meta b))) k"
    have load: "ends_in log ?R l ?I w1 (?read k)"
      if "\<And>cm s w'. carries (decode_reservations x r) (active_key (Namespace (build_meta b))) reservationDataKey cm s \<Longrightarrow>
        cleared log ?R {(active_key (Namespace (build_meta b)), OConfigMap cm)} {} l w' \<Longrightarrow> ends_in log ?R l ?I w' (k (cm, s))" for k
      by (rule ends_in_load [OF assms(1) c1]) (use that in auto)
    show "ends_in log ?R l ?I w1 (case p of Some e \<Rightarrow> ret (Leave (Some e)) | None \<Rightarrow> ?read (\<lambda>(cm, s). case map_of (the_active s) (reservationKey b) of
        None \<Rightarrow> ret (Leave None)
      | Some e \<Rightarrow> if RBuildName e \<noteq> Name (build_meta b)
          then ret (Leave (Some (ErrMsg ''admission reservation has mismatched build name'')))
          else if \<not> RClosing e
          then ret (Leave (Some (ErrMsg ''admission reservation cannot be released before its cleanup fence'')))
          else ttry Some (release_subject r b) (\<lambda>now.
            if RInFlight e \<noteq> [] then ret (Leave (Some (ErrAdmissionRecovery (length (RInFlight e)))))
            else ttry Some (getOwnedPod r now) (\<lambda>pod.
              if pod \<noteq> None then ret (Leave (Some (ErrMsg ''runner Pod still exists while releasing active capacity'')))
              else if rc_guarded r then
                receipt_gate rt i now (releaseGenesisPodReceipt x rt r now cm s e) (
                receipt_gate rt i now (releaseGenesisGrantReceipt x rt r now cm s e) (remove_active x rt r i now cm s))
              else remove_active x rt r i now cm s))))"
    proof (cases p)
      case None
      have closing: "ends_in log ?R l ?I w' (ret (Leave q))" if "cleared log ?R K {} l w'" for w' K q
        using that by (simp add: wp_ret cleared_def)
      show ?thesis
        unfolding None option.case
        by (rule load) (auto split: option.split intro: subject closing)
    qed (use g1 in \<open>simp add: wp_ret\<close>)
  qed
qed

lemma releaseReservation_order:
  assumes "lawful_reconciler log x rt r" and "direct_pods log r"
  shows "runs_to log (active_release_event x r b (log w)) (log w) w (releaseReservation x rt r b)"
  unfolding releaseReservation_def
proof (rule wp_for_loop [where I = "\<lambda>b' w'. same_build b' b \<and> grows (active_release_event x r b (log w)) (log w) (log w')"])
  show "same_build b b \<and> grows (active_release_event x r b (log w)) (log w) (log w)" by (simp add: same_build_def grows.refl)
  fix i b' w'
  assume I: "same_build b' b \<and> grows (active_release_event x r b (log w)) (log w) (log w')"
  note same = same_buildD(4) [OF conjunct1 [OF I]]
  have "ends_in log (active_release_event x r b (log w)) (log w) (stays b') w' (release_round x rt r i b')"
    by (rule release_round_order [OF assms, where b = b', unfolded same]) (use I in simp)
  then show "wp (release_round x rt r i b') (\<lambda>t w'. case t of Again b' \<Rightarrow> same_build b' b \<and>
      grows (active_release_event x r b (log w)) (log w) (log w') | Leave _ \<Rightarrow> grows (active_release_event x r b (log w)) (log w) (log w')) w'"
    by (rule wp_mono) (use I same_build_trans [of _ b' b] in \<open>simp split: turn.split\<close>)
qed (auto simp: wp_ret)

text \<open>The same as steps of the protocol.\<close>

lemma freed_step:
  assumes "freed_event x r b l0 h ev"
  shows "active_event x r (Namespace (build_meta b)) (\<lambda>l. l = AFree (reservationKey b)) h ev"
proof -
  obtain c e where e: "map_of (the_active c) (reservationKey b) = Some e" "RClosing e" "RInFlight e = []"
      "rc_guarded r \<longrightarrow> grant_settled e \<and> pod_settled e"
    and ev: "ledger_event (decode_reservations x r) (active_key (Namespace (build_meta b))) reservationDataKey
       (\<lambda>c1 c2. c1 = c \<and> c2 = del_active (reservationKey b) c) h ev"
    using assms unfolding freed_event_def by blast
  have "active_step (rc_guarded r) (AFree (reservationKey b)) c (del_active (reservationKey b) c)"
    by (rule active_step.free [OF e(1-3)]) (use e(4) in \<open>auto simp: grant_settled_def pod_settled_def\<close>)
  then show ?thesis unfolding active_event_def by (intro ledger_event_mono [OF ev]) auto
qed

abbreviation release_labels :: "KovaBuild \<Rightarrow> active_label \<Rightarrow> bool" where
  "release_labels b \<equiv> \<lambda>l. l \<in> {APin (reservationKey b), AMark (reservationKey b), APodPin (reservationKey b),
     APodMark (reservationKey b), AFree (reservationKey b)}"

lemma active_release_step:
  "active_release_event x r b l0 h ev \<Longrightarrow> reservation_event x r (Namespace (build_meta b)) (release_labels b) h ev"
  unfolding active_release_event_def reservation_event_def
  by (auto simp: active_event_def dest!: freed_step elim!: ledger_event_mono)

lemma keeps_releaseReservation:
  assumes "lawful_reconciler log x rt r" and "direct_pods log r"
  shows "keeps log (reservation_event x r (Namespace (build_meta b)) (release_labels b)) (releaseReservation x rt r b)"
  unfolding keeps_given_def
  by (intro allI impI, rule wp_mono [OF releaseReservation_order [OF assms]])
    (erule grows_mono, erule active_release_step)

end
