(* ===== verification/Reservation_Invariants.thy ===== *)
theory Reservation_Invariants
  imports Reservation_Release
begin

text \<open>
  Invariants of the abstract protocol of the active ledger: the capacity limits, the identity of an
  entry over its life, and the order in which a guarded grant is set up.
\<close>

inductive_cases active_stepE: "active_step g l c c'"

inductive active_run :: "bool \<Rightarrow> active_label list \<Rightarrow> reservationState \<Rightarrow> reservationState \<Rightarrow> bool" for g where
  start: "active_run g [] c c"
| step: "active_run g ls c d \<Longrightarrow> active_step g l d e \<Longrightarrow> active_run g (ls @ [l]) c e"

section \<open>Limits\<close>

text \<open>The limits of \<open>validateReservationState\<close>, with the map in order and every entry holding a slot.\<close>

definition capacity_ok :: "reservationState \<Rightarrow> bool" where
  "capacity_ok c \<longleftrightarrow> go_map (the_active c) \<and> (\<forall>(k, e) \<in> set (the_active c). 1 \<le> RSlots e) \<and>
     int (length (the_active c)) \<le> MaxJobs c \<and> used_slots (the_active c) \<le> WorkerSlots c \<and>
     (\<forall>q. int (jobs_of q (the_active c)) \<le> MaxPerRequester c)"

definition same_charge :: "activeReservation \<Rightarrow> activeReservation \<Rightarrow> bool" where
  "same_charge a b \<longleftrightarrow> RBuildName a = RBuildName b \<and> RRequester a = RRequester b \<and> RSlots a = RSlots b \<and>
     RGrantNonce a = RGrantNonce b \<and> RGrantFence a = RGrantFence b"

lemma charge_mput:
  assumes "go_map m" and "map_of m k = Some old" and "same_charge old e"
  shows "used_slots (mput k e m) = used_slots m \<and> jobs_of q (mput k e m) = jobs_of q m \<and> length (mput k e m) = length m"
  using assms
proof (induction k e m rule: mput.induct)
  case (2 k v k' v' m)
  from "2.prems"(1) have m: "go_map m" "\<forall>e \<in> set m. k' < fst e" by (auto simp: go_map_Cons)
  have "k < k' \<Longrightarrow> map_of ((k', v') # m) k = None" using m(2) by (auto simp: map_of_eq_None_iff)
  then show ?case using "2.IH" m(1) "2.prems" by (auto simp: same_charge_def split: if_splits)
qed simp

lemma used_slots_mdel: "(\<forall>(k, e) \<in> set m. 1 \<le> RSlots e) \<Longrightarrow> used_slots (mdel k m) \<le> used_slots m"
  by (induction k m rule: mdel.induct) auto

lemma jobs_of_mdel: "jobs_of q (mdel k m) \<le> jobs_of q m"
  by (induction k m rule: mdel.induct) auto

lemma capacity_ok_put:
  assumes "capacity_ok c" and "map_of (the_active c) k = Some a" and "same_charge a b" and "the_active d = the_active c"
    and "MaxJobs d = MaxJobs c" and "MaxPerRequester d = MaxPerRequester c" and "WorkerSlots d = WorkerSlots c"
  shows "capacity_ok (put_active k b d)"
proof -
  have m: "go_map (the_active c)" using assms(1) by (simp add: capacity_ok_def)
  have "1 \<le> RSlots a" using assms(1,2) by (auto simp: capacity_ok_def dest!: map_of_SomeD)
  then have "1 \<le> RSlots b" using assms(3) by (simp add: same_charge_def)
  then show ?thesis
    using assms charge_mput [OF m assms(2,3)] m by (auto simp: capacity_ok_def set_mput gomap_simps)
qed

lemma capacity_ok_del: "capacity_ok c \<Longrightarrow> capacity_ok (del_active k c)"
proof -
  assume ok: "capacity_ok c"
  then have "int (jobs_of q (mdel k (the_active c))) \<le> MaxPerRequester c" for q
    using jobs_of_mdel [of q k "the_active c"] by (meson capacity_ok_def of_nat_le_iff order_trans)
  moreover have "length (mdel k (the_active c)) \<le> length (the_active c)"
    using filter_mdel_length_le [of "\<lambda>_. True" k "the_active c"] by simp
  ultimately show ?thesis
    using ok used_slots_mdel [of "the_active c" k] set_mdel_subset [of k "the_active c"]
    by (auto simp: capacity_ok_def gomap_simps)
qed

lemma step_limits_fixed:
  "active_step g l c c' \<Longrightarrow> MaxJobs c' = MaxJobs c \<and> MaxPerRequester c' = MaxPerRequester c \<and> WorkerSlots c' = WorkerSlots c"
  by (induction rule: active_step.induct) auto

lemma step_capacity: "active_step g l c c' \<Longrightarrow> capacity_ok c \<Longrightarrow> capacity_ok c'"
proof (induction rule: active_step.induct)
  case (grant c k e c')
  then have m: "go_map (the_active c)" by (simp add: capacity_ok_def)
  show ?case
    using grant m used_slots_mput [OF m grant(1)] jobs_of_mput [OF m grant(1)] length_mput [OF m, of k e]
    by (auto simp: capacity_ok_def set_mput gomap_simps)
next
  case (close_free c k)
  then show ?case by (simp add: capacity_ok_def)
qed (auto intro!: capacity_ok_del intro: capacity_ok_put simp: same_charge_def)

lemma run_capacity:
  "active_run g ls c c' \<Longrightarrow> capacity_ok c \<Longrightarrow>
     capacity_ok c' \<and> MaxJobs c' = MaxJobs c \<and> MaxPerRequester c' = MaxPerRequester c \<and> WorkerSlots c' = WorkerSlots c"
  by (induction rule: active_run.induct) (auto dest: step_capacity step_limits_fixed)

section \<open>Entries\<close>

text \<open>What an entry keeps from grant to removal: its charge, every identifier once set, and the marks.\<close>

definition once :: "string \<Rightarrow> string \<Rightarrow> bool" where
  "once a b \<longleftrightarrow> (a \<noteq> [] \<longrightarrow> b = a)"

definition same_grant :: "activeReservation \<Rightarrow> activeReservation \<Rightarrow> bool" where
  "same_grant a b \<longleftrightarrow> same_charge a b \<and> once (RGrantObservedRV a) (RGrantObservedRV b) \<and>
     once (RGrantReceiptUID a) (RGrantReceiptUID b) \<and> (RGrantReceiptUID a \<noteq> [] \<longrightarrow> RGrantReceiptDigest b = RGrantReceiptDigest a) \<and>
     once (RPodAttemptNonce a) (RPodAttemptNonce b) \<and> once (RPodTemplateDigest a) (RPodTemplateDigest b) \<and>
     once (RPodReceiptUID a) (RPodReceiptUID b) \<and> (RPodReceiptUID a \<noteq> [] \<longrightarrow> RPodReceiptDigest b = RPodReceiptDigest a) \<and>
     (RClosing a \<longrightarrow> RClosing b) \<and> (RPodCleanupReady a \<longrightarrow> RPodCleanupReady b) \<and> (RGrantCleanupReady a \<longrightarrow> RGrantCleanupReady b)"

lemma same_grant_refl: "same_grant a a"
  by (simp add: same_grant_def same_charge_def once_def)

lemma same_grant_trans: "same_grant a b \<Longrightarrow> same_grant b c \<Longrightarrow> same_grant a c"
  by (auto simp: same_grant_def same_charge_def once_def)

lemma step_same_grant:
  assumes "active_step g l c c'" and "go_map (the_active c)"
    and "map_of (the_active c) i = Some a" and "map_of (the_active c') i = Some b"
  shows "same_grant a b"
  using assms by (cases rule: active_step.cases) (auto simp: gomap_simps same_grant_def same_charge_def once_def split: if_splits)

lemma run_same_grant:
  assumes "active_run g ls c c'" and "capacity_ok c" and "map_of (the_active c) i = Some a" and "AFree i \<notin> set ls"
  shows "\<exists>b. map_of (the_active c') i = Some b \<and> same_grant a b"
  using assms
proof (induction rule: active_run.induct)
  case (start c)
  then show ?case using same_grant_refl by blast
next
  case (step ls c d l e)
  then obtain b where b: "map_of (the_active d) i = Some b" "same_grant a b" by auto
  have m: "go_map (the_active d)" using run_capacity [OF step.hyps(1) step.prems(1)] by (simp add: capacity_ok_def)
  from step.hyps(2) m b(1) step.prems(3) have "\<exists>b'. map_of (the_active e) i = Some b'"
    by (cases rule: active_step.cases) (auto simp: gomap_simps)
  then show ?case using step_same_grant [OF step.hyps(2) m b(1)] b(2) same_grant_trans by blast
qed

section \<open>The life of a grant\<close>

fun active_key_of :: "active_label \<Rightarrow> string" where
  "active_key_of (AGrant k e) = k"
| "active_key_of (AArm k) = k"
| "active_key_of (APin k) = k"
| "active_key_of (ASpend k n) = k"
| "active_key_of (APodArm k) = k"
| "active_key_of (APodPin k) = k"
| "active_key_of (AIssue k) = k"
| "active_key_of (AComplete k) = k"
| "active_key_of (AClose k) = k"
| "active_key_of (APodMark k) = k"
| "active_key_of (AMark k) = k"
| "active_key_of (AFree k) = k"

text \<open>The set-up steps of a grant, numbered in their order.\<close>

fun setup_step :: "active_label \<Rightarrow> nat option" where
  "setup_step (AGrant k e) = Some 0"
| "setup_step (AArm k) = Some 1"
| "setup_step (APin k) = Some 2"
| "setup_step (ASpend k n) = Some 3"
| "setup_step (APodArm k) = Some 4"
| "setup_step (APodPin k) = Some 5"
| "setup_step _ = None"

text \<open>The commits that concern a key since its last grant, or since its last removal if it is free.\<close>

fun extend_life :: "active_label list \<Rightarrow> active_label \<Rightarrow> active_label list" where
  "extend_life h (AGrant k e) = [AGrant k e]"
| "extend_life h (AFree k) = []"
| "extend_life h l = h @ [l]"

definition life :: "string \<Rightarrow> active_label list \<Rightarrow> active_label list" where
  "life k ls = foldl extend_life [] (filter (\<lambda>l. active_key_of l = k) ls)"

definition setups :: "active_label list \<Rightarrow> nat list" where
  "setups h = List.map_filter setup_step h"

text \<open>Which commits may follow a life so far.\<close>

fun may_follow :: "active_label list \<Rightarrow> active_label \<Rightarrow> bool" where
  "may_follow h (AGrant k e) \<longleftrightarrow> setups h = []"
| "may_follow h (AArm k) \<longleftrightarrow> setups h = [0] \<and> AClose k \<notin> set h"
| "may_follow h (APin k) \<longleftrightarrow> setups h = [0, 1]"
| "may_follow h (ASpend k n) \<longleftrightarrow> setups h = [0, 1, 2] \<and> AClose k \<notin> set h"
| "may_follow h (APodArm k) \<longleftrightarrow> setups h = [0, 1, 2, 3] \<and> AClose k \<notin> set h"
| "may_follow h (APodPin k) \<longleftrightarrow> setups h = [0, 1, 2, 3, 4]"
| "may_follow h (AIssue k) \<longleftrightarrow> setups h = [0, 1, 2, 3, 4, 5] \<and> AClose k \<notin> set h"
| "may_follow h (AComplete k) \<longleftrightarrow> setups h = [0, 1, 2, 3, 4, 5]"
| "may_follow h (AClose k) \<longleftrightarrow> True"
| "may_follow h (APodMark k) \<longleftrightarrow> setups h = [0, 1, 2, 3, 4, 5] \<and> AClose k \<in> set h"
| "may_follow h (AMark k) \<longleftrightarrow> 3 \<le> length (setups h) \<and> AClose k \<in> set h \<and> (5 \<le> length (setups h) \<longrightarrow> APodMark k \<in> set h)"
| "may_follow h (AFree k) \<longleftrightarrow> setups h \<noteq> [] \<and> AClose k \<in> set h \<and> (2 \<le> length (setups h) \<longrightarrow> AMark k \<in> set h) \<and>
     (5 \<le> length (setups h) \<longrightarrow> APodMark k \<in> set h)"

text \<open>How far an entry is set up; the fields are filled in order.\<close>

definition setup_stage :: "activeReservation \<Rightarrow> nat" where
  "setup_stage e = (if RGrantObservedRV e = [] then 1 else if RGrantReceiptUID e = [] then 2 else if RPodAttemptNonce e = [] then 3
     else if RPodTemplateDigest e = [] then 4 else if RPodReceiptUID e = [] then 5 else 6)"

definition filled_in_order :: "activeReservation \<Rightarrow> bool" where
  "filled_in_order e \<longleftrightarrow> (RGrantReceiptUID e \<noteq> [] \<longrightarrow> RGrantObservedRV e \<noteq> []) \<and> (RPodAttemptNonce e \<noteq> [] \<longrightarrow> RGrantReceiptUID e \<noteq> []) \<and>
     (RPodTemplateDigest e \<noteq> [] \<longrightarrow> RPodAttemptNonce e \<noteq> []) \<and> (RPodReceiptUID e \<noteq> [] \<longrightarrow> RPodTemplateDigest e \<noteq> [])"

definition life_of :: "string \<Rightarrow> active_label list \<Rightarrow> activeReservation option \<Rightarrow> bool" where
  "life_of k h e \<longleftrightarrow> (case e of None \<Rightarrow> setups h = []
     | Some e \<Rightarrow> filled_in_order e \<and> setups h = [0 ..< setup_stage e] \<and> (RClosing e \<longleftrightarrow> AClose k \<in> set h) \<and>
         (RPodCleanupReady e \<longleftrightarrow> APodMark k \<in> set h) \<and> (RGrantCleanupReady e \<longleftrightarrow> AMark k \<in> set h))"

lemma life_snoc: "life k (ls @ [l]) = (if active_key_of l = k then extend_life (life k ls) l else life k ls)"
  by (simp add: life_def)

lemma setups_snoc: "setups (h @ [l]) = setups h @ (case setup_step l of None \<Rightarrow> [] | Some n \<Rightarrow> [n])"
  by (simp add: setups_def List.map_filter_def split: option.split)

lemma setups_Nil: "setups [] = []" "setups [AGrant k e] = [0]"
  by (simp_all add: setups_def List.map_filter_def)

lemmas life_simps = life_snoc setups_snoc setups_Nil life_of_def filled_in_order_def setup_stage_def gomap_simps

lemma upts:
  "[0 ..< 2] = [0, Suc 0]" "[0 ..< 3] = [0, Suc 0, 2]" "[0 ..< 4] = [0, Suc 0, 2, 3]" "[0 ..< 5] = [0, Suc 0, 2, 3, 4]"
  "[0 ..< 6] = [0, Suc 0, 2, 3, 4, 5]"
  by (simp_all add: upt_rec)

lemma step_other:
  "active_step g l c c' \<Longrightarrow> go_map (the_active c) \<Longrightarrow> active_key_of l \<noteq> k \<Longrightarrow> map_of (the_active c') k = map_of (the_active c) k"
  by (induction rule: active_step.induct) (auto simp: gomap_simps)

lemma step_life:
  assumes "active_step True l c c'" and "go_map (the_active c)" and "life_of k (life k ls) (map_of (the_active c) k)"
    and "active_key_of l = k"
  shows "life_of k (life k (ls @ [l])) (map_of (the_active c') k) \<and> may_follow (life k ls) l"
  using assms
proof (induction rule: active_step.induct)
  case (grant c k' e c')
  then show ?case by (auto simp: life_simps unused_entry_def)
next
  case (close_free c k')
  then show ?case by (simp add: life_simps)
next
  case (free c k' e)
  then show ?case by (auto simp: life_simps upts split: if_splits)
qed (simp_all add: life_simps upts split: if_splits, auto)

lemma run_life:
  assumes "active_run True ls c c'" and "capacity_ok c" and "map_of (the_active c) k = None"
  shows "life_of k (life k ls) (map_of (the_active c') k)"
  using assms
proof (induction rule: active_run.induct)
  case (start c)
  then show ?case by (simp add: life_of_def life_def setups_Nil)
next
  case (step ls c d l e)
  have m: "go_map (the_active d)" using run_capacity [OF step.hyps(1) step.prems(1)] by (simp add: capacity_ok_def)
  from step.IH [OF step.prems] step_life [OF step.hyps(2) m] step_other [OF step.hyps(2) m]
  show ?case by (cases "active_key_of l = k") (auto simp: life_snoc)
qed

lemma run_may_follow:
  assumes "active_run True ls c c'" and "active_step True l c' c''" and "capacity_ok c" and "map_of (the_active c) (active_key_of l) = None"
  shows "may_follow (life (active_key_of l) ls) l"
proof -
  have "go_map (the_active c')" using run_capacity [OF assms(1,3)] by (simp add: capacity_ok_def)
  from step_life [OF assms(2) this run_life [OF assms(1,3,4)]] show ?thesis by simp
qed

section \<open>The first version\<close>

definition active_init_event :: "'x ext_scheme \<Rightarrow> 'w KovaBuildReconciler \<Rightarrow> string \<Rightarrow> event list \<Rightarrow> event \<Rightarrow> bool" where
  "active_init_event x r ns h e \<longleftrightarrow> sent_to (active_key ns) h e \<or>
     (\<exists>b. e = Own (active_key ns) (Some b) \<and> current h (active_key ns) = None \<and>
        ledger_state (decode_reservations x r) reservationDataKey b = Some (freshReservations (Cfg r)))"

lemma good_freshReservations:
  assumes "\<not> rc_guarded r" and "encodeReservations x (freshReservations (Cfg r)) = Inr data"
  shows "good_active r (freshReservations (Cfg r))"
proof -
  have "validateReservationState x (freshReservations (Cfg r)) = None"
    using assms(2) by (auto simp: encodeReservations_def split: option.splits)
  then have "\<not> capacity_error (MaxActiveJobs (Cfg r)) (MaxActiveJobsPerRequester (Cfg r)) (CfgWorkerSlots (Cfg r))"
    by (simp add: validateReservationState_iff valid_header_def freshReservations_def)
  then show ?thesis
    using assms(1) by (simp add: good_active_def validateReservationLimits_iff ValidateReservationCapacity_def
        freshReservations_def the_active_def go_map_def)
qed

lemma keeps_create_ledger:
  assumes "lawful_reconciler log x rt r" and "\<not> rc_guarded r" and "encodeReservations x (freshReservations (Cfg r)) = Inr data"
    and "RClient r = Some c"
  shows "keeps log (active_init_event x r ns) (Create_cm c (bootstrap_cm ns nonce data))"
proof -
  let ?cm = "bootstrap_cm ns nonce data"
  let ?q = "ReqCreate (active_key ns) (OConfigMap ?cm)"
  have key: "cm_key ?cm = active_key ns" by (simp add: cm_key_def active_key_def bootstrap_cm_def)
  have req: "requests log ?q (\<lambda>r. r \<noteq> None) (create_commits ?cm) (Create_cm c ?cm)"
    using assms(1,4) key unfolding lawful_reconciler_def lawful_client_def by metis
  have dec: "decode_reservations x r data = Inr (freshReservations (Cfg r))"
    using decode_encode_active [OF _ good_freshReservations [OF assms(2,3)] assms(3)] assms(1) by (simp add: lawful_reconciler_def)
  have own: "active_init_event x r ns n e" if "create_commits ?cm n e q" for n e q
    using that dec unfolding create_commits_def active_init_event_def key created_as_def ledger_state_def
    by (auto simp: mget_def bootstrap_cm_def)
  have sent: "grows (active_init_event x r ns) l n" if "still l m" "still (m @ [Sent ?q]) n" for l m n
    by (rule grows_mono [OF grows_sent [OF that(1) HOL.refl that(2)]]) (simp add: active_init_event_def)
  show ?thesis
    unfolding keeps_given_def
    by (intro allI impI, rule wp_mono [OF requestsD [OF req]])
      (auto intro: sent intro!: grows.own own elim!: is_own.elims)
qed

lemma quiet_Preflight:
  assumes "lawful_reconciler log x rt r" and "rc_reader r = rdr"
  shows "quiet log (PreflightAdmissionLedger x rt rdr ns (Cfg r))"
proof -
  let ?p = "\<lparr>RClient = None, APIReader = rdr, RGenesis = None, RecoveryReceipts = None, Cfg = Cfg r, Coordinator = None\<rparr>"
  have law: "lawful_reconciler log x rt ?p"
    using assms lawful_rc_reader [OF assms(1)] by (simp add: lawful_reconciler_def)
  have rd: "rc_reader ?p = rdr" by (simp add: rc_reader_def split: option.split)
  note reads = calm_quiet [OF calm_reads(4) [OF law, unfolded rd]] calm_quiet [OF calm_reads(5) [OF law, unfolded rd]]
  show ?thesis
    unfolding PreflightAdmissionLedger_def by (intro keeps_intros quiet_base(7) [OF law] reads)
qed

lemma keeps_initializeReservations:
  assumes "lawful_reconciler log x rt r"
  shows "keeps log (active_init_event x r ns) (initializeReservations x rt r ns)"
proof (cases "rc_guarded r")
  case True
  then show ?thesis
    unfolding initializeReservations_def by (simp only: if_True) (intro keeps_intros keeps_reads [OF assms])
next
  case False
  note reads = keeps_reads [OF assms]
  have create: "keeps log (active_init_event x r ns) (create_reservations x rt r ns i nonce data)"
    if "encodeReservations x (freshReservations (Cfg r)) = Inr data" for i nonce data
    unfolding create_reservations_def
    by (intro keeps_intros reads keeps_create_ledger [OF assms False that])
  have encoded: "results (ret (encodeReservations x (freshReservations (Cfg r))))
      (\<lambda>data. encodeReservations x (freshReservations (Cfg r)) = Inr data)" by (rule results_ret)
  show ?thesis
    unfolding initializeReservations_def initialize_round_def using False
    by (simp only: if_False) (intro keeps_for_loop keeps_bind keeps_case_sum keeps_case_prod keeps_if keeps_ret reads
        keeps_tguard quiet_keeps [OF quiet_Preflight [OF assms HOL.refl]] keeps_ttry_results [OF _ encoded]
        keeps_ttry create quiet_keeps [OF calm_quiet [OF calm_reads(1) [OF assms]]])
qed

end
