(* ===== verification/Reservation_Outcome.thy ===== *)
theory Reservation_Outcome
  imports Reservation_Invariants
begin

text \<open>
  What a successful result of the controller's ledger operations says: a Pod may be created only when
  the ledger holds its issue fence, and an admitted build holds its slots in the ledger.
\<close>

section \<open>The issue of a Pod creation\<close>

definition issue_of :: "activeReservation \<Rightarrow> activeReservation \<Rightarrow> bool" where
  "issue_of pinned e \<longleftrightarrow> samePodAttempt e pinned \<and> RPodTemplateDigest e = RPodTemplateDigest pinned \<and>
     RPodReceiptUID e = RPodReceiptUID pinned \<and> RPodReceiptDigest e = RPodReceiptDigest pinned \<and> \<not> RClosing e \<and>
     \<not> RPodCleanupReady e \<and> RInFlight e = [RPodAttemptNonce pinned]"

text \<open>Some version of the ledger held an entry of the build that satisfies \<open>P\<close>.\<close>

definition held ::
  "'x ext_scheme \<Rightarrow> 'w KovaBuildReconciler \<Rightarrow> KovaBuild \<Rightarrow> (activeReservation \<Rightarrow> bool) \<Rightarrow> event list \<Rightarrow> bool" where
  "held x r build P l \<longleftrightarrow> (\<exists>cm s e. stored l (active_key (Namespace (build_meta build))) (OConfigMap cm) \<and>
     decode_reservations x r (mget (Data cm) reservationDataKey) = Inr s \<and>
     map_of (the_active s) (reservationKey build) = Some e \<and> P e)"

lemma held_grows: "held x r build P l \<Longrightarrow> grows R l m \<Longrightarrow> held x r build P m"
  unfolding held_def by (blast intro: grows_stored)

lemma held_mono: "held x r build P l \<Longrightarrow> (\<And>e. P e \<Longrightarrow> Q e) \<Longrightarrow> held x r build Q l"
  unfolding held_def by blast

lemma freshIssueRecorded_held:
  assumes "lawful_reconciler log x rt r"
  shows "wp (freshIssueRecorded x rt r build issued) (\<lambda>q w'. q = None \<longrightarrow> held x r build (issue_recorded issued) (log w')) w"
  unfolding freshIssueRecorded_def readReservations_def wp_attemptE
  by (rule wp_mono [OF yieldsD [OF yields_readReservations [OF assms]]])
    (auto simp: wp_ret entry_if_def held_def carries_def split: sum.splits option.splits if_splits)

lemma authorize_held:
  assumes "lawful_reconciler log x rt r"
  shows "wp (authorizeFreshPodCreate x rt r build pinned) (\<lambda>q w'. q = None \<longrightarrow> held x r build (issue_of pinned) (log w')) w"
  unfolding authorizeFreshPodCreate_def
proof (rule wp_for_retry [where I = "\<lambda>_. True"])
  fix i w
  let ?Q = "\<lambda>q w'. case q of Continue \<Rightarrow> True | Return q \<Rightarrow> q = None \<longrightarrow> held x r build (issue_of pinned) (log w')"
  have recorded: "wp (freshIssueRecorded x rt r build (entry\<lparr>RInFlight := [RPodAttemptNonce pinned]\<rparr>))
      (\<lambda>q w'. q = None \<longrightarrow> held x r build (issue_of pinned) (log w')) w"
    if "samePodAttempt entry pinned" "RPodTemplateDigest entry = RPodTemplateDigest pinned"
      "RPodReceiptUID entry = RPodReceiptUID pinned" "RPodReceiptDigest entry = RPodReceiptDigest pinned" for entry w
    by (rule wp_mono [OF freshIssueRecorded_held [OF assms]])
      (use that in \<open>auto elim!: held_mono simp: issue_recorded_def issue_of_def samePodAttempt_def sameGrant_def\<close>)
  show "wp (rtryE (observe_pinned x rt r build pinned) (\<lambda>(cm, s, entry). do {
        let entry' = entry\<lparr>RInFlight := [RPodAttemptNonce pinned]\<rparr>;
        w \<leftarrow> writeReservations x r cm (put_active (reservationKey build) entry' s);
        case w of
          Some err \<Rightarrow>
            if IsConflict err then rguardE (waitReservationCAS rt i) (ret Continue)
            else do {
              recorded \<leftarrow> freshIssueRecorded x rt r build entry';
              if recorded = None then ret (Return None) else ret (Return (Some err)) }
        | None \<Rightarrow> do { e \<leftarrow> freshIssueRecorded x rt r build entry'; ret (Return e) } })) ?Q w"
    unfolding wp_rtryE Let_def
    by (rule wp_mono [OF yieldsD [OF yields_observe_pinned [OF assms]]])
      (auto simp: wp_bind wp_ret wp_rguardE split: sum.split option.split
        intro!: wpI [of "writeReservations _ _ _ _"] wpI [of "waitReservationCAS _ _"] wp_mono [OF recorded])
qed (auto simp: wp_ret)

lemma results_armFreshPodAttempt:
  assumes "lawful_reconciler log x rt r"
  shows "results (armFreshPodAttempt x rt r build att digest)
    (\<lambda>a. RPodTemplateDigest a = digest \<and> RPodAttemptNonce a = att \<and> \<not> RClosing a)"
  unfolding results_def armFreshPodAttempt_def wp_if Let_def
  by (intro allI conjI impI, simp add: wp_ret, rule wp_for_retry [where I = "\<lambda>_. True"])
    (auto simp: wp_ret wp_rtry wp_bind wp_rguard entry_if_Some samePodAttempt_def split: sum.split option.split
      intro!: wpI [of "writeReservations _ _ _ _"] wpI [of "waitReservationCAS _ _"] wpI [of "readReservations _ _ _ _"]
        wp_mono [OF yieldsD [OF yields_observe_unarmed [OF assms]]])

lemma results_pinPodReceipt:
  "results (pinPodReceipt x rt r build armed witness)
    (\<lambda>p. samePodAttempt p armed \<and> RPodTemplateDigest p = RPodTemplateDigest armed \<and> RPodReceiptUID p \<noteq> [])"
  unfolding results_def pinPodReceipt_def wp_if Let_def
  by (intro allI conjI impI, simp add: wp_ret, rule wp_for_retry [where I = "\<lambda>_. True"])
    (auto simp: wp_ret wp_rtry wp_bind wp_rguard entry_if_Some pod_pinned_as_def validGrantReceiptUID_def
      split: sum.split option.split intro!: wpI [of "writeReservations _ _ _ _"] wpI [of "waitReservationCAS _ _"]
        wpI [of "readReservations _ _ _ _"])

text \<open>The entry that authorises the creation of the Pod \<open>p\<close> in attempt \<open>att\<close>.\<close>

definition authorises :: "string \<Rightarrow> pod \<Rightarrow> activeReservation \<Rightarrow> bool" where
  "authorises att p e \<longleftrightarrow> RPodAttemptNonce e = att \<and> RInFlight e = [att] \<and> \<not> RClosing e \<and> RPodReceiptUID e \<noteq> [] \<and>
     RPodTemplateDigest e = mget (Annotations (pod_meta p)) PodTemplateDigestAnnotation"

lemma wp_attempt_results:
  assumes "results m P" and "\<And>v w'. P v \<Longrightarrow> wp (k v) Q w'" and "\<And>e w'. Q (Inl e) w'"
  shows "wp (attempt m k) Q w"
  unfolding wp_attempt
  by (rule wp_mono [OF assms(1) [unfolded results_def, rule_format]]) (auto intro: assms(2,3) split: sum.split)

lemma wp_guard_any: "(\<And>w'. wp k Q w') \<Longrightarrow> (\<And>e w'. Q (Inl e) w') \<Longrightarrow> wp (guard m k) Q w"
  unfolding wp_guard by (rule wpI) (auto split: option.split)

lemma results_any: "results m (\<lambda>_. True)"
  by (simp add: results_def wpI)

definition annotated :: "string \<Rightarrow> pod \<Rightarrow> pod" where
  "annotated d p = p\<lparr>pod_meta := (pod_meta p)\<lparr>Annotations := mput PodTemplateDigestAnnotation d (Annotations (pod_meta p))\<rparr>\<rparr>"

lemma annotated_facts:
  assumes "go_map (Annotations (pod_meta p))"
  shows "CanonicalPodTemplateDigest x (annotated d p) = CanonicalPodTemplateDigest x p"
    "mget (Annotations (pod_meta (annotated d p))) PodTemplateDigestAnnotation = d"
    "mget (Annotations (pod_meta (annotated d p))) podCreateAttemptKey = mget (Annotations (pod_meta p)) podCreateAttemptKey"
    "podOwnedByBuild (annotated d p) build = podOwnedByBuild p build"
    "validateGenesisPodRuntimeIdentity cfg build (annotated d p) = validateGenesisPodRuntimeIdentity cfg build p"
proof -
  show "CanonicalPodTemplateDigest x (annotated d p) = CanonicalPodTemplateDigest x p"
    unfolding annotated_def by (rule digest_projection [OF projection_annotated [OF assms]])
  have "PodSpec (annotated d p) = PodSpec p" by (simp add: annotated_def)
  then show "validateGenesisPodRuntimeIdentity cfg build (annotated d p) = validateGenesisPodRuntimeIdentity cfg build p"
    by (simp only: validateGenesisPodRuntimeIdentity_def)
qed (simp_all add: annotated_def mget_def podOwnedByBuild_def assms gomap_simps)

lemma finishFreshPodAttempt_held:
  assumes "lawful_reconciler log x rt r" and "go_map (Annotations (pod_meta p))"
  shows "wp (finishFreshPodAttempt x rt r build p att) (\<lambda>q w'. \<forall>p'. q = Inr p' \<longrightarrow>
    held x r build (authorises att p') (log w') \<and>
    CanonicalPodTemplateDigest x p' = Inr (mget (Annotations (pod_meta p')) PodTemplateDigestAnnotation) \<and>
    mget (Annotations (pod_meta p')) podCreateAttemptKey = att \<and> podOwnedByBuild p' build \<and>
    validateGenesisPodRuntimeIdentity (Cfg r) build p' = None) w" (is "wp _ ?Q w")
proof -
  note facts = annotated_facts [OF assms(2)]
  have issue: "wp (guard (authorizeFreshPodCreate x rt r build pinned) (ret (Inr (annotated digest p)))) ?Q w"
    if "samePodAttempt pinned armed \<and> RPodTemplateDigest pinned = RPodTemplateDigest armed \<and> RPodReceiptUID pinned \<noteq> []"
      "RPodTemplateDigest armed = digest \<and> RPodAttemptNonce armed = att \<and> \<not> RClosing armed"
      "CanonicalPodTemplateDigest x p = Inr digest" "validateGenesisPodRuntimeIdentity (Cfg r) build p = None"
      "mget (Annotations (pod_meta p)) podCreateAttemptKey = att" "podOwnedByBuild p build" for pinned armed digest w
    unfolding wp_guard
    by (rule wp_mono [OF authorize_held [OF assms(1)]])
      (use that in \<open>auto simp: facts wp_ret authorises_def issue_of_def samePodAttempt_def elim!: held_mono split: option.split\<close>)
  have digest: "results (ret (CanonicalPodTemplateDigest x p)) (\<lambda>d. CanonicalPodTemplateDigest x p = Inr d)"
    by (rule results_ret)
  show ?thesis
    unfolding finishFreshPodAttempt_def Let_def annotated_def [symmetric] wp_if
    by (intro conjI impI, simp add: wp_ret, unfold wp_guard [of "ret _"] wp_ret, split option.split, intro conjI impI allI)
      (rule wp_attempt_results [OF digest], rule wp_attempt_results [OF results_armFreshPodAttempt [OF assms(1)]],
        rule wp_attempt_results [OF results_any], rule wp_attempt_results [OF results_any], rule wp_guard_any,
        rule wp_attempt_results [OF results_pinPodReceipt], rule issue, auto)
qed

section \<open>An admitted build\<close>

text \<open>Quiet calls on the way, with the versions read so far.\<close>

lemma wp_ttry_quiet:
  assumes "quiet log m" and "knows K (log w)" and "\<And>v w'. knows K (log w') \<Longrightarrow> wp (k v) Q w'" and "\<And>e w'. Q (Leave (fail e)) w'"
  shows "wp (ttry fail m k) Q w"
  unfolding wp_ttry
  by (rule wp_mono [OF keepsD [OF assms(1)]]) (auto intro: assms(3,4) knows_grows [OF assms(2)] split: sum.split)

lemma wp_ttry_yields:
  assumes "yields log m P N" and "\<And>v w'. P v \<Longrightarrow> knows (N v) (log w') \<Longrightarrow> wp (k v) Q w'" and "\<And>e w'. Q (Leave (fail e)) w'"
  shows "wp (ttry fail m k) Q w"
  unfolding wp_ttry
  by (rule wp_mono [OF yieldsD [OF assms(1)]]) (auto intro: assms(2,3) split: sum.split)

lemma wp_tguard_quiet:
  assumes "quiet log m" and "succeeds_if m P" and "knows K (log w)" and "\<And>w'. P \<Longrightarrow> knows K (log w') \<Longrightarrow> wp k Q w'"
    and "\<And>e w'. Q (Leave (fail e)) w'"
  shows "wp (tguard fail m k) Q w"
proof -
  have "wp m (\<lambda>q w'. still (log w) (log w') \<and> (q = None \<longrightarrow> P)) w"
    using wp_conj [OF keepsD [OF assms(1), of w] assms(2) [unfolded succeeds_if_def, rule_format, of w]] by simp
  then show ?thesis
    unfolding wp_tguard by (rule wp_mono) (auto intro: assms(4,5) knows_grows [OF assms(3)] split: option.split)
qed

lemma succeeds_if_any: "succeeds_if m True"
  by (simp add: succeeds_if_def wpI)

text \<open>The charge of a build with \<open>n\<close> slots; in a guarded installation its grant receipt is pinned.\<close>

definition charged :: "'w KovaBuildReconciler \<Rightarrow> KovaBuild \<Rightarrow> int \<Rightarrow> activeReservation \<Rightarrow> bool" where
  "charged r build n e \<longleftrightarrow> RBuildName e = Name (build_meta build) \<and> RRequester e = requesterKey build \<and> RSlots e = n \<and>
     (rc_guarded r \<longrightarrow> RGrantReceiptUID e \<noteq> [] \<and> \<not> RClosing e)"

definition admitted_held :: "('w \<Rightarrow> event list) \<Rightarrow> 'x ext_scheme \<Rightarrow> 'w KovaBuildReconciler \<Rightarrow> KovaBuild \<Rightarrow> goerr + admissionDecision \<Rightarrow> 'w \<Rightarrow> bool" where
  "admitted_held log x r build q w \<longleftrightarrow>
     (\<forall>d. q = Inr d \<and> Admitted d \<longrightarrow> held x r build (charged r build (Allocation d)) (log w))"

lemma pinGrantReceipt_held:
  assumes "lawful_reconciler log x rt r"
  shows "wp (pinGrantReceipt x rt r build armed witness) (\<lambda>q w'. \<forall>p. q = Inr p \<longrightarrow>
     sameGrant p armed \<and> held x r build (\<lambda>e. e = p) (log w')) w"
  unfolding pinGrantReceipt_def wp_if Let_def
proof (intro conjI impI, simp add: wp_ret, rule wp_for_retry [where I = "\<lambda>_. True"], simp, goal_cases)
  case (1 i w)
  have read: "wp (readReservations x rt r (Namespace (build_meta build))) (\<lambda>q w'. \<forall>cm s e. q = Inr (cm, s) \<and>
      map_of (the_active s) (reservationKey build) = Some e \<longrightarrow> held x r build (\<lambda>e'. e' = e) (log w')) w" for w
    unfolding readReservations_def
    by (rule wp_mono [OF yieldsD [OF yields_readReservations [OF assms]]]) (auto simp: held_def carries_def)
  show ?case
    by (auto simp: wp_ret wp_rtry wp_bind wp_rguard entry_if_Some grant_pinned_as_def
        split: sum.split option.split intro!: wpI [of "writeReservations _ _ _ _"] wpI [of "waitReservationCAS _ _"]
          wp_mono [OF read])
qed (auto simp: wp_ret)

lemma results_armFreshGrant: "results (armFreshGrant x rt r build original) (\<lambda>a. sameGrant a original)"
  unfolding results_def armFreshGrant_def Let_def
  by (intro allI, rule wp_for_retry [where I = "\<lambda>_. True"])
    (auto simp: wp_ret wp_rtry wp_bind wp_rguard entry_if_Some split: sum.split option.split
      intro!: wpI [of "writeReservations _ _ _ _"] wpI [of "waitReservationCAS _ _"] wpI [of "readReservations _ _ _ _"]
        wpI [of "ensureLiveAdmissionBuild _ _"])

lemma wp_attemptE_results:
  assumes "results m P" and "\<And>v w'. P v \<Longrightarrow> wp (k v) Q w'" and "\<And>e w'. Q (Some e) w'"
  shows "wp (attemptE m k) Q w"
  unfolding wp_attemptE
  by (rule wp_mono [OF assms(1) [unfolded results_def, rule_format]]) (auto intro: assms(2,3) split: sum.split)

lemma wp_guardE_any: "(\<And>w'. wp k Q w') \<Longrightarrow> (\<And>e w'. Q (Some e) w') \<Longrightarrow> wp (guardE m k) Q w"
  unfolding wp_guardE by (rule wpI) (auto split: option.split)

lemma finishFreshGrant_held:
  assumes "lawful_reconciler log x rt r" and "RBuildName entry = Name (build_meta build)" and "RRequester entry = requesterKey build"
  shows "wp (finishFreshGrant x rt r build entry) (\<lambda>q w'. q = None \<longrightarrow> held x r build (charged r build (RSlots entry)) (log w')) w"
    (is "wp _ ?Q w")
proof -
  have verify: "wp (guardE (ensureLiveAdmissionBuild r build) (verifyPinnedGrant x rt r build p)) ?Q w"
    if "sameGrant p armed" "sameGrant armed entry" "held x r build (\<lambda>e. e = p) (log w)" for p armed w
  proof -
    have "quiet log (guardE (ensureLiveAdmissionBuild r build) (verifyPinnedGrant x rt r build p))"
      by (intro keeps_intros keeps_reads [OF assms(1)])
    moreover have "succeeds_if (guardE (ensureLiveAdmissionBuild r build) (verifyPinnedGrant x rt r build p))
        (RGrantReceiptUID p \<noteq> [] \<and> \<not> RClosing p)"
      unfolding succeeds_if_def
      by (intro allI wp_guardE_any succeeds_if_verifyPinnedGrant [unfolded succeeds_if_def, rule_format]) simp
    ultimately have "wp (guardE (ensureLiveAdmissionBuild r build) (verifyPinnedGrant x rt r build p))
        (\<lambda>q w'. still (log w) (log w') \<and> (q = None \<longrightarrow> RGrantReceiptUID p \<noteq> [] \<and> \<not> RClosing p)) w"
      by (intro wp_conj) (auto simp: succeeds_if_def dest: keepsD)
    then show ?thesis
      by (rule wp_mono) (use that assms(2,3) in \<open>auto simp: charged_def sameGrant_def elim!: held_mono [OF held_grows]\<close>)
  qed
  have pin: "wp (attemptE (pinGrantReceipt x rt r build armed witness) (\<lambda>pinned.
      guardE (ensureLiveAdmissionBuild r build) (verifyPinnedGrant x rt r build pinned))) ?Q w"
    if "sameGrant armed entry" for armed witness w
    unfolding wp_attemptE
    by (rule wp_mono [OF pinGrantReceipt_held [OF assms(1)]]) (auto intro: verify that split: sum.split)
  show ?thesis
    unfolding finishFreshGrant_def
    by (rule wp_attemptE_results [OF results_armFreshGrant], rule wp_attemptE_results [OF results_any],
        rule wp_attemptE_results [OF results_any], rule wp_guardE_any, rule pin) auto
qed

lemma commit_held:
  assumes "state_commit (decode_reservations x r) (active_key (Namespace (build_meta build))) reservationDataKey s t l l'"
    and "map_of (the_active t) (reservationKey build) = Some e" and "P e"
  shows "held x r build P l'"
proof -
  from assms(1) obtain m b where b: "ledger_state (decode_reservations x r) reservationDataKey b = Some t"
      "still (m @ [Own (active_key (Namespace (build_meta build))) (Some b)]) l'"
    by (auto simp: state_commit_def)
  have "stored (m @ [Own (active_key (Namespace (build_meta build))) (Some b)]) (active_key (Namespace (build_meta build))) b"
    by (simp add: stored_def)
  then have "stored l' (active_key (Namespace (build_meta build))) b" using b(2) by (blast intro: grows_stored)
  then show ?thesis
    using b(1) assms(2,3) by (auto simp: held_def ledger_state_def split: obj.splits sum.splits)
qed

text \<open>The verdict of a round: a decision that admits the build comes with its charge.\<close>

definition admitting :: "('w \<Rightarrow> event list) \<Rightarrow> 'x ext_scheme \<Rightarrow> 'w KovaBuildReconciler \<Rightarrow> KovaBuild \<Rightarrow>
    (nat option, nat option \<times> (goerr + admissionDecision)) turn \<Rightarrow> 'w \<Rightarrow> bool" where
  "admitting log x r build t w \<longleftrightarrow> (case t of Again _ \<Rightarrow> True | Leave (_, q) \<Rightarrow> admitted_held log x r build q w)"

lemma admitting_simps [simp]:
  "admitting log x r build (Again p) w" "admitting log x r build (Leave (p, Inl e)) w"
  "admitting log x r build (Leave (p, Inr d)) w \<longleftrightarrow>
     (Admitted d \<longrightarrow> held x r build (charged r build (Allocation d)) (log w))"
  by (auto simp: admitting_def admitted_held_def)

lemma grant_charge_held:
  assumes "lawful_reconciler log x rt r"
    and "carries (decode_reservations x r) (active_key (Namespace (build_meta build))) reservationDataKey cm s"
    and "stored (log w) (active_key (Namespace (build_meta build))) (OConfigMap cm)"
    and entry_def: "entry = fresh_entry r build (Allocation decision) nonce s"
  shows "wp (writeReservations x r cm (grant_state r build entry s)) (\<lambda>q. wp (case q of
      Some err \<Rightarrow> if IsConflict err \<or> IsAlreadyExists err
        then tguard (\<lambda>e. (permit, Inl e)) (waitReservationCAS rt retry) (ret (Again permit)) else ret (Leave (permit, Inl err))
    | None \<Rightarrow> tguard (\<lambda>e. (permit, Inl e)) (if rc_guarded r then finishFreshGrant x rt r build entry else ret None) (
        ret (Leave (permit, Inr decision)))) (admitting log x r build)) w"
proof -
  have sorted: "go_map (the_active s)" using carries_good_active [OF assms(2)] by (simp add: good_active_def)
  have lost: "wp (if IsConflict err \<or> IsAlreadyExists err
      then tguard (\<lambda>e. (permit, Inl e)) (waitReservationCAS rt retry) (ret (Again permit)) else ret (Leave (permit, Inl err)))
      (admitting log x r build) w'" for err w'
    by (simp add: wp_if wp_ret wp_tguard) (auto intro!: wpI simp: wp_ret split: option.split)
  have entry: "RBuildName entry = Name (build_meta build)" "RRequester entry = requesterKey build" "RSlots entry = Allocation decision"
    by (simp_all add: entry_def fresh_entry_def)
  have won: "wp (tguard (\<lambda>e. (permit, Inl e)) (if rc_guarded r then finishFreshGrant x rt r build entry else ret None) (
      ret (Leave (permit, Inr decision)))) (admitting log x r build) w'"
    if "state_commit (decode_reservations x r) (active_key (Namespace (build_meta build))) reservationDataKey s
      (grant_state r build entry s) (log w) (log w')" for w'
  proof (cases "rc_guarded r")
    case True
    show ?thesis
      unfolding wp_tguard if_P [OF True]
      by (rule wp_mono [OF finishFreshGrant_held [OF assms(1) entry(1,2)]]) (auto simp: wp_ret entry split: option.split)
  next
    case False
    then show ?thesis
      using commit_held [OF that, of entry "charged r build (Allocation decision)"]
      by (simp add: wp_tguard wp_ret charged_def entry grant_state_def grant_fence_def gomap_simps sorted)
  qed
  have good: "good_active r (grant_state r build entry s)"
    using carries_good_active [OF assms(2)] sorted
    by (auto simp: good_active_def grant_state_def grant_fence_def validateReservationLimits_def gomap_simps
        split: option.splits if_splits)
  show ?thesis
  proof (rule active.wp_write [OF assms(1), where ns = "Namespace (build_meta build)" and s = s, OF _ good], goal_cases)
    case 1
    show ?case using assms(2,3) by (simp add: has_read_carries)
  next
    case (2 w' e)
    show ?case unfolding option.case by (rule lost)
  next
    case (3 w' q)
    show ?case
    proof (cases q)
      case None
      show ?thesis unfolding None option.case by (rule won [OF 3(1)])
    next
      case (Some e)
      show ?thesis unfolding Some option.case by (rule lost)
    qed
  qed
qed

lemma admission_grant_held:
  assumes "lawful_reconciler log x rt r"
    and "carries (decode_reservations x r) (active_key (Namespace (build_meta build))) reservationDataKey cm s"
    and "knows {(active_key (Namespace (build_meta build)), OConfigMap cm)} (log w)"
  shows "wp (admission_grant x rt r build nonce retry permit cm s) (admitting log x r build) w"
proof -
  let ?K = "{(active_key (Namespace (build_meta build)), OConfigMap cm)}"
  have existing: "wp (tguard (\<lambda>e. (permit, Inl e)) (if rc_guarded r then verifyPinnedGrant x rt r build e else ret None) (
      ret (Leave (permit, Inr (granting (RSlots e)))))) (admitting log x r build) w'"
    if "map_of (the_active s) (reservationKey build) = Some e" "RBuildName e = Name (build_meta build)"
      "RRequester e = requesterKey build" "knows ?K (log w')" for e w'
  proof (rule wp_tguard_quiet [where log = log and K = ?K and w = w' and P = "rc_guarded r \<longrightarrow> RGrantReceiptUID e \<noteq> [] \<and> \<not> RClosing e", OF _ _ that(4)], goal_cases)
    case 1
    show ?case by (intro keeps_intros keeps_reads [OF assms(1)])
  next
    case 2
    show ?case
      using succeeds_if_verifyPinnedGrant [of x rt r build e] by (auto simp: succeeds_if_def wp_ret elim: wp_mono)
  next
    case 3
    then show ?case
      using that assms(2) by (auto simp: wp_ret granting_def charged_def held_def carries_def)
  qed simp
  show ?thesis
    unfolding admission_grant_def Let_def
  proof (rule wp_ttry_quiet [where log = log and w = w, OF _ assms(3)], goal_cases)
    case 1
    show ?case by (intro keeps_intros keeps_reads [OF assms(1)])
  next
    case (2 builds w')
    show ?case
    proof (rule wp_tguard_quiet [where log = log and w = w', OF keeps_reads(17) [OF assms(1)] succeeds_if_any 2], goal_cases)
      case (1 w'')
      show ?case
      proof (cases "map_of (the_active s) (reservationKey build)")
        case None
        show ?thesis
          unfolding None option.case wp_if wp_bind wp_ret using 1(2)
          by (intro conjI impI) (simp, rule grant_charge_held [OF assms(1,2) _ HOL.refl], simp)
      next
        case (Some e)
        then show ?thesis
          unfolding Some option.case wp_if wp_ret using 1(2) by (intro conjI impI existing) (simp_all add: Some)
      qed
    qed simp
  qed simp
qed

lemma admission_held:
  assumes "lawful_reconciler log x rt r"
  shows "wp (admission x rt r build) (admitted_held log x r build) w"
proof -
  have reads: "quiet log (Ctx_Err rt)" "quiet log (ensureLiveAdmissionBuild r build)" "quiet log (admission_permit rt r ns permit)"
    "quiet log (VerifyForBuild x rt (queueStoreForNamespace r ns) build)" for ns permit
    by (intro keeps_reads [OF assms])+
  have state: "wp (tguard (\<lambda>e. (permit, Inl e)) (ensureLiveAdmissionBuild r build) (
      if map_of (the_active s) (reservationKey build) \<noteq> None then admission_grant x rt r build nonce retry permit cm s
      else case saturatedAdmission build (the_active s) (MaxActiveJobs (Cfg r)) (MaxActiveJobsPerRequester (Cfg r))
             (CfgWorkerSlots (Cfg r)) of
         Some blocked \<Rightarrow> tguard (\<lambda>e. (permit, Inl e)) (VerifyForBuild x rt (queueStoreForNamespace r ns) build) (
           ret (Leave (permit, Inr blocked)))
       | None \<Rightarrow> ttry (\<lambda>e. (permit, Inl e)) (admission_permit rt r ns permit) (\<lambda>(busy, permit').
           if busy then ret (Leave (permit', Inr locally_deferred))
           else tguard (\<lambda>e. (permit', Inl e)) (VerifyForBuild x rt (queueStoreForNamespace r ns) build) (
             admission_grant x rt r build nonce retry permit' cm s)))) (admitting log x r build) w"
    if cm: "carries (decode_reservations x r) (active_key (Namespace (build_meta build))) reservationDataKey cm s"
      "knows {(active_key (Namespace (build_meta build)), OConfigMap cm)} (log w)" for cm s nonce retry permit ns w
  proof (rule wp_tguard_quiet [where log = log and w = w, OF reads(2) succeeds_if_any cm(2)], goal_cases)
    case (1 w1)
    note grant = admission_grant_held [OF assms cm(1)]
    have blocked: "wp (tguard (\<lambda>e. (permit, Inl e)) (VerifyForBuild x rt (queueStoreForNamespace r ns) build) (
        ret (Leave (permit, Inr d)))) (admitting log x r build) w1"
      if "saturatedAdmission build (the_active s) (MaxActiveJobs (Cfg r)) (MaxActiveJobsPerRequester (Cfg r))
        (CfgWorkerSlots (Cfg r)) = Some d" for d
      by (rule wp_tguard_quiet [where log = log and w = w1, OF reads(4) succeeds_if_any 1(2)])
        (use that in \<open>auto simp: wp_ret saturatedAdmission_def waiting_def split: if_splits\<close>)
    have permitted: "wp (ttry (\<lambda>e. (permit, Inl e)) (admission_permit rt r ns permit) (\<lambda>(busy, permit').
           if busy then ret (Leave (permit', Inr locally_deferred))
           else tguard (\<lambda>e. (permit', Inl e)) (VerifyForBuild x rt (queueStoreForNamespace r ns) build) (
             admission_grant x rt r build nonce retry permit' cm s))) (admitting log x r build) w1"
      by (rule wp_ttry_quiet [where log = log and w = w1, OF reads(3) 1(2)])
        (auto simp: wp_ret locally_deferred_def intro!: grant
          wp_tguard_quiet [where log = log and K = "{(active_key (Namespace (build_meta build)), OConfigMap cm)}",
            OF reads(4) succeeds_if_any])
    show ?case using 1(2) by (auto intro: grant blocked permitted split: option.split)
  qed simp
  have round: "wp (admission_round x rt r build nonce retry permit) (admitting log x r build) w" for nonce retry permit w
    unfolding admission_round_def Let_def readReservations_def
    by (rule wp_tguard_quiet [where log = log and w = w and K = "{}", OF reads(1) succeeds_if_any], simp,
        rule wp_ttry_yields [OF yields_readReservations [OF assms]], simp only: split_paired_all prod.case, rule state)
      auto
  have release: "wp (permit_release (Coordinator r) p) (\<lambda>_. wp (ret q) (admitted_held log x r build)) w"
    if "admitted_held log x r build q w" for p q w
    by (rule wp_mono [OF keepsD [OF keeps_reads(19) [OF assms, of "{}" "\<lambda>_ _. False"]]])
      (use that in \<open>auto simp: wp_ret admitted_held_def intro: held_grows\<close>)
  have rejected: "admitted_held log x r build (Inl e) w" for e w
    by (simp add: admitted_held_def)
  show ?thesis
    unfolding admission_def wp_attempt
  proof (rule wpI, split sum.split, intro conjI allI impI, simp add: wp_ret admitted_held_def, goal_cases)
    case (1 q w nonce)
    show ?case
      unfolding wp_bind
      by (rule wp_for_loop [where I = "\<lambda>_ _. True"], simp,
          auto simp: wp_bind admitting_def split: turn.split intro!: release wp_mono [OF round])
        (subst wp_ret, simp add: wp_bind release rejected)
  qed
qed

end
