(* ===== verification/Reservation_History.thy ===== *)
theory Reservation_History
  imports Reservation_Outcome
begin

text \<open>
  The history of the active ledger in the log of the cluster: calls of the controller, interleaved
  with the commits of other replicas that follow the same protocol, make one run of the protocol.
\<close>

section \<open>Changes of the ledger\<close>

text \<open>A change from version \<open>old\<close>: the first version has no entries, a later one is a step.\<close>

definition active_change :: "'x ext_scheme \<Rightarrow> 'w KovaBuildReconciler \<Rightarrow> obj option \<Rightarrow> obj option \<Rightarrow> bool" where
  "active_change x r old new \<longleftrightarrow> (\<exists>b c'. new = Some b \<and> ledger_state (decode_reservations x r) reservationDataKey b = Some c' \<and>
     (case old of
        None \<Rightarrow> the_active c' = []
      | Some a \<Rightarrow> (\<exists>c l. ledger_state (decode_reservations x r) reservationDataKey a = Some c \<and>
          active_step (rc_guarded r) l c c')))"

definition env_active :: "'x ext_scheme \<Rightarrow> 'w KovaBuildReconciler \<Rightarrow> string \<Rightarrow> event list \<Rightarrow> bool" where
  "env_active x r ns l \<longleftrightarrow> (\<forall>p e q. l = p @ e # q \<longrightarrow>
     (\<forall>v. e = Env (active_key ns) v \<longrightarrow> active_change x r (current p (active_key ns)) v))"

definition own_active :: "'x ext_scheme \<Rightarrow> 'w KovaBuildReconciler \<Rightarrow> string \<Rightarrow> event list \<Rightarrow> bool" where
  "own_active x r ns l \<longleftrightarrow> (\<forall>p e q. l = p @ e # q \<longrightarrow>
     (\<forall>v. e = Own (active_key ns) v \<longrightarrow> active_change x r (current p (active_key ns)) v))"

lemma active_follows_snoc:
  "env_active x r ns (l @ [e]) \<longleftrightarrow> env_active x r ns l \<and>
     (\<forall>v. e = Env (active_key ns) v \<longrightarrow> active_change x r (current l (active_key ns)) v)"
  "own_active x r ns (l @ [e]) \<longleftrightarrow> own_active x r ns l \<and>
     (\<forall>v. e = Own (active_key ns) v \<longrightarrow> active_change x r (current l (active_key ns)) v)"
  unfolding env_active_def own_active_def by (rule snoc_positions)+

lemma decoded_capacity:
  assumes "decode_reservations x r raw = Inr c"
  shows "capacity_ok c \<and> MaxJobs c = MaxActiveJobs (Cfg r) \<and> MaxPerRequester c = MaxActiveJobsPerRequester (Cfg r) \<and>
    WorkerSlots c = CfgWorkerSlots (Cfg r)"
proof -
  note d = decode_reservations_Inr(1,3) [OF assms]
  from d(2) obtain es where "RActive c = Some es" "within_limits c" "\<forall>(k, e) \<in> set es. 1 \<le> RSlots e"
    by (fastforce simp: validateReservationState_iff valid_reservation_def invalid_reservation_def)
  with d(1) show ?thesis
    by (auto simp: capacity_ok_def good_active_def within_limits_def the_active_def validateReservationLimits_iff)
qed

text \<open>What is known of the current version: it ends a run from an empty ledger with the configured limits.\<close>

definition run_from_empty :: "'w KovaBuildReconciler \<Rightarrow> reservationState \<Rightarrow> bool" where
  "run_from_empty r c \<longleftrightarrow> (\<exists>c0 ls. the_active c0 = [] \<and> capacity_ok c0 \<and> MaxJobs c0 = MaxActiveJobs (Cfg r) \<and>
     MaxPerRequester c0 = MaxActiveJobsPerRequester (Cfg r) \<and> WorkerSlots c0 = CfgWorkerSlots (Cfg r) \<and>
     active_run (rc_guarded r) ls c0 c)"

lemma run_from_empty_start:
  assumes "ledger_state (decode_reservations x r) reservationDataKey b = Some c" and "the_active c = []"
  shows "run_from_empty r c"
proof -
  obtain raw where "decode_reservations x r raw = Inr c"
    using assms(1) by (auto simp: ledger_state_def split: obj.splits sum.splits)
  from decoded_capacity [OF this] assms(2) show ?thesis unfolding run_from_empty_def by (blast intro: active_run.start)
qed

lemma run_from_empty_step: "run_from_empty r c \<Longrightarrow> active_step (rc_guarded r) l c c' \<Longrightarrow> run_from_empty r c'"
  unfolding run_from_empty_def by (blast intro: active_run.step)

lemma follows_history:
  assumes "env_active x r ns l" and "own_active x r ns l" and "current l (active_key ns) = Some v"
  shows "\<exists>c. ledger_state (decode_reservations x r) reservationDataKey v = Some c \<and> run_from_empty r c"
  using assms
proof (induction l arbitrary: v rule: rev_induct)
  case (snoc e l)
  have change: "\<exists>c. ledger_state (decode_reservations x r) reservationDataKey b = Some c \<and> run_from_empty r c"
    if "active_change x r (current l (active_key ns)) (Some b)" for b
  proof (cases "current l (active_key ns)")
    case None
    then show ?thesis using that run_from_empty_start by (fastforce simp: active_change_def)
  next
    case (Some a)
    then show ?thesis
      using that snoc.IH [OF _ _ Some] snoc.prems(1,2) run_from_empty_step
      by (fastforce simp: active_change_def active_follows_snoc)
  qed
  show ?case
    using snoc change by (cases e) (auto simp: active_follows_snoc split: if_splits)
qed simp

section \<open>Calls of the controller\<close>

lemma grows_own_active:
  assumes "grows R l m" and "own_active x r ns l"
    and "\<And>h v. R h (Own (active_key ns) v) \<Longrightarrow> active_change x r (current h (active_key ns)) v"
  shows "own_active x r ns m"
  using assms by (induction rule: grows.induct) (auto simp: active_follows_snoc)

lemma reservation_event_change:
  "reservation_event x r ns L h (Own (active_key ns) v) \<Longrightarrow> active_change x r (current h (active_key ns)) v"
  unfolding reservation_event_def active_event_def ledger_event_def active_change_def effect_event_def
  by (auto simp: sent_to_def touches_def active_key_def)

lemma active_init_change:
  "active_init_event x r ns h (Own (active_key ns) v) \<Longrightarrow> active_change x r (current h (active_key ns)) v"
  by (auto simp: active_init_event_def active_change_def sent_to_def freshReservations_def the_active_def)

lemma keeps_own_active:
  assumes "keeps log R m" and "run_state m w = (q, w')" and "own_active x r ns (log w)"
    and "\<And>h v. R h (Own (active_key ns) v) \<Longrightarrow> active_change x r (current h (active_key ns)) v"
  shows "own_active x r ns (log w')"
  using grows_own_active [OF wp_run [OF keepsD [OF assms(1)] assms(2)] assms(3,4)] by simp

lemma reservation_op_active:
  "keeps log (reservation_event x r ns L) m \<Longrightarrow> run_state m w = (q, w') \<Longrightarrow> own_active x r ns (log w) \<Longrightarrow> own_active x r ns (log w')"
  by (rule keeps_own_active [where R = "reservation_event x r ns L"]) (auto intro: reservation_event_change)

lemma active_init_active:
  "keeps log (active_init_event x r ns) m \<Longrightarrow> run_state m w = (q, w') \<Longrightarrow> own_active x r ns (log w) \<Longrightarrow> own_active x r ns (log w')"
  by (rule keeps_own_active [where R = "active_init_event x r ns"]) (auto intro: active_init_change)

text \<open>Any sequence of calls of the reconciler's ledger operations for builds of one namespace.\<close>

inductive controller_calls ::
  "'x ext_pod_scheme \<Rightarrow> 'w runtime \<Rightarrow> 'w KovaBuildReconciler \<Rightarrow> string \<Rightarrow> 'w \<Rightarrow> 'w \<Rightarrow> bool" for x rt r ns w where
  none: "controller_calls x rt r ns w w"
| initialize: "controller_calls x rt r ns w v \<Longrightarrow> run_state (initializeReservations x rt r ns) v = (qi, v') \<Longrightarrow>
    controller_calls x rt r ns w v'"
| admit: "controller_calls x rt r ns w v \<Longrightarrow> Namespace (build_meta b) = ns \<Longrightarrow>
    run_state (admission x rt r b) v = (qa, v') \<Longrightarrow> controller_calls x rt r ns w v'"
| begin_create: "controller_calls x rt r ns w v \<Longrightarrow> Namespace (build_meta b) = ns \<Longrightarrow>
    run_state (beginPodCreate x rt r b) v = (qb, v') \<Longrightarrow> controller_calls x rt r ns w v'"
| finish_attempt: "controller_calls x rt r ns w v \<Longrightarrow> Namespace (build_meta b) = ns \<Longrightarrow>
    run_state (finishFreshPodAttempt x rt r b p att) v = (qf, v') \<Longrightarrow> controller_calls x rt r ns w v'"
| complete_create: "controller_calls x rt r ns w v \<Longrightarrow> Namespace (build_meta b) = ns \<Longrightarrow>
    run_state (completePodCreate x rt r b att) v = (qc, v') \<Longrightarrow> controller_calls x rt r ns w v'"
| fence: "controller_calls x rt r ns w v \<Longrightarrow> Namespace (build_meta b) = ns \<Longrightarrow>
    run_state (fenceReservation x rt r b) v = (qn, v') \<Longrightarrow> controller_calls x rt r ns w v'"
| release: "controller_calls x rt r ns w v \<Longrightarrow> Namespace (build_meta b) = ns \<Longrightarrow>
    run_state (releaseReservation x rt r b) v = (qr, v') \<Longrightarrow> controller_calls x rt r ns w v'"

lemma calls_own_active:
  assumes "controller_calls x rt r ns w w'" and "lawful_reconciler log x rt r" and "direct_pods log r"
    and "own_active x r ns (log w)"
  shows "own_active x r ns (log w')"
  using assms(1)
proof (induction rule: controller_calls.induct)
  case none
  show ?case by (rule assms(4))
next
  case (initialize v qi v')
  show ?case by (rule active_init_active [OF keeps_initializeReservations [OF assms(2)] initialize(2,3)])
next
  case (admit v b qa v')
  show ?case
    by (rule reservation_op_active [OF keeps_admission [OF assms(2), of b, unfolded admit(2)] admit(3,4)])
next
  case (begin_create v b qb v')
  show ?case
    by (rule reservation_op_active [OF keeps_beginPodCreate [OF assms(2), of b, unfolded begin_create(2)] begin_create(3,4)])
next
  case (finish_attempt v b p att qf v')
  show ?case
    by (rule reservation_op_active [OF keeps_finishFreshPodAttempt [where L = "\<lambda>_. True" and build = b,
          OF assms(2) TrueI TrueI TrueI, unfolded finish_attempt(2)] finish_attempt(3,4)])
next
  case (complete_create v b att qc v')
  show ?case
    by (rule reservation_op_active [OF keeps_completePodCreate [where L = "\<lambda>_. True" and build = b,
          OF assms(2) TrueI, unfolded complete_create(2)] complete_create(3,4)])
next
  case (fence v b qn v')
  show ?case
    by (rule reservation_op_active [OF keeps_fenceReservation [where L = "\<lambda>_. True" and build = b,
          OF assms(2) TrueI, unfolded fence(2)] fence(3,4)])
next
  case (release v b qr v')
  show ?case
    by (rule reservation_op_active [OF keeps_releaseReservation [OF assms(2,3), of b, unfolded release(2)] release(3,4)])
qed

end
