(* ===== verification/Reservation_Sample.thy ===== *)
theory Reservation_Sample
  imports Reservation_History Queue_Sample
begin

text \<open>
  Reconcilers on the sample server, with and without a guard, and a complete run of \<open>admission\<close>
  there: the hypotheses of the theorems about the active ledger hold together.
\<close>

section \<open>Sample reconcilers\<close>

definition sample_typed_create :: "configmap \<Rightarrow> (sample, configmap option \<times> goerr option) op" where
  "sample_typed_create cm = State (\<lambda>l.
     let k = (KConfigMap, ''receipts'', Name (cm_meta cm)); l' = l @ [Sent (ReqCreate k (OConfigMap cm))] in
     case current l k of
       None \<Rightarrow> (let new = cm\<lparr>cm_meta := (cm_meta cm)\<lparr>UID := ''uid'' @ sample_version l, ResourceVersion := sample_version l\<rparr>\<rparr> in
         ((Some new, None), l' @ [Own k (Some (OConfigMap new))]))
     | Some _ \<Rightarrow> ((None, Some (ErrApi AlreadyExists)), l'))"

definition sample_receipts :: "sample configmaps" where
  "sample_receipts = \<lparr>CM_Create = sample_typed_create, CM_Get = sample_get KConfigMap sel_cm cm_meta ''receipts'',
     CM_Delete = sample_delete ''receipts''\<rparr>"

lemma sample_receipts_lawful: "lawful_configmaps id ''receipts'' sample_receipts"
proof -
  have create: "requests id (ReqCreate (KConfigMap, ''receipts'', Name (cm_meta cm)) (OConfigMap cm)) (\<lambda>r. snd r \<noteq> None)
      (typed_create_commits (KConfigMap, ''receipts'', Name (cm_meta cm)) cm) (sample_typed_create cm)" for cm
    unfolding sample_typed_create_def
    by (rule requests_atonce) (auto simp: Let_def typed_create_commits_def definitive_def split: option.splits)
  have get: "wp (sample_get KConfigMap sel_cm cm_meta ns n) (\<lambda>r w'.
      (\<forall>cm. r = Inr cm \<longrightarrow> current (id w') (KConfigMap, ns, n) = Some (OConfigMap cm)) \<and>
      (\<forall>e. r = Inl e \<and> IsNotFound e \<longrightarrow> current (id w') (KConfigMap, ns, n) = None)) w" for ns n w
    by (rule wp_mono [OF wp_conj [OF sample_get_current sample_get_absent]]) (auto simp: sel_simps)
  show ?thesis
    unfolding lawful_configmaps_def using create get sample_delete_law
    by (auto simp: sample_receipts_def intro!: calm_sample_get)
qed

definition sample_config :: config where
  "sample_config = \<lparr>CfgNamespace = ''builds'', CfgRunnerImage = ''runner'', CfgRunnerImageDigest = ''sha256:00'',
     CfgWorkerPoolID = ''pool'', MaxActiveJobs = 4, MaxActiveJobsPerRequester = 2, MaxQueuedJobs = 10,
     MaxQueuedJobsPerRequester = 2, CfgWorkerSlots = 8\<rparr>"

definition sample_reconciler :: "sample Guard option \<Rightarrow> sample KovaBuildReconciler" where
  "sample_reconciler g = \<lparr>RClient = Some sample_client, APIReader = Some (reader.truncate sample_client), RGenesis = g,
     RecoveryReceipts = map_option (\<lambda>_. sample_receipts) g, Cfg = sample_config, Coordinator = None\<rparr>"

lemma sample_reconciler_lawful:
  assumes "g = None \<or> g = Some sample_guard" and "dns_names x"
  shows "lawful_reconciler id x sample_runtime (sample_reconciler g)"
proof -
  have guard: "DataKey (QueueTemplate (Bootstrap sample_guard)) = dataKey"
      "DataKey (ActiveTemplate (Bootstrap sample_guard)) = reservationDataKey"
      "receipts_namespace (sample_reconciler (Some sample_guard)) = ''receipts''"
    by (simp_all add: sample_guard_def receipts_namespace_def sample_reconciler_def sample_receipt_def)
  have rand: "results (Rand16 sample_runtime) (\<lambda>raw. length raw = 16)"
    by (simp add: sample_runtime_def results_def wp_ret)
  show ?thesis
    using assms rand guard sample_lawful sample_runtime_lawful sample_guard_lawful sample_receipts_lawful
    by (auto simp: lawful_reconciler_def sample_reconciler_def lawful_client_def intro: lawful_reader_truncate)
qed

lemma sample_ext_names: "dns_names sample_ext"
  using dns_names_rfc1123 by (simp add: dns_names_def sample_ext_def ext.extend_def)

lemma sample_ext_subdomain [simp]: "IsDNS1123Subdomain sample_ext = rfc1123_subdomain"
  by (simp add: sample_ext_def ext.extend_def rfc1123_def)

lemmas sample_lawful_plain = sample_reconciler_lawful [OF disjI1 [OF HOL.refl] sample_ext_names]
lemmas sample_lawful_guarded = sample_reconciler_lawful [OF disjI2 [OF HOL.refl] sample_ext_names]

lemma sample_guarded: "rc_guarded (sample_reconciler (Some sample_guard))" "\<not> rc_guarded (sample_reconciler None)"
  by (simp_all add: rc_guarded_def sample_reconciler_def)

lemma sample_direct_pods: "direct_pods id (sample_reconciler g)"
  by (auto simp: direct_pods_def rc_reader_def sample_reconciler_def reader.truncate_def sample_client_def
      intro!: wp_mono [OF sample_get_absent])

section \<open>A run of admission\<close>

text \<open>Another replica has initialised the ledger and charged the build, as in a first call whose response was lost.\<close>

definition sample_charge :: activeReservation where
  "sample_charge = fresh_entry (sample_reconciler None) sample_build 1 [] (freshReservations sample_config)"

definition sample_active :: reservationState where
  "sample_active = (put_active ''uid-1'' sample_charge (freshReservations sample_config))
     \<lparr>LastGrantedRequesterHash := HashRequester ''ada''\<rparr>"

definition sample_version_of :: "string \<Rightarrow> reservationState \<Rightarrow> configmap" where
  "sample_version_of v c = \<lparr>cm_meta = empty_meta\<lparr>Name := reservationConfigMap, Namespace := ''builds'', UID := ''uid-active'',
     ResourceVersion := v\<rparr>, Immutable = None, Data = [(reservationDataKey, print_json (marshal_reservations c))], BinaryData = []\<rparr>"

definition sample_active_ledger :: configmap where
  "sample_active_ledger = sample_version_of ''2'' sample_active"

definition sample_active_log :: sample where
  "sample_active_log = [Env (KBuild, ''builds'', ''build-1'') (Some (OBuild (sample_build\<lparr>build_meta := (build_meta sample_build)
       \<lparr>ResourceVersion := ''1''\<rparr>\<rparr>))),
     Env (active_key ''builds'') (Some (OConfigMap (sample_version_of ''1'' (freshReservations sample_config)))),
     Env (active_key ''builds'') (Some (OConfigMap sample_active_ledger))]"

lemma sample_charge_fields:
  "sample_charge = \<lparr>RBuildName = ''build-1'', RRequester = ''ada'', RSlots = 1, RGrantNonce = [], RGrantFence = 0,
     RGrantObservedRV = [], RGrantReceiptUID = [], RGrantReceiptDigest = [], RGrantCleanupReady = False,
     RPodAttemptNonce = [], RPodTemplateDigest = [], RPodReceiptUID = [], RPodReceiptDigest = [],
     RPodCleanupReady = False, RClosing = False, RInFlight = []\<rparr>"
  by (simp add: sample_charge_def fresh_entry_def sample_reconciler_def rc_guarded_def sample_build_def requesterKey_def)

lemma sample_active_fields: "RActive sample_active = Some [(''uid-1'', sample_charge)]" "the_active sample_active = [(''uid-1'', sample_charge)]"
  by (simp_all add: sample_active_def put_active_def freshReservations_def the_active_def)

lemma sample_active_valid:
  "validateReservationState sample_ext (freshReservations sample_config) = None" "validateReservationState sample_ext sample_active = None"
proof -
  have "validReservationHex (HashRequester ''ada'') 64"
    using sha256_hex_lower [of "''ada''"] by (simp add: validReservationHex_def HashRequester_def validLowerHex_def)
  then show "validateReservationState sample_ext sample_active = None"
    by (simp add: sample_active_def put_active_def the_active_def freshReservations_def sample_config_def sample_charge_fields
        validateReservationState_def reservation_eval [unfolded validReservationHex_def])
qed (simp add: freshReservations_def sample_config_def validateReservationState_def reservation_eval)

lemma sample_version_decode:
  assumes "c = freshReservations sample_config \<or> c = sample_active"
  shows "decode_active sample_ext (sample_reconciler None) (sample_version_of v c) = Inr (sample_version_of v c, c)"
    "ledger_state (decode_reservations sample_ext (sample_reconciler None)) reservationDataKey (OConfigMap (sample_version_of v c)) = Some c"
proof -
  have valid: "validateReservationState sample_ext c = None" using assms sample_active_valid by auto
  obtain es where es: "RActive c = Some es" "go_map es"
    using assms by (auto simp: sample_active_fields freshReservations_def go_map_def)
  have "decodeReservations sample_ext (sample_version_of v c) = Inr c"
    using decode_encode_reservations [OF valid sample_ext_names es] encodeReservations_valid [OF valid sample_ext_names]
    by (auto simp: sample_version_of_def)
  moreover have "validateReservationLimits (Cfg (sample_reconciler None)) c = None"
    using assms by (auto simp: validateReservationLimits_def ValidateReservationCapacity_def sample_reconciler_def sample_config_def
        sample_active_def freshReservations_def capacity_error_def)
  moreover have "RVersion c = 1" using assms by (auto simp: sample_active_def freshReservations_def)
  ultimately show *: "decode_active sample_ext (sample_reconciler None) (sample_version_of v c) = Inr (sample_version_of v c, c)"
    by (simp add: decode_active_def sample_guarded)
  from decode_active_raw [OF *] show "ledger_state (decode_reservations sample_ext (sample_reconciler None)) reservationDataKey
      (OConfigMap (sample_version_of v c)) = Some c" by (simp add: ledger_state_def)
qed

lemmas sample_active_decode = sample_version_decode(1) [OF disjI2 [OF HOL.refl], of "''2''", folded sample_active_ledger_def]

lemma sample_reader: "rc_reader (sample_reconciler g) = Some (reader.truncate sample_client)"
  by (simp add: rc_reader_def sample_reconciler_def)

lemma sample_active_read:
  "run_state (readReservations sample_ext sample_runtime (sample_reconciler None) ''builds'') sample_active_log =
     (Inr (sample_active_ledger, sample_active), sample_active_log)"
proof -
  have "ValidString ''2''" by (rule ValidString_ascii) simp
  then have "run_state (sample_get KConfigMap sel_cm cm_meta ''builds'' reservationConfigMap) sample_active_log =
      (Inr sample_active_ledger, sample_active_log)"
    by (simp add: sample_get_def sample_active_log_def current_def active_key_def sample_active_ledger_def
        sample_version_of_def empty_meta_def)
  moreover have "rc_guarded (sample_reconciler None) = False" by (simp add: rc_guarded_def sample_reconciler_def)
  ultimately show ?thesis
    by (simp add: readReservations_def readReservationsWithObservation_def guard_def attempt_def fetch_reservations_def via_def
        sample_reader reader.truncate_def sample_client_def sample_active_decode)
qed

lemma sample_live:
  "run_state (ensureLiveAdmissionBuild (sample_reconciler None) sample_build) sample_active_log = (None, sample_active_log)"
proof -
  have "ValidString ''1''" by (rule ValidString_ascii) simp
  then show ?thesis
    by (simp add: ensureLiveAdmissionBuild_def attemptE_def via_def sample_reader reader.truncate_def sample_client_def
        sample_get_def sample_active_log_def current_def active_key_def sample_build_def empty_meta_def cancellationRequested_def
        mget_def)
qed

lemma sample_admission:
  "run_state (admission sample_ext sample_runtime (sample_reconciler None) sample_build) sample_active_log =
     (Inr (granting 1), sample_active_log)"
proof -
  have unguarded: "rc_guarded (sample_reconciler None) = False" by (simp add: rc_guarded_def sample_reconciler_def)
  have build: "Namespace (build_meta sample_build) = ''builds''" "Name (build_meta sample_build) = ''build-1''"
      "reservationKey sample_build = ''uid-1''" "requesterKey sample_build = ''ada''"
    by (simp_all add: sample_build_def reservationKey_def requesterKey_def)
  have charge: "RBuildName sample_charge = ''build-1''" "RRequester sample_charge = ''ada''" "\<not> RClosing sample_charge" "RSlots sample_charge = 1"
    by (simp_all add: sample_charge_fields)
  have lists: "List_builds (reader.truncate sample_client) ns i = ret (Inr [])" "List_pods (reader.truncate sample_client) ns m = ret (Inr [])" for ns i m
    by (simp_all add: reader.truncate_def sample_client_def)
  have grant: "run_state (admission_grant sample_ext sample_runtime (sample_reconciler None) sample_build n i p sample_active_ledger sample_active)
      sample_active_log = (Leave (p, Inr (granting 1)), sample_active_log)" for n i p
    by (simp add: admission_grant_def Let_def ttry_def tguard_def via_def sample_reader lists ensureNoUnreservedRunner_def guardE_def
        attemptE_def unguarded build charge sample_active_fields)
  have ctx: "run_state (Ctx_Err sample_runtime) w = (None, w)" for w by (simp add: sample_runtime_def)
  have round: "run_state (admission_round sample_ext sample_runtime (sample_reconciler None) sample_build n i p) sample_active_log =
      (Leave (p, Inr (granting 1)), sample_active_log)" for n i p
    by (simp add: admission_round_def Let_def tguard_def ttry_def ctx sample_active_read sample_live grant build sample_active_fields)
  have alone: "Coordinator (sample_reconciler None) = None" by (simp add: sample_reconciler_def)
  have "maxReservationCASAttempts = Suc 15" by simp
  then show ?thesis
    unfolding admission_def for_loop_def
    by (simp only: loop_from.simps) (simp add: attempt_def unguarded round permit_release_def alone)
qed

section \<open>A run of the protocol\<close>

definition sample_life :: "active_label list" where
  "sample_life = [AGrant ''uid-1'' sample_charge, AArm ''uid-1'', APin ''uid-1'']"

definition sample_granted :: reservationState where
  "sample_granted = (put_active ''uid-1'' sample_charge (freshReservations sample_config\<lparr>Fence := 1\<rparr>))
     \<lparr>LastGrantedRequesterHash := HashRequester ''ada''\<rparr>"

definition sample_pinned :: reservationState where
  "sample_pinned = put_active ''uid-1'' (sample_charge\<lparr>RGrantObservedRV := ''7'', RGrantReceiptUID := ''receipt'', RGrantReceiptDigest := ''digest''\<rparr>)
     (put_active ''uid-1'' (sample_charge\<lparr>RGrantObservedRV := ''7''\<rparr>) sample_granted)"

lemma sample_fresh_fields:
  "the_active (freshReservations c) = []" "MaxJobs (freshReservations c) = MaxActiveJobs c"
  "MaxPerRequester (freshReservations c) = MaxActiveJobsPerRequester c" "WorkerSlots (freshReservations c) = CfgWorkerSlots c"
  "Fence (freshReservations c) = 0"
  by (simp_all add: freshReservations_def the_active_def)

lemma sample_active_run: "active_run True sample_life (freshReservations sample_config) sample_pinned"
  and sample_run_tail: "active_run True [AArm ''uid-1'', APin ''uid-1''] sample_granted sample_pinned"
proof -
  let ?e = "sample_charge\<lparr>RGrantObservedRV := ''7''\<rparr>"
  have 1: "active_step True (AGrant ''uid-1'' sample_charge) (freshReservations sample_config) sample_granted"
    by (rule active_step.grant)
      (simp_all add: sample_fresh_fields sample_granted_def sample_charge_fields sample_config_def unused_entry_def)
  have 2: "active_step True (AArm ''uid-1'') sample_granted (put_active ''uid-1'' ?e sample_granted)"
    by (rule active_step.arm) (simp_all add: sample_granted_def sample_fresh_fields, simp_all add: sample_charge_fields)
  have 3: "active_step True (APin ''uid-1'') (put_active ''uid-1'' ?e sample_granted) sample_pinned"
    unfolding sample_pinned_def
    using active_step.pin [of True "put_active ''uid-1'' ?e sample_granted" "''uid-1''" ?e "''receipt''" "''digest''"]
    by (simp add: sample_granted_def sample_fresh_fields sample_charge_fields)
  have "active_run True ((([] @ [AGrant ''uid-1'' sample_charge]) @ [AArm ''uid-1'']) @ [APin ''uid-1'']) (freshReservations sample_config) sample_pinned"
    by (intro active_run.step [OF active_run.step [OF active_run.step [OF active_run.start 1] 2] 3])
  then show "active_run True sample_life (freshReservations sample_config) sample_pinned" by (simp add: sample_life_def)
  show "active_run True [AArm ''uid-1'', APin ''uid-1''] sample_granted sample_pinned"
    using active_run.step [OF active_run.step [OF active_run.start 2] 3] by simp
qed

lemma sample_capacity: "capacity_ok (freshReservations sample_config)"
  by (simp add: capacity_ok_def sample_fresh_fields sample_config_def go_map_def)

lemma sample_granted_capacity: "capacity_ok sample_granted"
  by (simp add: capacity_ok_def sample_granted_def sample_fresh_fields sample_config_def go_map_def sample_charge_fields)

section \<open>A history of the ledger\<close>

lemma sample_env_active: "env_active sample_ext (sample_reconciler None) ''builds'' sample_active_log"
proof -
  let ?d = "decode_reservations sample_ext (sample_reconciler None)"
  let ?first = "OConfigMap (sample_version_of ''1'' (freshReservations sample_config))" and ?second = "OConfigMap sample_active_ledger"
  have first: "ledger_state ?d reservationDataKey ?first = Some (freshReservations sample_config)"
    by (rule sample_version_decode(2)) simp
  have second: "ledger_state ?d reservationDataKey ?second = Some sample_active"
    unfolding sample_active_ledger_def by (rule sample_version_decode(2)) simp
  have "active_step (rc_guarded (sample_reconciler None)) (AGrant ''uid-1'' sample_charge) (freshReservations sample_config) sample_active"
    by (rule active_step.grant)
      (simp_all add: sample_fresh_fields sample_active_def sample_guarded sample_charge_fields sample_config_def unused_entry_def)
  then have "active_change sample_ext (sample_reconciler None) (Some ?first) (Some ?second)"
    using first second by (auto simp: active_change_def)
  moreover have "active_change sample_ext (sample_reconciler None) None (Some ?first)"
    using first by (auto simp: active_change_def sample_fresh_fields)
  ultimately show ?thesis
    by (auto simp: env_active_def sample_active_log_def Cons_eq_append_conv current_def active_key_def)
qed

lemma sample_own_active: "own_active sample_ext (sample_reconciler None) ''builds'' sample_active_log"
  by (auto simp: own_active_def sample_active_log_def Cons_eq_append_conv)

end
