(* ===== verification/Reservation_Theorems.thy ===== *)
theory Reservation_Theorems
  imports Reservation_Sample
begin

text \<open>
  The theorems about the active ledger: what its operations may store, what their results mean, and
  the invariants of every sequence of stored versions.
\<close>

text \<open>C2: Whatever other processes do in between, every version of the active ledger that the controller
  stores is one step of the protocol from the version it replaces, and a step of the operation at
  hand: \<open>admission\<close> grants, arms and pins the grant of its build; \<open>beginPodCreate\<close> spends the one
  attempt (without a guard it issues directly); \<open>finishFreshPodAttempt\<close> arms and pins the Pod receipt
  and then issues; \<open>completePodCreate\<close> completes; \<open>fenceReservation\<close> closes. The first version of an
  unguarded ledger is the empty one, stored only where there was no ledger.\<close>

theorem reservation_operations_refine:
  fixes build :: KovaBuild
  assumes "lawful_reconciler log x rt r"
  defines "ns \<equiv> Namespace (build_meta build)" and "k \<equiv> reservationKey build"
  shows "keeps log (reservation_event x r ns (\<lambda>l. (\<exists>e. l = AGrant k e) \<or> l = AArm k \<or> l = APin k)) (admission x rt r build) \<and>
    keeps log (reservation_event x r ns (\<lambda>l. if rc_guarded r then \<exists>n. l = ASpend k n else l = AIssue k))
      (beginPodCreate x rt r build) \<and>
    keeps log (reservation_event x r ns (\<lambda>l. l \<in> {APodArm k, APodPin k, AIssue k})) (finishFreshPodAttempt x rt r build p att) \<and>
    keeps log (reservation_event x r ns (\<lambda>l. l = AComplete k)) (completePodCreate x rt r build att) \<and>
    keeps log (reservation_event x r ns (\<lambda>l. l = AClose k)) (fenceReservation x rt r build) \<and>
    keeps log (active_init_event x r ns) (initializeReservations x rt r ns)"
  unfolding ns_def k_def using assms(1)
  by (intro conjI keeps_admission keeps_beginPodCreate keeps_finishFreshPodAttempt keeps_completePodCreate
      keeps_fenceReservation keeps_initializeReservations) simp_all

theorem reservation_operations_refine_witness:
  "rc_guarded (sample_reconciler (Some sample_guard)) \<and>
   keeps id (reservation_event sample_ext (sample_reconciler (Some sample_guard)) ''builds''
     (\<lambda>l. (\<exists>e. l = AGrant ''uid-1'' e) \<or> l = AArm ''uid-1'' \<or> l = APin ''uid-1''))
     (admission sample_ext sample_runtime (sample_reconciler (Some sample_guard)) sample_build)"
proof -
  have build: "Namespace (build_meta sample_build) = ''builds''" "reservationKey sample_build = ''uid-1''"
    by (simp_all add: sample_build_def reservationKey_def)
  from reservation_operations_refine [OF sample_lawful_guarded, where build = sample_build] sample_guarded(1)
  show ?thesis unfolding build by blast
qed

text \<open>C4: With a direct reader of Pods \<open>releaseReservation\<close> removes the charge of its build only from a
  version in which the entry is closing and no creation is in flight, and only after the runner Pod
  was absent at some time since the call began. In a guarded installation the entry was also marked
  for cleanup, and its Pod receipt and its grant receipt were absent in that time. Its other effects
  on the ledger are late pins and the two marks.\<close>

theorem active_release_order:
  assumes "lawful_reconciler log x rt r" and "direct_pods log r"
  shows "wp (releaseReservation x rt r build) (\<lambda>_ w'. grows (active_release_event x r build (log w)) (log w) (log w')) w"
  using releaseReservation_order [OF assms] .

theorem active_release_order_witness:
  "rc_guarded (sample_reconciler (Some sample_guard)) \<and>
   wp (releaseReservation sample_ext sample_runtime (sample_reconciler (Some sample_guard)) sample_build) (\<lambda>_ w'.
     grows (active_release_event sample_ext (sample_reconciler (Some sample_guard)) sample_build sample_active_log) sample_active_log w')
     sample_active_log"
  using active_release_order [OF sample_lawful_guarded sample_direct_pods, of sample_build sample_active_log] sample_guarded(1)
  by simp



text \<open>C7: An admission that \<open>admission\<close> reports is a charge in the ledger: some version of it held the
  entry of the build with the name, the requester and the slots of the decision; in a guarded
  installation its grant receipt was pinned and the grant open.\<close>

theorem admission_result:
  assumes "lawful_reconciler log x rt r" and "run_state (admission x rt r build) w = (Inr d, w')" and "Admitted d"
  shows "held x r build (charged r build (Allocation d)) (log w')"
  using wp_run [OF admission_held [OF assms(1)] assms(2)] assms(3) by (simp add: admitted_held_def)

theorem admission_result_witness:
  "run_state (admission sample_ext sample_runtime (sample_reconciler None) sample_build) sample_active_log =
     (Inr (granting 1), sample_active_log) \<and>
   held sample_ext (sample_reconciler None) sample_build (charged (sample_reconciler None) sample_build 1) sample_active_log"
proof -
  have d: "Admitted (granting 1)" "Allocation (granting 1) = 1" by (simp_all add: granting_def)
  from admission_result [OF sample_lawful_plain sample_admission d(1)] sample_admission show ?thesis by (simp add: d)
qed

text \<open>C3: Let the controller make any sequence of calls of its ledger operations for builds of a
  namespace, interleaved in any way with changes of the ledger by other replicas that follow the
  same protocol. Then the current version is the end of a run of the protocol from an empty ledger,
  and it holds no more jobs, worker slots and jobs of one requester than the configuration allows.\<close>

theorem controller_keeps_capacity:
  assumes "lawful_reconciler log x rt r" and "direct_pods log r" and "controller_calls x rt r ns w w'"
    and "own_active x r ns (log w)" and "env_active x r ns (log w')" and "current (log w') (active_key ns) = Some v"
  shows "\<exists>c. ledger_state (decode_reservations x r) reservationDataKey v = Some c \<and> run_from_empty r c \<and>
    int (length (the_active c)) \<le> MaxActiveJobs (Cfg r) \<and> used_slots (the_active c) \<le> CfgWorkerSlots (Cfg r) \<and>
    (\<forall>q. int (jobs_of q (the_active c)) \<le> MaxActiveJobsPerRequester (Cfg r))"
proof -
  obtain c where c: "ledger_state (decode_reservations x r) reservationDataKey v = Some c" "run_from_empty r c"
    using follows_history [OF assms(5) calls_own_active [OF assms(3,1,2,4)] assms(6)] by blast
  then show ?thesis
    using run_capacity by (fastforce simp: run_from_empty_def capacity_ok_def)
qed

theorem controller_keeps_capacity_witness:
  "\<exists>v c. current sample_active_log (active_key ''builds'') = Some v \<and>
     ledger_state (decode_reservations sample_ext (sample_reconciler None)) reservationDataKey v = Some c \<and>
     used_slots (the_active c) \<le> 8"
proof -
  have calls: "controller_calls sample_ext sample_runtime (sample_reconciler None) ''builds'' sample_active_log sample_active_log"
    by (rule controller_calls.admit [OF controller_calls.none _ sample_admission]) (simp add: sample_build_def)
  have cur: "current (id sample_active_log) (active_key ''builds'') = Some (OConfigMap sample_active_ledger)"
    by (simp add: sample_active_log_def current_def active_key_def)
  have "CfgWorkerSlots (Cfg (sample_reconciler None)) = 8" by (simp add: sample_reconciler_def sample_config_def)
  with controller_keeps_capacity [OF sample_lawful_plain sample_direct_pods calls, unfolded id_apply,
      OF sample_own_active sample_env_active cur [unfolded id_apply]] cur
  show ?thesis by fastforce
qed







text \<open>C29: The strict decoder of the ledgers accepts a text exactly when it is valid UTF-8 with paired
  surrogate escapes and parses to one value, no object in it repeats or invents a member, no value
  in it is null or nested deeper than allowed, and the value has the fields of the target. Every
  other text is an error.\<close>

theorem strict_decode_accepts:
  "(\<exists>v. Decode raw unmarshal allowed = Inr v) \<longleftrightarrow> ValidString raw \<and> validSurrogates raw \<and>
     (\<exists>j. parse_json raw = Some j \<and> list_all (strict_node allowed) (nodes [] 0 j) \<and> (\<exists>v. unmarshal j = Some v))"
  unfolding Decode_Inr by blast

end
