(* ===== verification/Spec2Isabelle.thy ===== *)
theory Spec2Isabelle
  imports Queue_Theorems Reservation_Theorems
begin

text \<open>
  \<^bold>\<open>Admission in the Kova build service.\<close>

  Kova runs container builds on Kubernetes. A request becomes a \<open>KovaBuild\<close> object; a controller
  admits builds to a limited pool of worker slots and creates one runner Pod for each. Several
  replicas of the HTTP service and of the controller run at once, every API call may fail after it
  took effect, and a crash may come between any two calls. What must survive all this is kept in two
  ConfigMaps, the \<^emph>\<open>queue ledger\<close> (which requests may become builds) and the \<^emph>\<open>active ledger\<close>
  (which builds hold worker slots), changed by compare-and-swap writes only, and, in a \<^emph>\<open>guarded\<close>
  installation, in immutable \<^emph>\<open>receipts\<close> that record an intent before its effect. This development
  models these parts of the source under \<open>src/internal\<close> as executable definitions and proves what
  they promise under any interference.

  \<^bold>\<open>The parts, bottom up.\<close>

  \<^item> \<open>Prelude\<close>: Go strings as byte lists, Go maps as association lists in key order, Go errors as the
    type \<open>goerr\<close>, and the effect type \<open>('w, 'a) op\<close>, a state monad over an abstract world \<open>'w\<close>. Every
    early return of the source is one of the combinators \<open>attempt\<close>, \<open>guard\<close>, \<open>rtry\<close>, \<open>rguard\<close>, \<open>ttry\<close>,
    \<open>tguard\<close>; every retry loop is \<open>for_retry\<close> or \<open>for_loop\<close>; \<open>wp\<close> is the weakest precondition.
  \<^item> \<open>Go_Json\<close>, \<open>Go_Json_Read\<close>, \<open>Sha256\<close>: what is used of \<open>unicode/utf8\<close>, \<open>strconv\<close>, \<open>encoding/json\<close>,
    \<open>encoding/hex\<close> and \<open>crypto/sha256\<close>. \<open>Externals\<close>: third-party functions as a record of parameters.
  \<^item> \<open>Kube\<close>, \<open>Event_Log\<close>, \<open>Api_Laws\<close>: the objects of \<open>apis/kova/v1alpha1/types.go\<close> and of the
    Kubernetes API, the API operations as records of operations on the world, and the documented
    behaviour the theorems assume of them, stated over a log of events: \<open>Env\<close> for changes by others,
    \<open>Sent\<close> for own requests, \<open>Own\<close> for changes by own requests. Other processes are not restricted. An
    operation \<open>keeps log R\<close> when all its own events satisfy \<open>R\<close>; it is \<open>quiet\<close> when it has none.
  \<^item> \<open>Admission_Json\<close>: \<open>admissionjson/strict.go\<close>. \<open>Admission_Contract\<close>: \<open>admissioncontract/contract.go\<close>.
  \<^item> \<open>Genesis_Bootstrap\<close>, \<open>Genesis_Guard\<close>: \<open>service/admissiongenesis\<close>, the installation of the two
    ledgers and the guard through which a guarded installation reads and patches them.
  \<^item> \<open>Ledger_Cas\<close>: the locale \<open>cas_ledger\<close>, the contract of a ledger that is read, decoded, changed and
    written by compare-and-swap: a write stores nothing, or one version whose predecessor is exactly
    the one read. It is interpreted as \<open>queue\<close> in \<open>Queue_Protocol\<close> and as \<open>active\<close> in
    \<open>Reservation_Protocol\<close>, for the guarded patch and the plain update at once.
  \<^item> \<open>Recovery_Receipt\<close>, \<open>Pod_Template\<close>: \<open>service/recoveryreceipt\<close>, receipts that are created once and
    observed, and the canonical digest of a Pod template.
  \<^item> \<open>Queue_State\<close>, \<open>Queue_Store\<close>: \<open>service/queueadmission/ledger.go\<close>; the state with its codec and
    validation, then every operation of \<open>Store\<close>.
  \<^item> \<open>Reservation_State\<close>, \<open>Reservation_Store\<close>, \<open>Grant_Receipt\<close>, \<open>Pod_Receipt\<close>, \<open>Active_Admission\<close>,
    \<open>Fair_Admission\<close>, \<open>Admission_Coordinator\<close>: \<open>reservation.go\<close>, \<open>grant_receipt.go\<close>, \<open>pod_receipt.go\<close>,
    \<open>admission.go\<close> and \<open>admission_coordinator.go\<close> of \<open>service/buildcontroller\<close>; the record
    \<open>KovaBuildReconciler\<close> holds what these methods use of the controller.

  Records and their fields, functions and methods have the names of the source, with a prefix where a
  name is taken; a method takes its receiver as an argument after the parameters for third-party code
  (\<open>x\<close>) and for the clock, the context and the random source (\<open>rt\<close>).

  \<^bold>\<open>What is proved.\<close>

  \<^item> \<^emph>\<open>Refinement.\<close> \<open>queue_step\<close> and \<open>active_step\<close> are abstract protocols on decoded states. Whatever
    others do in between, every version stored by an operation of the queue ledger (\<open>Queue_Steps\<close>,
    \<open>Queue_Theorems\<close>) or of the active ledger (\<open>Reservation_Steps\<close>, \<open>Reservation_Refine\<close>,
    \<open>Reservation_Release\<close>) is one step, with a label of that operation, from the version it replaces.
  \<^item> \<^emph>\<open>Order of effects.\<close> A slot or a charge is removed only after what it stands for is gone:
    \<open>Queue_Release\<close> for the queue receipt, \<open>Reservation_Release\<close> for the runner Pod and the receipts of
    Pod and grant.
  \<^item> \<^emph>\<open>Meaning of results.\<close> \<open>Queue_Reserve\<close> for \<open>Reserve\<close>, lost responses included; \<open>Reservation_Outcome\<close>
    for an admitted build and for a Pod that may be created.
  \<^item> \<^emph>\<open>Invariants.\<close> \<open>Queue_Invariants\<close> and \<open>Reservation_Invariants\<close>: limits, identity of an entry and the
    order of its life, for all runs of the protocols. \<open>Reservation_History\<close> carries the limits over to
    the log: any sequence of controller calls, interleaved with other replicas that follow the protocol.
  \<^item> \<^emph>\<open>Admission.\<close> \<open>Fair_Admission\<close>: the fair order is a permutation that serves less-served requesters
    first, decisions never overbook, free capacity is not left idle. \<open>Admission_Coordinator\<close>: at most
    one permit is open, and a deferred demand is followed by a wake-up.
  \<^item> \<^emph>\<open>Persistence.\<close> For both ledgers decoding inverts encoding, every valid state fits the 768 KiB
    guard, and validation does not depend on the iteration order of Go maps. The strict decoder accepts
    exactly the unambiguous texts of its schema. The Pod digest binds what runs and survives the
    defaults of the API server.

  \<open>Sample_Server\<close>, \<open>Queue_Sample\<close> and \<open>Reservation_Sample\<close> give an API server on which all hypotheses
  hold and complete runs of \<open>Reserve\<close> and \<open>admission\<close> on it.

  \<^bold>\<open>Bounds.\<close> The retry loops have the bounds of the source (16 attempts for either ledger), and the
  result after the last attempt is the error of the source; all operations are total functions. The
  round loop of \<open>fairQueue\<close>, which has no bound in the source, takes the number of builds as fuel, and
  \<open>fairQueue_terminates\<close> shows that it ends within it with all builds placed. The fence is a 64-bit
  word that wraps; other integers of the ledgers are bounded by validation and are \<open>int\<close>.

  \<^bold>\<open>Simplifications.\<close> Texts of errors are kept without their formatted values. The strict decoder
  parses first and walks the tree then, so a text that is wrong in two ways may give another error.
  A nil slice or map and an empty one are one value, except where the source distinguishes them. Build
  and Pod pointers are never nil. \<open>sort.Slice\<close>, which need not be stable, is \<open>sort_key\<close> on keys that
  determine the order of builds with different names. An observation token is a value, the identity of a guard is a number, and a
  coordinator permit is the number of its allocation. The release channel of capacity one is a flag.
  The status 422 is an error reason of its own. The ConfigMap that \<open>initializeReservations\<close> returns
  besides the state is dropped. Status fields that no modelled operation reads are left out.

  \<^bold>\<open>Not modelled.\<close> The JSON form of \<open>corev1\<close> types, DNS name validation and image references are
  third-party code and parameters. The API server, its caches and the clock are parameters with the
  laws of \<open>Api_Laws\<close>. The reconcile loop around the ledgers (\<open>controller.go\<close>, \<open>lifecycle.go\<close>,
  \<open>queuepump.go\<close>, \<open>verification.go\<close>) drives exec streams into Pods and timers; the HTTP service, the
  daemon, the runner, the batch builder, source archives and the LMDB store are mostly input and output
  of processes, files and sockets; the recovery commands work offline on exported inventories. The
  manifest lists each with its reason.
\<close>

end
